(* ===== verification/Prelude.thy ===== *)
theory Prelude
  imports Main "HOL-Library.Word"
begin

text \<open>
  Shared vocabulary of the development: machine integers, raw memory as byte
  lists, the failures a C++ program can run into, and the generic lemmas on
  little-endian encodings and on reading and writing slices of a buffer that
  the component theories use.

  The program is built for 64-bit Windows (\<^verbatim>\<open>GEngine.sln\<close>, platform x64):
  \<^verbatim>\<open>size_t\<close> has 64 bits, \<^verbatim>\<open>int\<close> and \<^verbatim>\<open>unsigned int\<close> have 32, \<^verbatim>\<open>time_t\<close> has
  64, and integers are stored little-endian.  A \<^verbatim>\<open>size_t\<close> is a \<open>nat\<close> below
  \<open>2 ^ 64\<close> whose arithmetic wraps explicitly (\<open>sz_add\<close>, \<open>sz_sub\<close>);
  fixed-width integers are words.
\<close>

unbundle bit_operations_syntax

named_theorems codec_simps \<open>encoders and decoders of fixed-width integers\<close>
named_theorems range_simps \<open>reads and writes of byte ranges\<close>

type_synonym byte = "8 word"
type_synonym u16 = "16 word"
type_synonym u32 = "32 word"
type_synonym u64 = "64 word"

text \<open>
  An address; \<open>0\<close> is \<^verbatim>\<open>nullptr\<close>.
\<close>

type_synonym ptr = nat

section \<open>Failures\<close>

text \<open>
  What stops a run: a failed \<^verbatim>\<open>assert\<close>/\<^verbatim>\<open>ASSERT\<close> (the process aborts), and the
  accesses whose behaviour C++ leaves undefined.  Every operation that can run
  into one of them returns a value of type \<open>'a res\<close>, with the failure on the
  left.  \<open>OutOfFuel\<close> is not a failure of the program: it marks a run that went
  beyond the number of iterations it was given.
\<close>

datatype cpp_error =
    AssertFail
  | OutOfBounds
  | NullDeref
  | UseAfterFree
  | InvalidFree
  | LengthError
  | OutOfFuel

type_synonym 'a res = "cpp_error + 'a"

definition res_bind :: "'a res \<Rightarrow> ('a \<Rightarrow> 'b res) \<Rightarrow> 'b res" where
  "res_bind m f = (case m of Inl e \<Rightarrow> Inl e | Inr x \<Rightarrow> f x)"

lemma res_bind_simps [simp]:
  "res_bind (Inl e) f = Inl e"
  "res_bind (Inr x) f = f x"
  by (simp_all add: res_bind_def)

lemma res_bind_Inr_iff:
  "res_bind m f = Inr y \<longleftrightarrow> (\<exists>x. m = Inr x \<and> f x = Inr y)"
  by (cases m) simp_all

lemma res_bind_assoc: "res_bind (res_bind m f) g = res_bind m (\<lambda>x. res_bind (f x) g)"
  by (cases m) simp_all

section \<open>Unsigned 64-bit sizes\<close>

definition SIZE_MOD :: nat where
  "SIZE_MOD = 2 ^ 64"

definition sz_add :: "nat \<Rightarrow> nat \<Rightarrow> nat" where
  "sz_add a b = (a + b) mod SIZE_MOD"

definition sz_sub :: "nat \<Rightarrow> nat \<Rightarrow> nat" where
  "sz_sub a b = (a + SIZE_MOD - b) mod SIZE_MOD"

lemma sz_add_small: "a + b < SIZE_MOD \<Longrightarrow> sz_add a b = a + b"
  by (simp add: sz_add_def)

lemma sz_sub_le:
  assumes "b \<le> a" and "a < SIZE_MOD"
  shows "sz_sub a b = a - b"
proof -
  have eq: "a + SIZE_MOD - b = (a - b) + SIZE_MOD" using assms(1) by simp
  have "a - b < SIZE_MOD" using assms(2) by simp
  then show ?thesis unfolding sz_sub_def eq by simp
qed

text \<open>Subtracting a larger size wraps around to a huge value.\<close>

lemma sz_sub_wrap:
  assumes "a < b" and "b \<le> SIZE_MOD"
  shows "sz_sub a b = SIZE_MOD - (b - a)"
  using assms by (simp add: sz_sub_def)

lemma SIZE_MOD_gt: "2 ^ 63 < SIZE_MOD"
  by (simp add: SIZE_MOD_def)

section \<open>Byte ranges\<close>

definition subrange :: "'a list \<Rightarrow> nat \<Rightarrow> nat \<Rightarrow> 'a list" where
  "subrange xs i n = take n (drop i xs)"

definition blit :: "'a list \<Rightarrow> nat \<Rightarrow> 'a list \<Rightarrow> 'a list" where
  "blit xs i ys = take i xs @ ys @ drop (i + length ys) xs"

lemma length_subrange [range_simps]: "length (subrange xs i n) = min n (length xs - i)"
  by (simp add: subrange_def)

lemma subrange_append_left [range_simps]:
  "i + n \<le> length xs \<Longrightarrow> subrange (xs @ ys) i n = subrange xs i n"
  by (simp add: subrange_def)

lemma subrange_append_right:
  "length xs \<le> i \<Longrightarrow> subrange (xs @ ys) i n = subrange ys (i - length xs) n"
  by (simp add: subrange_def)

lemma subrange_whole [range_simps]: "n = length xs \<Longrightarrow> subrange xs 0 n = xs"
  by (simp add: subrange_def)

lemma subrange_mid: "length xs = i \<Longrightarrow> length ys = n \<Longrightarrow> subrange (xs @ ys @ zs) i n = ys"
  by (simp add: subrange_def)

lemma subrange_take: "i + n \<le> k \<Longrightarrow> subrange (take k xs) i n = subrange xs i n"
  by (simp add: subrange_def drop_take min_absorb1)

lemma length_blit [range_simps]:
  "i + length ys \<le> length xs \<Longrightarrow> length (blit xs i ys) = length xs"
  by (simp add: blit_def)

lemma subrange_blit_same:
  "i + length ys \<le> length xs \<Longrightarrow> subrange (blit xs i ys) i (length ys) = ys"
  by (simp add: blit_def subrange_def)

lemma subrange_blit_before:
  "j + n \<le> i \<Longrightarrow> i \<le> length xs \<Longrightarrow> subrange (blit xs i ys) j n = subrange xs j n"
  by (simp add: blit_def subrange_def drop_take min_absorb1)

lemma take_blit:
  "i \<le> length xs \<Longrightarrow> take (i + length ys) (blit xs i ys) = take i xs @ ys"
  by (simp add: blit_def)

section \<open>Little-endian integers\<close>

fun le_bytes :: "nat \<Rightarrow> nat \<Rightarrow> byte list" where
  "le_bytes 0 v = []"
| "le_bytes (Suc n) v = of_nat v # le_bytes n (v div 256)"

fun le_val :: "byte list \<Rightarrow> nat" where
  "le_val [] = 0"
| "le_val (b # bs) = unat b + 256 * le_val bs"

lemma length_le_bytes [simp]: "length (le_bytes n v) = n"
  by (induction n arbitrary: v) simp_all

lemma unat_of_nat_byte: "unat (of_nat v :: byte) = v mod 256"
  by (simp add: unat_of_nat)

lemma le_val_le_bytes: "le_val (le_bytes n v) = v mod 256 ^ n"
proof (induction n arbitrary: v)
  case 0
  then show ?case by simp
next
  case (Suc n)
  have "v mod (256 * 256 ^ n) = 256 * (v div 256 mod 256 ^ n) + v mod 256"
    by (rule mod_mult2_eq)
  with Suc show ?case by (simp add: unat_of_nat_byte)
qed

lemma le_val_bound: "le_val bs < 256 ^ length bs"
proof (induction bs)
  case Nil
  then show ?case by simp
next
  case (Cons b bs)
  have "unat b < 256" using unsigned_less [of b] by simp
  moreover from Cons have "le_val bs + 1 \<le> 256 ^ length bs" by simp
  ultimately show ?case by simp
qed

lemma le_bytes_le_val: "le_bytes (length bs) (le_val bs) = bs"
proof (induction bs)
  case Nil
  then show ?case by simp
next
  case (Cons b bs)
  have lt: "unat b < 256" using unsigned_less [of b] by simp
  have "(unat b + 256 * le_val bs) div 256 = le_val bs" using lt by simp
  moreover have "(of_nat (unat b + 256 * le_val bs) :: byte) = b"
    by (rule word_unat_eq_iff [THEN iffD2]) (use lt in \<open>simp add: unat_of_nat_byte del: of_nat_add\<close>)
  ultimately show ?case using Cons by simp
qed

text \<open>
  The object representation of the integer types the program stores in
  buffers, and the reads that invert it.
\<close>

definition bytes32 :: "u32 \<Rightarrow> byte list" where
  "bytes32 w = le_bytes 4 (unat w)"

definition word32 :: "byte list \<Rightarrow> u32" where
  "word32 bs = of_nat (le_val bs)"

definition bytes64 :: "u64 \<Rightarrow> byte list" where
  "bytes64 w = le_bytes 8 (unat w)"

definition word64 :: "byte list \<Rightarrow> u64" where
  "word64 bs = of_nat (le_val bs)"

definition bytes16 :: "u16 \<Rightarrow> byte list" where
  "bytes16 w = le_bytes 2 (unat w)"

definition word16 :: "byte list \<Rightarrow> u16" where
  "word16 bs = of_nat (le_val bs)"

lemma length_bytes [simp]:
  "length (bytes16 v) = 2" "length (bytes32 w) = 4" "length (bytes64 x) = 8"
  by (simp_all add: bytes16_def bytes32_def bytes64_def)

lemma word16_bytes16 [codec_simps]: "word16 (bytes16 w) = w"
proof -
  have "unat w < 256 ^ 2" using unsigned_less [of w] by simp
  then show ?thesis by (simp add: word16_def bytes16_def le_val_le_bytes)
qed

lemma word32_bytes32 [codec_simps]: "word32 (bytes32 w) = w"
proof -
  have "unat w < 256 ^ 4" using unsigned_less [of w] by simp
  then show ?thesis by (simp add: word32_def bytes32_def le_val_le_bytes)
qed

lemma word64_bytes64 [codec_simps]: "word64 (bytes64 w) = w"
proof -
  have "unat w < 256 ^ 8" using unsigned_less [of w] by simp
  then show ?thesis by (simp add: word64_def bytes64_def le_val_le_bytes)
qed

lemma bytes32_word32 [codec_simps]:
  assumes "length bs = 4"
  shows "bytes32 (word32 bs) = bs"
proof -
  have "le_val bs < 256 ^ 4" using le_val_bound [of bs] assms by simp
  then have "unat (of_nat (le_val bs) :: u32) = le_val bs"
    by (simp add: unat_of_nat)
  moreover have "le_bytes 4 (le_val bs) = bs"
    using le_bytes_le_val [of bs] by (simp only: assms)
  ultimately show ?thesis by (simp only: bytes32_def word32_def)
qed

text \<open>
  The signed types: a C++ \<^verbatim>\<open>int\<close> or \<^verbatim>\<open>time_t\<close> is an \<open>int\<close> in range, stored in
  two's complement.
\<close>

definition is_int32 :: "int \<Rightarrow> bool" where
  "is_int32 i \<longleftrightarrow> - (2 ^ 31) \<le> i \<and> i < 2 ^ 31"

definition is_int64 :: "int \<Rightarrow> bool" where
  "is_int64 i \<longleftrightarrow> - (2 ^ 63) \<le> i \<and> i < 2 ^ 63"

definition bytes_int :: "int \<Rightarrow> byte list" where
  "bytes_int i = bytes32 (word_of_int i)"

definition int_of_bytes :: "byte list \<Rightarrow> int" where
  "int_of_bytes bs = sint (word32 bs)"

definition bytes_time :: "int \<Rightarrow> byte list" where
  "bytes_time t = bytes64 (word_of_int t)"

definition time_of_bytes :: "byte list \<Rightarrow> int" where
  "time_of_bytes bs = sint (word64 bs)"

lemma length_bytes_signed [simp]: "length (bytes_int i) = 4" "length (bytes_time t) = 8"
  by (simp_all add: bytes_int_def bytes_time_def)

lemma bytes_nonempty [simp]:
  "bytes32 w \<noteq> []" "bytes64 x \<noteq> []" "bytes_int i \<noteq> []" "bytes_time t \<noteq> []"
  using length_bytes(2) [of w] length_bytes(3) [of x] length_bytes_signed(1) [of i]
    length_bytes_signed(2) [of t]
  by (metis list.size(3) zero_neq_numeral)+

lemma int_of_bytes_int [codec_simps]: "is_int32 i \<Longrightarrow> int_of_bytes (bytes_int i) = i"
  by (simp add: int_of_bytes_def bytes_int_def word32_bytes32 is_int32_def
      signed_of_int signed_take_bit_int_eq_self)

lemma time_of_bytes_time [codec_simps]: "is_int64 t \<Longrightarrow> time_of_bytes (bytes_time t) = t"
  by (simp add: time_of_bytes_def bytes_time_def word64_bytes64 is_int64_def
      signed_of_int signed_take_bit_int_eq_self)

lemma unat_of_nat32 [codec_simps]: "n < 2 ^ 32 \<Longrightarrow> unat (of_nat n :: u32) = n"
  by (simp add: unat_of_nat)


section \<open>Bits of words\<close>

lemma unat_drop_bit: "unat (drop_bit k w) = unat w div 2 ^ k"
  by (simp only: unsigned_drop_bit_eq take_bit_nat_eq_self [OF unsigned_less]) (simp add: drop_bit_eq_div)

lemma unat_take_bit: "unat (take_bit k w) = unat w mod 2 ^ k"
  by (simp only: unsigned_take_bit_eq) (simp add: take_bit_eq_mod)

lemma unat_ucast_mod: "unat (ucast w :: 'b::len word) = unat w mod 2 ^ LENGTH('b)"
  by (simp only: unsigned_ucast_eq) (simp add: take_bit_eq_mod)

lemma unat_pow2: "k < LENGTH('a) \<Longrightarrow> unat ((2 :: 'a::len word) ^ k) = 2 ^ k"
  by (metis of_nat_numeral of_nat_power power_strict_increasing_iff one_less_numeral_iff semiring_norm(76)
      take_bit_nat_eq_self unsigned_of_nat)

lemma word_less_pow2_iff:
  "k < LENGTH('a) \<Longrightarrow> (w :: 'a::len word) < 2 ^ k \<longleftrightarrow> unat w < 2 ^ k"
  by (simp add: word_less_nat_alt unat_pow2)

lemma word_pow2_le_iff:
  "k < LENGTH('a) \<Longrightarrow> 2 ^ k \<le> (w :: 'a::len word) \<longleftrightarrow> 2 ^ k \<le> unat w"
  by (simp add: word_le_nat_alt unat_pow2)

lemma or_low_high:
  fixes a b :: "'a::len word"
  assumes "unat a < 2 ^ k"
  shows "a OR push_bit k b = a + push_bit k b"
proof (rule disjunctive_add [symmetric])
  fix n
  have "take_bit k a = a" using assms by (simp add: word_unat_eq_iff unat_take_bit)
  then have "bit a n \<longrightarrow> n < k" using bit_take_bit_iff [of k a n] by auto
  then show "\<not> bit a n \<or> \<not> bit (push_bit k b) n" by (auto simp: bit_push_bit_iff)
qed

end
