(* ===== verification/Packet.thy ===== *)
theory Packet
  imports Memorystream
begin

text \<open>
  \<^verbatim>\<open>src/libs/server/include/packet.h\<close> and \<^verbatim>\<open>src/libs/server/src/packet.cpp\<close>: the
  application packet, a memory stream with a read cursor and a 24-byte header
  (id, version, time stamp, body length, extra).  The record \<open>packet\<close> extends
  \<open>memorystream\<close>; each constructor, accessor and cursor read is one definition.

  Shown here: the layout a constructed packet has, that every header field
  reads back, that a packet survives its transport as raw bytes, what
  \<^verbatim>\<open>body()\<close> reads, and that a sequence of typed values reads back in order.
\<close>

section \<open>Constants and constructors\<close>

definition PACKET_ID_OFFSET :: nat where
  "PACKET_ID_OFFSET = 0"

definition PACKET_VERSION_OFFSET :: nat where
  "PACKET_VERSION_OFFSET = 4"

definition PACKET_TIMESTAMP_OFFSET :: nat where
  "PACKET_TIMESTAMP_OFFSET = 8"

definition PACKET_BODY_LENGTH_OFFSET :: nat where
  "PACKET_BODY_LENGTH_OFFSET = 16"

definition PACKET_EXTRA_OFFSET :: nat where
  "PACKET_EXTRA_OFFSET = 20"

definition PACKET_BODY_OFFSET :: nat where
  "PACKET_BODY_OFFSET = 24"

definition PACKET_HEAD_LENGTH :: nat where
  "PACKET_HEAD_LENGTH = 24"

definition PACKET_VERSION :: int where
  "PACKET_VERSION = 1"

lemmas packet_offsets = PACKET_ID_OFFSET_def PACKET_VERSION_OFFSET_def
  PACKET_TIMESTAMP_OFFSET_def PACKET_BODY_LENGTH_OFFSET_def PACKET_EXTRA_OFFSET_def
  PACKET_BODY_OFFSET_def PACKET_HEAD_LENGTH_def

record packet = memorystream +
  m_index :: nat

definition packet_of_base :: "memorystream \<Rightarrow> nat \<Rightarrow> packet" where
  "packet_of_base ms i = \<lparr>m_data = m_data ms, m_length = m_length ms, m_index = i\<rparr>"

definition packet_default :: "packet res" where
  "packet_default =
     res_bind (memorystream_sized PACKET_HEAD_LENGTH) (\<lambda>ms. Inr (packet_of_base ms 0))"

definition packet_sized :: "nat \<Rightarrow> packet res" where
  "packet_sized sz = res_bind (memorystream_sized sz) (\<lambda>ms. Inr (packet_of_base ms 0))"

text \<open>
  \<^verbatim>\<open>packet(std::string&)\<close> does not initialise \<^verbatim>\<open>m_index\<close>: its value is whatever
  the storage held, the argument \<open>junk\<close>.
\<close>

definition packet_of_string :: "nat \<Rightarrow> byte list \<Rightarrow> packet res" where
  "packet_of_string junk data =
     res_bind memorystream_default
       (\<lambda>ms. ms_append_string (ms_clear (packet_of_base ms junk)) data)"

definition packet_of_bytes :: "byte list option \<Rightarrow> nat \<Rightarrow> packet res" where
  "packet_of_bytes data len =
     res_bind (memorystream_sized len)
       (\<lambda>ms. ms_append_chars (ms_clear (packet_of_base ms 0)) data len)"

text \<open>\<^verbatim>\<open>packet(int id, const char* body, size_t bodylength, int extra)\<close>; \<open>t\<close> is
  the current time.\<close>

definition packet_make ::
    "int \<Rightarrow> int \<Rightarrow> byte list option \<Rightarrow> nat \<Rightarrow> int \<Rightarrow> packet res" where
  "packet_make t pid body bodylen extra =
     res_bind (memorystream_sized (sz_add PACKET_HEAD_LENGTH bodylen)) (\<lambda>ms.
     let p0 = ms_clear (packet_of_base ms 0) in
     res_bind (ms_append_value p0 (bytes_int pid)) (\<lambda>p1.
     res_bind (ms_append_value p1 (bytes_int PACKET_VERSION)) (\<lambda>p2.
     res_bind (ms_append_value p2 (bytes_time t)) (\<lambda>p3.
     res_bind (ms_append_value p3 (bytes32 (of_nat bodylen))) (\<lambda>p4.
     res_bind (ms_append_value p4 (bytes_int extra)) (\<lambda>p5.
     ms_append_chars p5 body bodylen))))))"

definition packet_destroy :: "packet \<Rightarrow> packet" where
  "packet_destroy p = (ms_clear p)\<lparr>m_index := 0\<rparr>"

section \<open>Accessors\<close>

definition is_valid :: "packet \<Rightarrow> bool" where
  "is_valid p \<longleftrightarrow> PACKET_HEAD_LENGTH \<le> ms_length p"

definition packet_id :: "packet \<Rightarrow> int res" where
  "packet_id p =
     (if ms_length p \<le> PACKET_ID_OFFSET then Inr 0
      else res_bind (ms_read_value p 4 PACKET_ID_OFFSET) (\<lambda>bs. Inr (int_of_bytes bs)))"

definition bodylength :: "packet \<Rightarrow> nat res" where
  "bodylength p =
     (if ms_length p \<le> PACKET_BODY_LENGTH_OFFSET then Inr 0
      else res_bind (ms_read_value p 4 PACKET_BODY_LENGTH_OFFSET)
             (\<lambda>bs. Inr (unat (word32 bs))))"

definition packet_time :: "packet \<Rightarrow> int res" where
  "packet_time p =
     (if ms_length p \<le> PACKET_TIMESTAMP_OFFSET then Inr 0
      else res_bind (ms_read_value p 8 PACKET_TIMESTAMP_OFFSET) (\<lambda>bs. Inr (time_of_bytes bs)))"

definition packet_version :: "packet \<Rightarrow> int res" where
  "packet_version p =
     (if ms_length p \<le> PACKET_VERSION_OFFSET then Inr 0
      else res_bind (ms_read_value p 4 PACKET_VERSION_OFFSET) (\<lambda>bs. Inr (int_of_bytes bs)))"

definition packet_extra :: "packet \<Rightarrow> int res" where
  "packet_extra p =
     (if ms_length p \<le> PACKET_EXTRA_OFFSET then Inr 0
      else res_bind (ms_read_value p 4 PACKET_EXTRA_OFFSET) (\<lambda>bs. Inr (int_of_bytes bs)))"

text \<open>\<^verbatim>\<open>size_t body(std::string& data)\<close>: the returned length and the string.\<close>

definition packet_body :: "packet \<Rightarrow> byte list \<Rightarrow> (nat \<times> byte list) res" where
  "packet_body p data =
     (if ms_length p \<le> PACKET_BODY_OFFSET then Inr (0, data)
      else res_bind (bodylength p) (\<lambda>len.
        if ms_length p < len then Inr (0, data)
        else res_bind (ms_read_string p data PACKET_BODY_OFFSET len) (\<lambda>(r, data').
          if r \<noteq> 0 then Inr (0, []) else Inr (len, data'))))"

section \<open>Cursor reads\<close>

definition packet_read_value :: "packet \<Rightarrow> nat \<Rightarrow> (byte list \<times> packet) res" where
  "packet_read_value p width =
     res_bind (ms_read_value p width (m_index p))
       (\<lambda>t. Inr (t, p\<lparr>m_index := sz_add (m_index p) width\<rparr>))"

definition packet_read_chars ::
    "packet \<Rightarrow> byte list \<Rightarrow> nat \<Rightarrow> (nat \<times> byte list \<times> packet) res" where
  "packet_read_chars p dest len =
     res_bind (ms_read_chars p dest (m_index p) len) (\<lambda>(r, dest').
       Inr (r, dest',
         if r = 0 then p\<lparr>m_index := sz_add (m_index p) len\<rparr> else p))"

definition packet_read_string ::
    "packet \<Rightarrow> byte list \<Rightarrow> nat \<Rightarrow> (nat \<times> byte list \<times> packet) res" where
  "packet_read_string p dest len =
     res_bind (ms_read_string p dest (m_index p) len) (\<lambda>(r, dest').
       if r = 0 then Inr (r, dest', p\<lparr>m_index := sz_add (m_index p) (sz_add len 1)\<rparr>)
       else Inr (r, [], p))"

section \<open>Appending several values\<close>

fun append_all :: "'a memorystream_scheme \<Rightarrow> byte list list \<Rightarrow> 'a memorystream_scheme res" where
  "append_all ms [] = Inr ms"
| "append_all ms (r # rs) = res_bind (ms_append_value ms r) (\<lambda>ms'. append_all ms' rs)"

text \<open>No slack: the storage holds exactly the bytes written.\<close>

definition ms_tight :: "'a memorystream_scheme \<Rightarrow> bool" where
  "ms_tight ms \<longleftrightarrow> vector_size (m_data ms) = m_length ms"

lemma ms_append_raw_tight:
  assumes "ms_append_raw ms (Some src) sz = Inr ms'" and "ms_inv ms" and "ms_tight ms" and "0 < sz"
  shows "ms_tight ms'"
proof -
  have len: "m_length ms' = m_length ms + sz" and "ms_inv ms'"
    using ms_append_raw_Inr [OF assms(1,2)] by simp_all
  then have small: "m_length ms + sz < SIZE_MOD"
    using ms_inv_length_max [of ms'] vector_max_small by simp
  then show ?thesis
    using assms len
    by (auto simp: ms_append_raw_def ms_tight_def sz_add_small res_bind_Inr_iff Let_def
        dest!: vector_write_Inr vector_resize_size split: if_splits)
qed

text \<open>What a run of appends leaves behind.\<close>

definition appended :: "'a memorystream_scheme \<Rightarrow> byte list \<Rightarrow> 'a memorystream_scheme \<Rightarrow> bool" where
  "appended ms bs ms' \<longleftrightarrow>
     ms_inv ms' \<and> ms_bytes ms' = ms_bytes ms @ bs \<and> m_length ms' = m_length ms + length bs \<and>
     (ms_tight ms \<longrightarrow> ms_tight ms') \<and>
     vcap (m_data ms') = max (vcap (m_data ms)) (m_length ms') \<and>
     memorystream.more ms' = memorystream.more ms"

lemma appended_trans:
  assumes "appended ms as ms1" and "appended ms1 bs ms2"
  shows "appended ms (as @ bs) ms2"
  using assms by (auto simp: appended_def)

lemma ms_append_raw_appended:
  assumes "ms_inv ms" and "0 < sz" and "sz \<le> length src"
    and "m_length ms + sz \<le> vector_max_size"
  shows "\<exists>ms'. ms_append_raw ms (Some src) sz = Inr ms' \<and> appended ms (take sz src) ms'"
proof -
  obtain ms' where app: "ms_append_raw ms (Some src) sz = Inr ms'"
    and "vcap (m_data ms') = max (vcap (m_data ms)) (m_length ms + sz)"
    and "memorystream.more ms' = memorystream.more ms"
    by (rule ms_append_raw_ok [OF assms])
  moreover have "ms_tight ms \<longrightarrow> ms_tight ms'"
    using ms_append_raw_tight [OF app assms(1)] assms(2) by blast
  ultimately show ?thesis
    using ms_append_raw_Inr [OF app assms(1)] assms(3) by (simp add: appended_def)
qed

lemma append_all_appended:
  assumes "ms_inv ms" and "\<forall>r \<in> set rs. r \<noteq> []"
    and "m_length ms + length (concat rs) \<le> vector_max_size"
  shows "\<exists>ms'. append_all ms rs = Inr ms' \<and> appended ms (concat rs) ms'"
  using assms
proof (induction rs arbitrary: ms)
  case Nil
  then show ?case by (simp add: appended_def ms_inv_def)
next
  case (Cons r rs)
  obtain ms1 where app: "ms_append_value ms r = Inr ms1" and eff: "appended ms r ms1"
    using ms_append_raw_appended [of ms "length r" r] Cons.prems
    by (auto simp: ms_append_value_def)
  have "\<exists>ms'. append_all ms1 rs = Inr ms' \<and> appended ms1 (concat rs) ms'"
    using Cons.prems eff by (intro Cons.IH) (auto simp: appended_def)
  then show ?case using app appended_trans [OF eff] by auto
qed

section \<open>The layout of a constructed packet\<close>

definition packet_header :: "int \<Rightarrow> int \<Rightarrow> nat \<Rightarrow> int \<Rightarrow> byte list" where
  "packet_header t pid n extra =
     bytes_int pid @ bytes_int PACKET_VERSION @ bytes_time t @ bytes32 (of_nat n) @ bytes_int extra"

text \<open>A packet whose storage is exactly the given bytes.\<close>

definition packet_holds :: "packet \<Rightarrow> byte list \<Rightarrow> bool" where
  "packet_holds p bs \<longleftrightarrow> ms_inv p \<and> ms_tight p \<and> ms_bytes p = bs"

lemma length_packet_header [simp]: "length (packet_header t pid n extra) = 24"
  by (simp add: packet_header_def)

lemma packet_header_nonempty [simp]: "packet_header t pid n extra \<noteq> []"
  by (simp add: packet_header_def)

lemma packet_holds_length: "packet_holds p bs \<Longrightarrow> m_length p = length bs"
  by (auto simp: packet_holds_def length_ms_bytes)

lemma packet_holds_vdata: "packet_holds p bs \<Longrightarrow> vdata (m_data p) = bs"
  by (auto simp: packet_holds_def ms_tight_def ms_bytes_def vector_size_def)

lemma packet_base_fresh:
  assumes "memorystream_sized sz = Inr ms" and "0 < sz"
  shows "ms_inv (ms_clear (packet_of_base ms i)) \<and> ms_tight (ms_clear (packet_of_base ms i)) \<and>
    m_length (ms_clear (packet_of_base ms i)) = 0 \<and>
    vcap (m_data (ms_clear (packet_of_base ms i))) = sz \<and>
    m_index (ms_clear (packet_of_base ms i)) = i"
  using assms
  by (auto simp: memorystream_sized_def vector_defs ms_clear_def packet_of_base_def ms_inv_def
      ms_tight_def split: if_splits)

lemma m_index_more:
  fixes p q :: packet
  shows "memorystream.more p = memorystream.more q \<Longrightarrow> m_index p = m_index q"
  by (cases p; cases q) simp

lemma packet_index_frame [simp]:
  fixes p :: packet
  shows "ms_bytes (p\<lparr>m_index := i\<rparr>) = ms_bytes p" "ms_inv (p\<lparr>m_index := i\<rparr>) = ms_inv p"
  by (simp_all add: ms_bytes_def ms_inv_def)

lemma packet_make_append:
  "packet_make t pid body n extra =
     res_bind (memorystream_sized (sz_add PACKET_HEAD_LENGTH n)) (\<lambda>ms.
     res_bind (append_all (ms_clear (packet_of_base ms 0))
         [bytes_int pid, bytes_int PACKET_VERSION, bytes_time t, bytes32 (of_nat n), bytes_int extra])
       (\<lambda>p. ms_append_chars p body n))"
  by (simp add: packet_make_def Let_def res_bind_assoc)

text \<open>The header part of the construction always succeeds.\<close>

lemma packet_make_head:
  assumes fits: "24 + n \<le> vector_max_size"
  shows "\<exists>p. (\<forall>body. packet_make t pid body n extra = ms_append_chars p body n) \<and>
    packet_holds p (packet_header t pid n extra) \<and> m_index p = 0 \<and> vcap (m_data p) = 24 + n"
proof -
  let ?hdr = "[bytes_int pid, bytes_int PACKET_VERSION, bytes_time t, bytes32 (of_nat n), bytes_int extra]"
  have need: "sz_add PACKET_HEAD_LENGTH n = 24 + n"
    using fits vector_max_small by (simp add: sz_add_small PACKET_HEAD_LENGTH_def)
  obtain ms where ms: "memorystream_sized (24 + n) = Inr ms"
    using fits memorystream_sized_ok by blast
  let ?p0 = "ms_clear (packet_of_base ms 0)"
  have p0: "ms_inv ?p0" "ms_tight ?p0" "m_length ?p0 = 0" "vcap (m_data ?p0) = 24 + n"
    "m_index ?p0 = 0"
    using packet_base_fresh [OF ms] by simp_all
  have hdr: "concat ?hdr = packet_header t pid n extra"
    by (simp add: packet_header_def)
  have "\<forall>r \<in> set ?hdr. r \<noteq> []" by simp
  moreover have "m_length ?p0 + length (concat ?hdr) \<le> vector_max_size"
    using p0(3) fits by (simp only: hdr) simp
  ultimately obtain p where p: "append_all ?p0 ?hdr = Inr p"
    and eff: "appended ?p0 (packet_header t pid n extra) p"
    using append_all_appended [OF p0(1), of ?hdr] by (auto simp only: hdr)
  have "m_index p = m_index ?p0"
    using eff by (intro m_index_more) (simp add: appended_def)
  with eff p0 have "packet_holds p (packet_header t pid n extra)"
    "m_index p = 0" "vcap (m_data p) = 24 + n"
    by (auto simp: appended_def packet_holds_def)
  moreover have "packet_make t pid body n extra = ms_append_chars p body n" for body
    by (simp only: packet_make_append need ms res_bind_simps p)
  ultimately show ?thesis by blast
qed

lemma packet_make_ok:
  assumes n: "0 < n" "n \<le> length body" and fits: "24 + n \<le> vector_max_size"
  shows "\<exists>p. packet_make t pid (Some body) n extra = Inr p \<and>
    packet_holds p (packet_header t pid n extra @ take n body) \<and>
    m_index p = 0 \<and> vcap (m_data p) = 24 + n"
proof -
  obtain p1 where make: "packet_make t pid (Some body) n extra = ms_append_chars p1 (Some body) n"
    and p1: "packet_holds p1 (packet_header t pid n extra)" "m_index p1 = 0" "vcap (m_data p1) = 24 + n"
    using packet_make_head [OF fits] by blast
  obtain p where p: "ms_append_raw p1 (Some body) n = Inr p" and eff: "appended p1 (take n body) p"
    using ms_append_raw_appended [of p1 n body] p1 n fits packet_holds_length [OF p1(1)]
    by (auto simp: packet_holds_def)
  have "m_index p = m_index p1"
    using eff by (intro m_index_more) (simp add: appended_def)
  with eff p1 n show ?thesis
    using make p packet_holds_length [OF p1(1)]
    by (auto simp: appended_def packet_holds_def ms_append_chars_def)
qed

lemma packet_of_bytes_ok:
  assumes n: "0 < n" "n \<le> length data" and fits: "n \<le> vector_max_size"
  shows "\<exists>p. packet_of_bytes (Some data) n = Inr p \<and> packet_holds p (take n data) \<and>
    m_index p = 0 \<and> vcap (m_data p) = n"
proof -
  obtain ms where ms: "memorystream_sized n = Inr ms"
    using fits memorystream_sized_ok by blast
  let ?p0 = "ms_clear (packet_of_base ms 0)"
  have p0: "ms_inv ?p0" "ms_tight ?p0" "m_length ?p0 = 0" "vcap (m_data ?p0) = n" "m_index ?p0 = 0"
    using packet_base_fresh [OF ms] n by simp_all
  obtain p where p: "ms_append_raw ?p0 (Some data) n = Inr p" and eff: "appended ?p0 (take n data) p"
    using ms_append_raw_appended [OF p0(1), of n data] n fits p0(3) by auto
  have "m_index p = m_index ?p0"
    using eff by (intro m_index_more) (simp add: appended_def)
  with eff p0 n have "packet_holds p (take n data)" "m_index p = 0" "vcap (m_data p) = n"
    by (auto simp: appended_def packet_holds_def)
  moreover have "packet_of_bytes (Some data) n = Inr p"
    by (simp add: packet_of_bytes_def ms ms_append_chars_def p)
  ultimately show ?thesis by blast
qed

section \<open>Reads inside the written bytes\<close>

lemma ms_read_value_at:
  assumes "ms_inv ms" and "offset + width \<le> m_length ms" and "0 < width"
  shows "ms_read_value ms width offset = Inr (subrange (ms_bytes ms) offset width)"
proof -
  have "m_length ms < SIZE_MOD"
    using ms_inv_length_max [OF assms(1)] vector_max_small by simp
  then have "sz_sub (m_length ms) offset = m_length ms - offset"
    using assms(2) by (intro sz_sub_le) simp_all
  then show ?thesis
    using assms by (simp add: ms_read_value_def vector_read_def ms_inv_def ms_bytes_def subrange_take)
qed

text \<open>The assertion of \<^verbatim>\<open>read<T>\<close> does not stop an offset past the end: the unsigned
  difference wraps to a huge value.\<close>

lemma ms_read_value_past_end:
  assumes "ms_inv ms" and "m_length ms < offset" and "offset \<le> 2 ^ 63" and "width \<le> 2 ^ 62"
  shows "ms_read_value ms width offset = vector_read (m_data ms) offset width"
proof -
  have "offset \<le> SIZE_MOD" using assms(3) SIZE_MOD_gt by simp
  then have "sz_sub (m_length ms) offset = SIZE_MOD - (offset - m_length ms)"
    using assms(2) by (intro sz_sub_wrap)
  moreover have "2 ^ 62 \<le> SIZE_MOD - (offset - m_length ms)"
    using assms(3) by (simp add: SIZE_MOD_def)
  ultimately show ?thesis using assms(4) by (simp add: ms_read_value_def)
qed

lemma packet_holds_read:
  assumes "packet_holds p (pre @ r @ post)" and "length pre = offset" and "length r = width" and "0 < width"
  shows "ms_read_value p width offset = Inr r"
  using assms packet_holds_length [OF assms(1)]
  by (simp add: ms_read_value_at packet_holds_def subrange_mid)

lemma packet_header_reads:
  assumes "packet_holds p (packet_header t pid n extra @ body)"
  shows "ms_read_value p 4 0 = Inr (bytes_int pid)"
    and "ms_read_value p 4 4 = Inr (bytes_int PACKET_VERSION)"
    and "ms_read_value p 8 8 = Inr (bytes_time t)"
    and "ms_read_value p 4 16 = Inr (bytes32 (of_nat n))"
    and "ms_read_value p 4 20 = Inr (bytes_int extra)"
proof -
  note hold = assms [unfolded packet_header_def append_assoc]
  show "ms_read_value p 4 0 = Inr (bytes_int pid)"
    by (rule packet_holds_read [of _ "[]" "bytes_int pid"]) (use hold in simp_all)
  show "ms_read_value p 4 4 = Inr (bytes_int PACKET_VERSION)"
    by (rule packet_holds_read [of _ "bytes_int pid"]) (use hold in simp_all)
  show "ms_read_value p 8 8 = Inr (bytes_time t)"
    by (rule packet_holds_read [of _ "bytes_int pid @ bytes_int PACKET_VERSION"])
      (use hold in simp_all)
  show "ms_read_value p 4 16 = Inr (bytes32 (of_nat n))"
    by (rule packet_holds_read [of _ "bytes_int pid @ bytes_int PACKET_VERSION @ bytes_time t"])
      (use hold in simp_all)
  show "ms_read_value p 4 20 = Inr (bytes_int extra)"
    by (rule packet_holds_read
        [of _ "bytes_int pid @ bytes_int PACKET_VERSION @ bytes_time t @ bytes32 (of_nat n)"])
      (use hold in simp_all)
qed

lemmas packet_accessor_defs = packet_id_def packet_version_def packet_time_def
  bodylength_def packet_extra_def is_valid_def ms_length_def

lemma packet_header_fields:
  assumes "packet_holds p (packet_header t pid n extra @ body)"
    and "is_int32 pid" and "is_int64 t" and "n < 2 ^ 32" and "is_int32 extra"
  shows "is_valid p \<and> packet_id p = Inr pid \<and> packet_version p = Inr PACKET_VERSION \<and>
    packet_time p = Inr t \<and> bodylength p = Inr n \<and> packet_extra p = Inr extra"
proof -
  have "m_length p = 24 + length body" using packet_holds_length [OF assms(1)] by simp
  moreover have "is_int32 PACKET_VERSION" by (simp add: is_int32_def PACKET_VERSION_def)
  ultimately show ?thesis
    using assms(2-5) packet_header_reads [OF assms(1)]
    by (simp add: packet_accessor_defs packet_offsets codec_simps del: One_nat_def)
qed

text \<open>Accessors look at the written bytes only.\<close>

lemma packet_holds_same:
  assumes "packet_holds p bs" and "packet_holds q bs"
  shows "is_valid q = is_valid p \<and> packet_id q = packet_id p \<and>
    packet_version q = packet_version p \<and> packet_time q = packet_time p \<and>
    bodylength q = bodylength p \<and> packet_extra q = packet_extra p \<and>
    packet_body q data = packet_body p data"
proof -
  have eq: "vdata (m_data q) = vdata (m_data p)" "m_length q = m_length p"
    using packet_holds_vdata [OF assms(1)] packet_holds_vdata [OF assms(2)]
      packet_holds_length [OF assms(1)] packet_holds_length [OF assms(2)] by simp_all
  have len: "ms_length q = ms_length p" by (simp only: ms_length_def eq)
  have val: "ms_read_value q w off = ms_read_value p w off" for w off
    by (simp only: ms_read_value_def vector_read_def vector_size_def eq)
  have str: "ms_read_string q dest off n = ms_read_string p dest off n" for dest off n
    by (simp only: ms_read_string_def ms_data_def ms_empty_def eq)
  have bl: "bodylength q = bodylength p" by (simp only: bodylength_def val len)
  show ?thesis
    by (simp only: is_valid_def packet_id_def packet_version_def packet_time_def
        packet_extra_def packet_body_def len val str bl)
qed

text \<open>\<^verbatim>\<open>body()\<close> of a packet that ends with its body.\<close>

lemma packet_body_tight:
  assumes "packet_holds p bs" and "24 < length bs" and "bodylength p = Inr (length bs - 24)"
  shows "packet_body p data = Inl OutOfBounds"
proof -
  have len: "m_length p = length bs" and inv: "ms_inv p" and vd: "vdata (m_data p) = bs"
    using packet_holds_length [OF assms(1)] packet_holds_vdata [OF assms(1)] assms(1)
    by (simp_all add: packet_holds_def)
  have small: "length bs < 2 ^ 63"
    using ms_inv_length_max [OF inv] len by (simp add: vector_max_size_def)
  then have "sz_add 24 (length bs - 24) = length bs" "sz_add (length bs - 24) 1 = length bs - 23"
    using assms(2) by (simp_all add: sz_add_def SIZE_MOD_def)
  then show ?thesis
    using assms(2,3) len vd
    by (auto simp: packet_body_def ms_read_string_def ms_data_def ms_empty_def ms_length_def
        packet_offsets)
qed

text \<open>\<^verbatim>\<open>body()\<close> of a packet whose storage goes on behind the body.\<close>

lemma ms_read_string_slack:
  assumes "ms_inv ms" and "vdata (m_data ms) = pre @ str @ c # post"
    and "m_length ms = length pre + length str"
  shows "ms_read_string ms dest (length pre) (length str) = Inr (0, str @ [c])"
proof -
  have "length pre + length str < 2 ^ 63"
    using ms_inv_length_max [OF assms(1)] assms(3) by (simp add: vector_max_size_def)
  then have "sz_add (length pre) (length str) = length pre + length str"
    "sz_add (length str) 1 = Suc (length str)"
    by (simp_all add: sz_add_def SIZE_MOD_def)
  then show ?thesis
    using assms by (simp add: ms_read_string_def ms_data_def ms_empty_def subrange_def)
qed

section \<open>Sequences of typed values\<close>

text \<open>
  What \<^verbatim>\<open>src/test/test-server/src/main.cpp\<close> exercises: scalars, character
  buffers and strings appended one after another and read back with the
  cursor.  A string is stored with its terminating \<^verbatim>\<open>'\0'\<close>.
\<close>

datatype pack_item =
    Scalar "byte list"
  | Chars "byte list"
  | Text "byte list"

fun pack_bytes :: "pack_item \<Rightarrow> byte list" where
  "pack_bytes (Scalar r) = r"
| "pack_bytes (Chars c) = c"
| "pack_bytes (Text str) = str @ [0]"

fun append_item :: "packet \<Rightarrow> pack_item \<Rightarrow> packet res" where
  "append_item p (Scalar r) = ms_append_value p r"
| "append_item p (Chars c) = ms_append_chars p (Some c) (length c)"
| "append_item p (Text str) = ms_append_string p str"

fun read_item :: "packet \<Rightarrow> pack_item \<Rightarrow> (nat \<times> byte list \<times> packet) res" where
  "read_item p (Scalar r) = res_bind (packet_read_value p (length r)) (\<lambda>(t, p'). Inr (0, t, p'))"
| "read_item p (Chars c) = packet_read_chars p (replicate (length c) 0) (length c)"
| "read_item p (Text str) = packet_read_string p [] (length str)"

fun append_items :: "packet \<Rightarrow> pack_item list \<Rightarrow> packet res" where
  "append_items p [] = Inr p"
| "append_items p (x # xs) = res_bind (append_item p x) (\<lambda>p'. append_items p' xs)"

fun read_items :: "packet \<Rightarrow> pack_item list \<Rightarrow> ((nat \<times> byte list) list \<times> packet) res" where
  "read_items p [] = Inr ([], p)"
| "read_items p (x # xs) =
     res_bind (read_item p x) (\<lambda>(r, bs, p').
     res_bind (read_items p' xs) (\<lambda>(rest, q). Inr ((r, bs) # rest, q)))"

lemma append_item_appended:
  assumes "ms_inv p" and "pack_bytes x \<noteq> []"
    and "m_length p + length (pack_bytes x) \<le> vector_max_size"
  shows "\<exists>p'. append_item p x = Inr p' \<and> appended p (pack_bytes x) p'"
proof -
  have "append_item p x = ms_append_raw p (Some (pack_bytes x)) (length (pack_bytes x))"
  proof (cases x)
    case (Text str)
    then have "sz_add (length str) 1 = Suc (length str)"
      using assms(3) by (simp add: sz_add_def SIZE_MOD_def vector_max_size_def)
    with Text show ?thesis by (simp add: ms_append_string_def)
  qed (simp_all add: ms_append_value_def ms_append_chars_def)
  then show ?thesis
    using ms_append_raw_appended [OF assms(1), of "length (pack_bytes x)" "pack_bytes x"] assms(2,3)
    by simp
qed

lemma append_items_appended:
  assumes "ms_inv p" and "\<forall>x \<in> set xs. pack_bytes x \<noteq> []"
    and "m_length p + length (concat (map pack_bytes xs)) \<le> vector_max_size"
  shows "\<exists>p'. append_items p xs = Inr p' \<and> appended p (concat (map pack_bytes xs)) p'"
  using assms
proof (induction xs arbitrary: p)
  case Nil
  then show ?case by (simp add: appended_def ms_inv_def)
next
  case (Cons x xs)
  obtain p1 where app: "append_item p x = Inr p1" and eff: "appended p (pack_bytes x) p1"
    using append_item_appended [of p x] Cons.prems by auto
  have "\<exists>p'. append_items p1 xs = Inr p' \<and> appended p1 (concat (map pack_bytes xs)) p'"
    using Cons.prems eff by (intro Cons.IH) (auto simp: appended_def)
  then show ?case using app appended_trans [OF eff] by auto
qed

lemma vector_read_written:
  assumes "ms_inv ms" and "ms_bytes ms = pre @ r @ post" and "r \<noteq> []"
  shows "vector_read (m_data ms) (length pre) (length r) = Inr r"
proof -
  have len: "m_length ms = length pre + length r + length post"
    using length_ms_bytes [OF assms(1)] assms(2) by simp
  have "subrange (vdata (m_data ms)) (length pre) (length r) =
    subrange (ms_bytes ms) (length pre) (length r)"
    by (simp add: ms_bytes_def subrange_take len)
  also have "\<dots> = r" by (simp add: assms(2) subrange_mid)
  finally show ?thesis
    using assms(1) len length_greater_0_conv [THEN iffD2, OF assms(3)]
    by (simp add: vector_read_def ms_inv_def del: length_greater_0_conv)
qed

lemma read_item_written:
  assumes inv: "ms_inv p" and bytes: "ms_bytes p = pre @ pack_bytes x @ post"
    and ne: "pack_bytes x \<noteq> []" and idx: "m_index p = length pre"
  shows "read_item p x =
    Inr (0, pack_bytes x, p\<lparr>m_index := length pre + length (pack_bytes x)\<rparr>)"
proof -
  have len: "m_length p = length pre + length (pack_bytes x) + length post"
    using length_ms_bytes [OF inv] bytes by simp
  then have small: "length pre + length (pack_bytes x) < 2 ^ 63"
    using ms_inv_length_max [OF inv] by (simp add: vector_max_size_def)
  note rd = vector_read_written [OF inv bytes ne]
  show ?thesis
  proof (cases x)
    case (Scalar r)
    have "sz_sub (m_length p) (length pre) = m_length p - length pre"
      using len ms_inv_length_max [OF inv] vector_max_small by (intro sz_sub_le) simp_all
    then show ?thesis
      using Scalar rd idx len small
      by (simp add: packet_read_value_def ms_read_value_def sz_add_def SIZE_MOD_def)
  next
    case (Chars c)
    then show ?thesis
      using rd idx len small ne
      by (simp add: packet_read_chars_def ms_read_chars_def sz_add_def SIZE_MOD_def blit_def)
  next
    case (Text str)
    have d: "ms_data p = Inr (vdata (m_data p))" "m_length p \<le> length (vdata (m_data p))"
      using inv len Text by (auto simp: ms_data_def ms_empty_def ms_inv_def vector_size_def)
    then show ?thesis
      using Text rd idx len small
      by (simp add: packet_read_string_def ms_read_string_def sz_add_def SIZE_MOD_def
          vector_read_def split: if_splits)
  qed
qed

lemma read_items_written:
  assumes "ms_inv p" and "ms_bytes p = pre @ concat (map pack_bytes xs)"
    and "\<forall>x \<in> set xs. pack_bytes x \<noteq> []" and "m_index p = length pre"
  shows "read_items p xs =
    Inr (map (\<lambda>x. (0, pack_bytes x)) xs, p\<lparr>m_index := length (ms_bytes p)\<rparr>)"
  using assms
proof (induction xs arbitrary: p pre)
  case Nil
  then show ?case by simp
next
  case (Cons x xs)
  let ?q = "p\<lparr>m_index := length pre + length (pack_bytes x)\<rparr>"
  have rd: "read_item p x = Inr (0, pack_bytes x, ?q)"
    using Cons.prems by (intro read_item_written [of _ _ _ "concat (map pack_bytes xs)"]) simp_all
  have q: "ms_inv ?q" "ms_bytes ?q = ms_bytes p"
    using Cons.prems(1) by (simp_all add: ms_inv_def ms_bytes_def)
  have "read_items ?q xs =
    Inr (map (\<lambda>x. (0, pack_bytes x)) xs, ?q\<lparr>m_index := length (ms_bytes ?q)\<rparr>)"
    using Cons.prems q by (intro Cons.IH [of ?q "pre @ pack_bytes x"]) simp_all
  then show ?case using rd q by simp
qed

section \<open>Properties\<close>

text \<open>
  C11: A packet built from a non-empty body holds exactly the 24-byte header
  followed by the body, in storage that was reserved once and never grew, and
  its cursor stands at the start.
\<close>

theorem packet_make_layout:
  assumes "0 < n" and "n \<le> length body" and "24 + n \<le> vector_max_size"
  shows "\<exists>p. packet_make t pid (Some body) n extra = Inr p \<and>
    vdata (m_data p) = packet_header t pid n extra @ take n body \<and>
    m_length p = 24 + n \<and> m_index p = 0 \<and> vcap (m_data p) = 24 + n"
proof -
  obtain p where "packet_make t pid (Some body) n extra = Inr p"
    and hold: "packet_holds p (packet_header t pid n extra @ take n body)"
    and "m_index p = 0" "vcap (m_data p) = 24 + n"
    using packet_make_ok [OF assms] by blast
  then show ?thesis
    using packet_holds_vdata [OF hold] packet_holds_length [OF hold] assms(2) by simp
qed

theorem packet_make_layout_witness:
  "\<exists>p. packet_make 7 1 (Some [10, 20, 30]) 3 5 = Inr p \<and>
    vdata (m_data p) = packet_header 7 1 3 5 @ take 3 [10, 20, 30] \<and>
    m_length p = 24 + 3 \<and> m_index p = 0 \<and> vcap (m_data p) = 24 + 3"
  by (rule packet_make_layout) (simp_all add: vector_max_size_def)

text \<open>
  C12: Every header field of a constructed packet reads back as it was given,
  and the packet is valid.
\<close>

theorem packet_fields_roundtrip:
  assumes "0 < n" and "n \<le> length body" and "n < 2 ^ 32"
    and "is_int32 pid" and "is_int64 t" and "is_int32 extra"
  shows "\<exists>p. packet_make t pid (Some body) n extra = Inr p \<and> is_valid p \<and>
    packet_id p = Inr pid \<and> packet_version p = Inr PACKET_VERSION \<and> packet_time p = Inr t \<and>
    bodylength p = Inr n \<and> packet_extra p = Inr extra"
proof -
  have "24 + n \<le> vector_max_size" using assms(3) by (simp add: vector_max_size_def)
  then obtain p where "packet_make t pid (Some body) n extra = Inr p"
    and hold: "packet_holds p (packet_header t pid n extra @ take n body)"
    using packet_make_ok [OF assms(1,2)] by blast
  then show ?thesis using packet_header_fields [OF hold] assms by blast
qed

theorem packet_fields_roundtrip_witness:
  "\<exists>p. packet_make 1700000000 (-3) (Some [1, 2]) 2 9 = Inr p \<and> is_valid p \<and>
    packet_id p = Inr (-3) \<and> packet_version p = Inr PACKET_VERSION \<and>
    packet_time p = Inr 1700000000 \<and> bodylength p = Inr 2 \<and> packet_extra p = Inr 9"
  by (rule packet_fields_roundtrip) (simp_all add: is_int32_def is_int64_def)

text \<open>
  C13: Transport keeps a packet: sending \<^verbatim>\<open>data()\<close> with \<^verbatim>\<open>length()\<close> and rebuilding
  the packet from those bytes on the other side gives a packet with the same
  bytes and the same answer from every accessor, its cursor at the start.
\<close>

theorem packet_transport:
  assumes "packet_make t pid (Some body) n extra = Inr p"
    and "0 < n" and "n \<le> length body" and "24 + n \<le> vector_max_size"
  shows "\<exists>d q. ms_data p = Inr d \<and> packet_of_bytes (Some d) (ms_length p) = Inr q \<and>
    ms_bytes q = ms_bytes p \<and> m_index q = 0 \<and> is_valid q \<and>
    packet_id q = packet_id p \<and> packet_version q = packet_version p \<and>
    packet_time q = packet_time p \<and> bodylength q = bodylength p \<and>
    packet_extra q = packet_extra p"
proof -
  let ?bs = "packet_header t pid n extra @ take n body"
  have p: "packet_holds p ?bs"
    using packet_make_ok [OF assms(2-4), of t pid extra] assms(1) by auto
  have len: "ms_length p = length ?bs" "vdata (m_data p) = ?bs"
    using packet_holds_length [OF p] packet_holds_vdata [OF p] by (simp_all add: ms_length_def)
  have "length ?bs = 24 + n" using assms(3) by simp
  then obtain q where q: "packet_of_bytes (Some ?bs) (length ?bs) = Inr q" "packet_holds q ?bs"
    "m_index q = 0"
    using packet_of_bytes_ok [of "length ?bs" ?bs] assms(4) by auto
  have "ms_data p = Inr ?bs"
    using len(2) length_packet_header [of t pid n extra]
    by (auto simp: ms_data_def ms_empty_def)
  moreover have "is_valid q"
    using packet_holds_length [OF q(2)] by (simp add: is_valid_def ms_length_def packet_offsets)
  ultimately show ?thesis
    using q len p packet_holds_same [OF p q(2)] by (auto simp: packet_holds_def)
qed

theorem packet_transport_witness:
  "\<exists>p. packet_make 7 2 (Some [65]) 1 4 = Inr p \<and>
    (\<exists>d q. ms_data p = Inr d \<and> packet_of_bytes (Some d) (ms_length p) = Inr q \<and>
      ms_bytes q = ms_bytes p \<and> m_index q = 0 \<and> is_valid q \<and>
      packet_id q = packet_id p \<and> packet_version q = packet_version p \<and>
      packet_time q = packet_time p \<and> bodylength q = bodylength p \<and>
      packet_extra q = packet_extra p)"
proof -
  have pre: "(0::nat) < 1" "(1::nat) \<le> length [65 :: byte]" "24 + 1 \<le> vector_max_size"
    by (simp_all add: vector_max_size_def)
  obtain p where "packet_make 7 2 (Some [65]) 1 4 = Inr p"
    using packet_make_ok [OF pre, of 7 2 4] by blast
  then show ?thesis using packet_transport [OF _ pre, of 7 2 4 p] by blast
qed

text \<open>
  C28: Once a packet is valid, reading its id, version, time, body length or
  extra word never trips the assertion of \<^verbatim>\<open>read<T>\<close> and never reads outside
  the buffer.
\<close>

theorem valid_packet_accessors:
  assumes "ms_inv p" and "is_valid p"
  shows "\<exists>i v t n e. packet_id p = Inr i \<and> packet_version p = Inr v \<and> packet_time p = Inr t \<and>
    bodylength p = Inr n \<and> n < 2 ^ 32 \<and> packet_extra p = Inr e"
proof -
  have len: "24 \<le> m_length p"
    using assms(2) by (simp add: is_valid_def ms_length_def packet_offsets)
  have "ms_read_value p w off = Inr (subrange (ms_bytes p) off w)" if "off + w \<le> 24" "0 < w" for w off
    using that len by (intro ms_read_value_at [OF assms(1)]) simp_all
  then show ?thesis
    using len unsigned_less [of "word32 (subrange (ms_bytes p) 16 4)"]
    by (simp add: packet_accessor_defs packet_offsets)
qed

theorem valid_packet_accessors_witness:
  "\<exists>i v t n e. let p = \<lparr>m_data = \<lparr>vdata = replicate 30 0, vcap = 64\<rparr>, m_length = 24, m_index = 0\<rparr> in
    packet_id p = Inr i \<and> packet_version p = Inr v \<and> packet_time p = Inr t \<and>
    bodylength p = Inr n \<and> n < 2 ^ 32 \<and> packet_extra p = Inr e"
  unfolding Let_def
  by (rule valid_packet_accessors)
    (simp_all add: ms_inv_def vector_size_def vector_max_size_def is_valid_def ms_length_def
      packet_offsets)

text \<open>
  C29: \<^verbatim>\<open>body()\<close> always reads one byte more than the body: on a packet that ends
  with its body, as every constructed and every received packet does, the read
  runs past the end of the buffer.
\<close>

theorem packet_body_overread:
  assumes "0 < n" and "n \<le> length body" and "n < 2 ^ 32"
  shows "\<exists>p. packet_make t pid (Some body) n extra = Inr p \<and>
    bodylength p = Inr n \<and> packet_body p data = Inl OutOfBounds"
proof -
  have fits: "24 + n \<le> vector_max_size" using assms(3) by (simp add: vector_max_size_def)
  obtain p where p: "packet_make t pid (Some body) n extra = Inr p"
    and hold: "packet_holds p (packet_header t pid n extra @ take n body)"
    using packet_make_ok [OF assms(1,2) fits] by blast
  have "bodylength p = Inr n"
    using packet_header_reads(4) [OF hold] packet_holds_length [OF hold] assms(3)
    by (simp add: bodylength_def ms_length_def packet_offsets codec_simps)
  then show ?thesis
    using p packet_body_tight [OF hold] assms(1,2) by (simp add: min_absorb2)
qed

theorem packet_body_overread_witness:
  "\<exists>p. packet_make 7 1 (Some [1, 2, 3]) 3 0 = Inr p \<and>
    bodylength p = Inr 3 \<and> packet_body p [] = Inl OutOfBounds"
  by (rule packet_body_overread) simp_all

text \<open>
  C30: A packet without a body cannot be built from a non-null pointer: copying
  zero bytes takes the address of the element one past the end.  Only a null
  body pointer gives the header-only packet.
\<close>

theorem packet_make_empty_body:
  shows "packet_make t pid (Some body) 0 extra = Inl OutOfBounds \<and>
    (\<exists>p. packet_make t pid None 0 extra = Inr p \<and>
         vdata (m_data p) = packet_header t pid 0 extra \<and> m_length p = 24)"
proof -
  have "24 + 0 \<le> vector_max_size" by (simp add: vector_max_size_def)
  then obtain p where make: "\<And>b. packet_make t pid b 0 extra = ms_append_chars p b 0"
    and hold: "packet_holds p (packet_header t pid 0 extra)"
    using packet_make_head [of 0 t pid extra] by blast
  show ?thesis
    using packet_holds_length [OF hold] packet_holds_vdata [OF hold]
    by (simp add: make ms_append_chars_def ms_append_raw_def vector_write_def vector_size_def
        sz_add_def SIZE_MOD_def)
qed

lemma packet_items_transfer:
  assumes "packet_default = Inr p0"
    and "\<forall>x \<in> set xs. pack_bytes x \<noteq> []"
    and "length (concat (map pack_bytes xs)) \<le> vector_max_size"
  shows "\<exists>p q. append_items p0 xs = Inr p \<and>
    read_items p xs = Inr (map (\<lambda>x. (0, pack_bytes x)) xs, q) \<and>
    m_index q = m_length q \<and> ms_bytes q = concat (map pack_bytes xs)"
proof -
  have p0: "ms_inv p0" "ms_bytes p0 = []" "m_length p0 = 0" "m_index p0 = 0"
    using assms(1)
    by (auto simp: packet_default_def memorystream_sized_def packet_of_base_def vector_defs
        packet_offsets ms_inv_def ms_bytes_def vector_max_size_def)
  then obtain p where p: "append_items p0 xs = Inr p"
    and eff: "appended p0 (concat (map pack_bytes xs)) p"
    using append_items_appended [of p0 xs] assms(2,3) by auto
  have "m_index p = m_index p0" using eff by (intro m_index_more) (simp add: appended_def)
  then have rd: "read_items p xs =
    Inr (map (\<lambda>x. (0, pack_bytes x)) xs, p\<lparr>m_index := length (ms_bytes p)\<rparr>)"
    using eff p0 assms(2)
    by (intro read_items_written [of p "[]"]) (simp_all add: appended_def)
  let ?q = "p\<lparr>m_index := length (ms_bytes p)\<rparr>"
  have "m_index ?q = m_length ?q" "ms_bytes ?q = concat (map pack_bytes xs)"
    using eff p0 by (simp_all add: appended_def length_ms_bytes)
  then show ?thesis using p rd by blast
qed

text \<open>
  C14: Values appended to a fresh packet read back in the same order: every read
  returns code 0 and the bytes that were written (a string with its
  terminating \<^verbatim>\<open>'\0'\<close>), and the cursor ends at the end of the data.
\<close>

theorem packet_items_roundtrip:
  assumes "packet_default = Inr p0"
    and "\<forall>x \<in> set xs. pack_bytes x \<noteq> []"
    and "length (concat (map pack_bytes xs)) \<le> vector_max_size"
  shows "\<exists>p q. append_items p0 xs = Inr p \<and>
    read_items p xs = Inr (map (\<lambda>x. (0, pack_bytes x)) xs, q) \<and>
    m_index q = m_length q \<and> ms_bytes q = concat (map pack_bytes xs)"
  by (rule packet_items_transfer [OF assms])

theorem packet_items_roundtrip_witness:
  "\<exists>p0 p q. packet_default = Inr p0 \<and>
    append_items p0 [Scalar (bytes_int 10), Chars [111, 113], Text [101, 119]] = Inr p \<and>
    read_items p [Scalar (bytes_int 10), Chars [111, 113], Text [101, 119]] =
      Inr ([(0, bytes_int 10), (0, [111, 113]), (0, [101, 119, 0])], q) \<and>
    m_index q = m_length q \<and> ms_bytes q = bytes_int 10 @ [111, 113, 101, 119, 0]"
proof -
  let ?xs = "[Scalar (bytes_int 10), Chars [111, 113], Text [101, 119]]"
  obtain p0 where p0: "packet_default = Inr p0"
    by (simp add: packet_default_def memorystream_sized_def vector_defs packet_offsets
        vector_max_size_def)
  have "\<forall>x \<in> set ?xs. pack_bytes x \<noteq> []" by simp
  moreover have "length (concat (map pack_bytes ?xs)) \<le> vector_max_size"
    by (simp add: vector_max_size_def)
  ultimately obtain p q where
    "append_items p0 ?xs = Inr p" "read_items p ?xs = Inr (map (\<lambda>x. (0, pack_bytes x)) ?xs, q)"
    "m_index q = m_length q" "ms_bytes q = concat (map pack_bytes ?xs)"
    using packet_items_roundtrip [OF p0] by blast
  moreover have "map (\<lambda>x. (0 :: nat, pack_bytes x)) ?xs =
      [(0, bytes_int 10), (0, [111, 113]), (0, [101, 119, 0])]"
    "concat (map pack_bytes ?xs) = bytes_int 10 @ [111, 113, 101, 119, 0]" by simp_all
  ultimately show ?thesis using p0 by (simp only:) blast
qed

text \<open>
  C31: The assertion of \<^verbatim>\<open>read<T>\<close> does not protect reads that start behind the
  written bytes: for any offset up to \<open>2 ^ 63\<close> past the length the unsigned
  difference wraps, the assertion holds, and the access goes out of bounds.
\<close>

theorem read_value_past_end:
  assumes "ms_inv p" and "ms_tight p" and "m_length p < offset" and "offset \<le> 2 ^ 63" and "width \<le> 8"
  shows "ms_read_value p width offset = Inl OutOfBounds"
  using assms ms_read_value_past_end [OF assms(1,3,4), of width]
  by (simp add: vector_read_def ms_tight_def)

theorem read_value_past_end_witness:
  "ms_read_value \<lparr>m_data = \<lparr>vdata = [1, 2], vcap = 24\<rparr>, m_length = 2, m_index = 0\<rparr> 4 3 =
    Inl OutOfBounds"
  by (rule read_value_past_end)
    (simp_all add: ms_inv_def ms_tight_def vector_size_def vector_max_size_def)

end
