(* ===== verification/Std_Map.thy ===== *)
theory Std_Map
  imports Prelude
begin

text \<open>
  The part of \<^verbatim>\<open>std::map\<close> the program uses, for the two tables it keeps
  (\<^verbatim>\<open>dispatcher::m_receivers\<close> and \<^verbatim>\<open>uv_service::m_sessions\<close>/\<^verbatim>\<open>m_connections\<close>).
  A map is an association list in ascending key order, which is also its
  iteration order.  The locale \<open>ordered_table\<close> states what the clients rely
  on; the client lemmas are proved there once, and \<open>smap\<close> interprets it on
  the executable operations.
\<close>

type_synonym ('k, 'v) std_map = "('k \<times> 'v) list"

fun map_find :: "('k, 'v) std_map \<Rightarrow> 'k \<Rightarrow> 'v option" where
  "map_find [] k = None"
| "map_find ((k', v) # m) k = (if k = k' then Some v else map_find m k)"

text \<open>\<^verbatim>\<open>insert\<close>: an existing key keeps its value.\<close>

fun map_insert :: "'k::linorder \<Rightarrow> 'v \<Rightarrow> ('k, 'v) std_map \<Rightarrow> ('k, 'v) std_map" where
  "map_insert k v [] = [(k, v)]"
| "map_insert k v ((k', v') # m) =
     (if k < k' then (k, v) # (k', v') # m
      else if k = k' then (k', v') # m
      else (k', v') # map_insert k v m)"

text \<open>Writing through the reference that \<^verbatim>\<open>operator[]\<close> or an iterator yields.\<close>

fun map_assign :: "'k::linorder \<Rightarrow> 'v \<Rightarrow> ('k, 'v) std_map \<Rightarrow> ('k, 'v) std_map" where
  "map_assign k v [] = [(k, v)]"
| "map_assign k v ((k', v') # m) =
     (if k < k' then (k, v) # (k', v') # m
      else if k = k' then (k', v) # m
      else (k', v') # map_assign k v m)"

fun map_erase :: "'k \<Rightarrow> ('k, 'v) std_map \<Rightarrow> ('k, 'v) std_map" where
  "map_erase k [] = []"
| "map_erase k ((k', v') # m) = (if k = k' then m else (k', v') # map_erase k m)"

definition map_sorted :: "('k::linorder, 'v) std_map \<Rightarrow> bool" where
  "map_sorted m \<longleftrightarrow> sorted_wrt (<) (map fst m)"

section \<open>The contract\<close>

locale ordered_table =
  fixes find :: "'m \<Rightarrow> 'k \<Rightarrow> 'v option"
    and insert :: "'k \<Rightarrow> 'v \<Rightarrow> 'm \<Rightarrow> 'm"
    and assign :: "'k \<Rightarrow> 'v \<Rightarrow> 'm \<Rightarrow> 'm"
    and erase :: "'k \<Rightarrow> 'm \<Rightarrow> 'm"
    and inv :: "'m \<Rightarrow> bool"
  assumes find_insert:
      "inv m \<Longrightarrow> find (insert k v m) j =
        (if j = k \<and> find m k = None then Some v else find m j)"
    and find_assign:
      "inv m \<Longrightarrow> find (assign k v m) j = (if j = k then Some v else find m j)"
    and find_erase:
      "inv m \<Longrightarrow> find (erase k m) j = (if j = k then None else find m j)"
    and inv_insert: "inv m \<Longrightarrow> inv (insert k v m)"
    and inv_assign: "inv m \<Longrightarrow> inv (assign k v m)"
    and inv_erase: "inv m \<Longrightarrow> inv (erase k m)"
    and find_ext: "inv m \<Longrightarrow> inv m' \<Longrightarrow> (\<And>k. find m k = find m' k) \<Longrightarrow> m = m'"
begin

lemma erase_insert_fresh:
  assumes "inv m" and "find m k = None"
  shows "erase k (insert k v m) = m"
proof (rule find_ext)
  show "inv (erase k (insert k v m))" using assms(1) by (simp add: inv_insert inv_erase)
  show "inv m" by (rule assms(1))
  fix j
  show "find (erase k (insert k v m)) j = find m j"
    using assms by (simp add: find_insert find_erase inv_insert)
qed

lemma insert_present:
  assumes "inv m" and "find m k = Some w"
  shows "insert k v m = m"
  by (rule find_ext) (use assms in \<open>simp_all add: find_insert inv_insert\<close>)

lemma assign_insert:
  assumes "inv m"
  shows "assign k w (insert k v m) = assign k w m"
  by (rule find_ext) (use assms in \<open>simp_all add: find_insert find_assign inv_insert inv_assign\<close>)

lemma assign_same:
  assumes "inv m" and "find m k = Some v"
  shows "assign k v m = m"
  by (rule find_ext) (use assms in \<open>simp_all add: find_assign inv_assign\<close>)

lemma assign_assign:
  assumes "inv m"
  shows "assign k w (assign k v m) = assign k w m"
  by (rule find_ext) (use assms in \<open>simp_all add: find_assign inv_assign\<close>)

lemma erase_absent:
  assumes "inv m" and "find m k = None"
  shows "erase k m = m"
  by (rule find_ext) (use assms in \<open>simp_all add: find_erase inv_erase\<close>)

end

section \<open>The operations satisfy it\<close>

lemma map_sorted_Nil [simp]: "map_sorted []"
  by (simp add: map_sorted_def)

lemma map_sorted_Cons:
  "map_sorted ((k, v) # m) \<longleftrightarrow> (\<forall>j \<in> fst ` set m. k < j) \<and> map_sorted m"
  by (auto simp: map_sorted_def)

lemma map_find_None_iff: "map_find m k = None \<longleftrightarrow> k \<notin> fst ` set m"
  by (induction m k rule: map_find.induct) auto

lemma map_find_in_set: "map_find m k = Some v \<Longrightarrow> (k, v) \<in> set m"
  by (induction m k rule: map_find.induct) (auto split: if_splits)

lemma map_find_set_iff: "map_sorted m \<Longrightarrow> map_find m k = Some v \<longleftrightarrow> (k, v) \<in> set m"
  by (induction m k rule: map_find.induct) (force simp: map_sorted_Cons)+

lemma map_find_below: "\<forall>j \<in> fst ` set m. k < j \<Longrightarrow> map_find m k = None"
  for k :: "'k::linorder"
  by (auto simp: map_find_None_iff)

lemma map_find_less: "k < k' \<Longrightarrow> \<forall>x \<in> set m. k' < fst x \<Longrightarrow> map_find m k = None"
  for k :: "'k::linorder"
  by (auto simp: map_find_None_iff dest: less_trans)

lemma keys_map_insert: "fst ` set (map_insert k v m) = insert k (fst ` set m)"
  by (induction k v m rule: map_insert.induct) auto

lemma keys_map_assign: "fst ` set (map_assign k v m) = insert k (fst ` set m)"
  by (induction k v m rule: map_assign.induct) auto

lemma keys_map_erase: "fst ` set (map_erase k m) \<subseteq> fst ` set m"
  by (induction k m rule: map_erase.induct) auto

lemma map_sorted_insert: "map_sorted m \<Longrightarrow> map_sorted (map_insert k v m)"
  by (induction k v m rule: map_insert.induct)
    (auto simp: map_sorted_Cons keys_map_insert)

lemma map_sorted_assign: "map_sorted m \<Longrightarrow> map_sorted (map_assign k v m)"
  by (induction k v m rule: map_assign.induct)
    (auto simp: map_sorted_Cons keys_map_assign)

lemma map_sorted_erase: "map_sorted m \<Longrightarrow> map_sorted (map_erase k m)"
  using keys_map_erase
  by (induction k m rule: map_erase.induct) (force simp: map_sorted_Cons)+

lemma map_find_insert:
  "map_sorted m \<Longrightarrow> map_find (map_insert k v m) j =
    (if j = k \<and> map_find m k = None then Some v else map_find m j)"
  by (induction k v m rule: map_insert.induct)
    (auto simp: map_sorted_Cons map_find_less map_find_below)

lemma map_find_assign:
  "map_sorted m \<Longrightarrow> map_find (map_assign k v m) j = (if j = k then Some v else map_find m j)"
  by (induction k v m rule: map_assign.induct) (auto simp: map_sorted_Cons)

lemma map_find_erase:
  "map_sorted m \<Longrightarrow> map_find (map_erase k m) j = (if j = k then None else map_find m j)"
  by (induction k m rule: map_erase.induct)
    (auto simp: map_sorted_Cons map_find_below)

lemma map_sorted_distinct: "map_sorted m \<Longrightarrow> distinct m"
  by (induction m) (force simp: map_sorted_Cons)+

lemma map_find_ext:
  fixes m m' :: "('k::linorder, 'v) std_map"
  assumes "map_sorted m" and "map_sorted m'" and "\<And>k. map_find m k = map_find m' k"
  shows "m = m'"
  using assms
proof (induction m arbitrary: m')
  case Nil
  show ?case
  proof (cases m')
    case (Cons a l)
    then show ?thesis using Nil.prems(3) [of "fst a"] by (cases a) simp
  qed simp
next
  case (Cons p m)
  obtain k v where p: "p = (k, v)" by (cases p)
  obtain k' v' l where m': "m' = (k', v') # l"
    using Cons.prems(3) [of k] p by (cases m') auto
  have lows: "\<forall>j \<in> fst ` set m. k < j" "\<forall>j \<in> fst ` set l. k' < j"
    and srt: "map_sorted m" "map_sorted l"
    using Cons.prems(1,2) by (simp_all add: p m' map_sorted_Cons)
  have "k = k'"
  proof (rule ccontr)
    assume "k \<noteq> k'"
    then have "map_find l k = Some v" "map_find m k' = Some v'"
      using Cons.prems(3) [of k] Cons.prems(3) [of k'] by (simp_all add: p m')
    then have "k' < k" "k < k'" using lows by (force dest: map_find_in_set)+
    then show False by simp
  qed
  moreover have "map_find m j = map_find l j" for j
    using Cons.prems(3) [of j] lows \<open>k = k'\<close>
    by (cases "j = k") (simp_all add: p m' map_find_below)
  then have "m = l" by (rule Cons.IH [OF srt])
  ultimately show ?case using Cons.prems(3) [of k] by (simp add: p m')
qed

interpretation smap: ordered_table map_find map_insert map_assign map_erase map_sorted
  by unfold_locales
    (simp_all add: map_find_insert map_find_assign map_find_erase map_sorted_insert
      map_sorted_assign map_sorted_erase map_find_ext)

end
