(* ===== verification/Dispatcher.thy ===== *)
theory Dispatcher
  imports Std_Map
begin

text \<open>
  \<^verbatim>\<open>src/libs/server/include/dispatcher.h\<close>, \<^verbatim>\<open>eventinterface.h\<close> and
  \<^verbatim>\<open>networkinterface.h\<close>: callbacks registered under an id and called when the id
  is dispatched.  Receivers are heap objects that the dispatcher owns; the
  model keeps them in a store, so that reading a deleted receiver, deleting it
  twice or losing one is visible.  The two interface classes differ in the
  argument types of the callback only and share one set of definitions.

  Shown here: the ownership invariant (the live receivers are exactly the
  registered ones), that no operation runs into a dangling pointer, and that
  the whole component refines a table of receiver lists.  The locale
  \<open>event_bus\<close> states that contract; \<open>bus\<close> interprets it.
\<close>

section \<open>Receivers and their store\<close>

text \<open>
  A \<^verbatim>\<open>receiver<T>\<close>: the \<^verbatim>\<open>typeid\<close> of \<^verbatim>\<open>T\<close>, the object, the message id and the
  member function.
\<close>

record receiver =
  r_type :: nat
  m_object :: ptr
  m_id :: int
  m_receiver :: nat

text \<open>The call \<^verbatim>\<open>(m_object->*m_receiver)(object, id, data)\<close>.\<close>

record 'd call =
  c_this :: ptr
  c_func :: nat
  c_object :: ptr
  c_id :: int
  c_data :: 'd

definition receiver_invoke :: "receiver \<Rightarrow> ptr \<Rightarrow> int \<Rightarrow> 'd \<Rightarrow> 'd call list" where
  "receiver_invoke r object mid data =
     (if mid = m_id r \<and> m_object r \<noteq> 0
      then [\<lparr>c_this = m_object r, c_func = m_receiver r, c_object = object, c_id = mid, c_data = data\<rparr>]
      else [])"

definition receiver_is_type :: "receiver \<Rightarrow> nat \<Rightarrow> bool" where
  "receiver_is_type r ty \<longleftrightarrow> r_type r = ty"

definition receiver_equals :: "receiver \<Rightarrow> receiver option \<Rightarrow> bool" where
  "receiver_equals this other =
     (case other of
        None \<Rightarrow> False
      | Some r \<Rightarrow>
          if \<not> receiver_is_type r (r_type this) then False
          else m_object this = m_object r \<and> m_id this = m_id r \<and> m_receiver this = m_receiver r)"

record dispatcher =
  m_receivers :: "(int, ptr list) std_map"
  store :: "ptr \<rightharpoonup> receiver"
  brk :: ptr

definition dispatcher_init :: dispatcher where
  "dispatcher_init = \<lparr>m_receivers = [], store = (\<lambda>_. None), brk = 1\<rparr>"

definition deref :: "dispatcher \<Rightarrow> ptr \<Rightarrow> receiver res" where
  "deref d a = (case store d a of None \<Rightarrow> Inl UseAfterFree | Some r \<Rightarrow> Inr r)"

text \<open>\<^verbatim>\<open>new receiver<T>(...)\<close>, or the automatic object of \<^verbatim>\<open>unlisten\<close>.\<close>

definition new_receiver :: "dispatcher \<Rightarrow> receiver \<Rightarrow> ptr \<times> dispatcher" where
  "new_receiver d r = (brk d, d\<lparr>store := (store d)(brk d \<mapsto> r), brk := brk d + 1\<rparr>)"

definition delete_receiver :: "dispatcher \<Rightarrow> ptr \<Rightarrow> dispatcher res" where
  "delete_receiver d a =
     (if a = 0 then Inr d
      else case store d a of
             None \<Rightarrow> Inl InvalidFree
           | Some _ \<Rightarrow> Inr (d\<lparr>store := (store d)(a := None)\<rparr>))"

section \<open>The dispatcher\<close>

text \<open>The loop of \<^verbatim>\<open>listen\<close>: does an element equal the new receiver?\<close>

fun list_has :: "dispatcher \<Rightarrow> ptr \<Rightarrow> ptr list \<Rightarrow> bool res" where
  "list_has d rcv [] = Inr False"
| "list_has d rcv (a # as) =
     res_bind (deref d a) (\<lambda>r. res_bind (deref d rcv) (\<lambda>other.
       if receiver_equals r (Some other) then Inr True else list_has d rcv as))"

definition dispatcher_listen :: "dispatcher \<Rightarrow> int \<Rightarrow> ptr \<Rightarrow> (bool \<times> dispatcher) res" where
  "dispatcher_listen d mid rcv =
     (if rcv = 0 then Inr (False, d)
      else
        let m = (if map_find (m_receivers d) mid = None
                 then map_insert mid [] (m_receivers d) else m_receivers d);
            l = (case map_find m mid of None \<Rightarrow> [] | Some l \<Rightarrow> l)
        in res_bind (list_has d rcv l) (\<lambda>exist.
             Inr (\<not> exist,
               d\<lparr>m_receivers := (if \<not> exist then map_assign mid (l @ [rcv]) m else m)\<rparr>)))"

text \<open>The loop of \<^verbatim>\<open>unlisten\<close>: the list without the first element that equals
  the argument, and that element.\<close>

fun list_remove :: "dispatcher \<Rightarrow> ptr \<Rightarrow> ptr list \<Rightarrow> (ptr list \<times> ptr) res" where
  "list_remove d rcv [] = Inr ([], 0)"
| "list_remove d rcv (a # as) =
     res_bind (deref d a) (\<lambda>r. res_bind (deref d rcv) (\<lambda>other.
       if receiver_equals r (Some other) then Inr (as, a)
       else res_bind (list_remove d rcv as) (\<lambda>(l, x). Inr (a # l, x))))"

definition dispatcher_unlisten :: "dispatcher \<Rightarrow> int \<Rightarrow> ptr \<Rightarrow> dispatcher res" where
  "dispatcher_unlisten d mid rcv =
     (if rcv = 0 then Inr d
      else case map_find (m_receivers d) mid of
             None \<Rightarrow> Inr d
           | Some l \<Rightarrow>
               res_bind (list_remove d rcv l) (\<lambda>(l', x).
                 delete_receiver (d\<lparr>m_receivers := map_assign mid l' (m_receivers d)\<rparr>) x))"

text \<open>\<^verbatim>\<open>dispatch\<close>: the calls made, in order.\<close>

fun invoke_all :: "dispatcher \<Rightarrow> ptr list \<Rightarrow> ptr \<Rightarrow> int \<Rightarrow> 'd \<Rightarrow> 'd call list res" where
  "invoke_all d [] object mid data = Inr []"
| "invoke_all d (a # as) object mid data =
     res_bind (deref d a) (\<lambda>r. res_bind (invoke_all d as object mid data) (\<lambda>cs.
       Inr (receiver_invoke r object mid data @ cs)))"

definition dispatcher_dispatch :: "dispatcher \<Rightarrow> ptr \<Rightarrow> int \<Rightarrow> 'd \<Rightarrow> 'd call list res" where
  "dispatcher_dispatch d object mid data =
     (case map_find (m_receivers d) mid of
        None \<Rightarrow> Inr []
      | Some l \<Rightarrow> invoke_all d l object mid data)"

fun delete_all :: "dispatcher \<Rightarrow> ptr list \<Rightarrow> dispatcher res" where
  "delete_all d [] = Inr d"
| "delete_all d (a # as) = res_bind (delete_receiver d a) (\<lambda>d'. delete_all d' as)"

fun delete_lists :: "dispatcher \<Rightarrow> (int \<times> ptr list) list \<Rightarrow> dispatcher res" where
  "delete_lists d [] = Inr d"
| "delete_lists d ((k, l) # m) = res_bind (delete_all d l) (\<lambda>d'. delete_lists d' m)"

definition dispatcher_clear :: "dispatcher \<Rightarrow> dispatcher res" where
  "dispatcher_clear d =
     res_bind (delete_lists d (m_receivers d)) (\<lambda>d'. Inr (d'\<lparr>m_receivers := []\<rparr>))"

section \<open>The interface classes\<close>

definition interface_listen ::
    "dispatcher \<Rightarrow> nat \<Rightarrow> int \<Rightarrow> ptr \<Rightarrow> nat \<Rightarrow> (bool \<times> dispatcher) res" where
  "interface_listen d ty mid object func =
     (let (rcv, d1) = new_receiver d
            \<lparr>r_type = ty, m_object = object, m_id = mid, m_receiver = func\<rparr>
      in res_bind (dispatcher_listen d1 mid rcv) (\<lambda>(r, d2).
           if \<not> r then res_bind (delete_receiver d2 rcv) (\<lambda>d3. Inr (r, d3))
           else Inr (r, d2)))"

definition interface_unlisten ::
    "dispatcher \<Rightarrow> nat \<Rightarrow> int \<Rightarrow> ptr \<Rightarrow> nat \<Rightarrow> dispatcher res" where
  "interface_unlisten d ty mid object func =
     (let (other, d1) = new_receiver d
            \<lparr>r_type = ty, m_object = object, m_id = mid, m_receiver = func\<rparr>
      in res_bind (dispatcher_unlisten d1 mid other) (\<lambda>d2. delete_receiver d2 other))"

definition interface_dispatch :: "dispatcher \<Rightarrow> ptr \<Rightarrow> int \<Rightarrow> 'd \<Rightarrow> 'd call list res" where
  "interface_dispatch d object mid data = dispatcher_dispatch d object mid data"

definition interface_clear :: "dispatcher \<Rightarrow> dispatcher res" where
  "interface_clear d = dispatcher_clear d"

section \<open>Abstract table\<close>

type_synonym table = "int \<Rightarrow> receiver list"

definition table_listen :: "table \<Rightarrow> receiver \<Rightarrow> bool \<times> table" where
  "table_listen t r =
     (if r \<in> set (t (m_id r)) then (False, t) else (True, t(m_id r := t (m_id r) @ [r])))"

definition table_unlisten :: "table \<Rightarrow> receiver \<Rightarrow> table" where
  "table_unlisten t r = t(m_id r := remove1 r (t (m_id r)))"

definition table_dispatch :: "table \<Rightarrow> ptr \<Rightarrow> int \<Rightarrow> 'd \<Rightarrow> 'd call list" where
  "table_dispatch t object mid data = concat (map (\<lambda>r. receiver_invoke r object mid data) (t mid))"

definition table_empty :: table where
  "table_empty = (\<lambda>_. [])"

definition entries :: "dispatcher \<Rightarrow> int \<Rightarrow> ptr list" where
  "entries d k = (case map_find (m_receivers d) k of None \<Rightarrow> [] | Some l \<Rightarrow> l)"

definition table_of :: "dispatcher \<Rightarrow> table" where
  "table_of d k = map (\<lambda>a. the (store d a)) (entries d k)"

text \<open>
  Ownership: the live objects are exactly the registered ones, each registered
  under its own id, and no two receivers of a list are equal.
\<close>

definition owned :: "dispatcher \<Rightarrow> bool" where
  "owned d \<longleftrightarrow>
     map_sorted (m_receivers d) \<and> 0 < brk d \<and>
     (\<forall>a. a \<in> dom (store d) \<longleftrightarrow> (\<exists>k. a \<in> set (entries d k))) \<and>
     (\<forall>a \<in> dom (store d). 0 < a \<and> a < brk d) \<and>
     (\<forall>k. distinct (table_of d k) \<and> (\<forall>r \<in> set (table_of d k). m_id r = k))"

section \<open>Single steps\<close>

lemma receiver_equals_iff [simp]: "receiver_equals r (Some s) \<longleftrightarrow> r = s"
  by (auto simp: receiver_equals_def receiver_is_type_def)

lemma deref_Some [simp]: "store d a = Some r \<Longrightarrow> deref d a = Inr r"
  by (simp add: deref_def)

lemma list_has_live:
  assumes "set as \<subseteq> dom (store d)" and "store d rcv = Some s"
  shows "list_has d rcv as = Inr (s \<in> (\<lambda>a. the (store d a)) ` set as)"
  using assms by (induction as) auto

lemma list_remove_absent:
  assumes "set as \<subseteq> dom (store d)" and "store d rcv = Some s"
    and "s \<notin> (\<lambda>a. the (store d a)) ` set as"
  shows "list_remove d rcv as = Inr (as, 0)"
  using assms by (induction as) auto

lemma list_remove_present:
  assumes "set (pre @ a # post) \<subseteq> dom (store d)" and "store d rcv = Some s"
    and "s \<notin> (\<lambda>a. the (store d a)) ` set pre" and "store d a = Some s"
  shows "list_remove d rcv (pre @ a # post) = Inr (pre @ post, a)"
  using assms by (induction pre) auto

lemma invoke_all_live:
  assumes "set as \<subseteq> dom (store d)"
  shows "invoke_all d as object mid data =
    Inr (concat (map (\<lambda>a. receiver_invoke (the (store d a)) object mid data) as))"
  using assms by (induction as) auto

lemma entries_assign [simp]:
  "map_sorted (m_receivers d) \<Longrightarrow>
    entries (d\<lparr>m_receivers := map_assign mid l (m_receivers d)\<rparr>) k =
      (if k = mid then l else entries d k)"
  by (simp add: entries_def smap.find_assign)

lemma set_entries_iff:
  "a \<in> set (entries d k) \<longleftrightarrow> (\<exists>l. map_find (m_receivers d) k = Some l \<and> a \<in> set l)"
  by (cases "map_find (m_receivers d) k") (simp_all add: entries_def)

lemma entries_frame [simp]:
  "entries (d\<lparr>store := h, brk := b\<rparr>) k = entries d k"
  "entries (d\<lparr>store := h\<rparr>) k = entries d k" "entries (d\<lparr>brk := b\<rparr>) k = entries d k"
  by (simp_all add: entries_def)

lemma owned_live: "owned d \<Longrightarrow> set (entries d k) \<subseteq> dom (store d)"
  by (auto simp: owned_def)

lemma owned_range: "owned d \<Longrightarrow> store d a = Some r \<Longrightarrow> 0 < a \<and> a < brk d"
  unfolding owned_def by blast

lemma owned_fresh: "owned d \<Longrightarrow> brk d \<le> a \<Longrightarrow> store d a = None"
  using owned_range [of d a] by (cases "store d a") auto

lemma owned_null: "owned d \<Longrightarrow> store d 0 = None"
  using owned_range [of d 0] by (cases "store d 0") auto

lemma table_of_store_cong:
  assumes "\<And>a. a \<in> set (entries d k) \<Longrightarrow> h a = store d a"
  shows "table_of (d\<lparr>store := h\<rparr>) k = table_of d k"
  using assms by (simp add: table_of_def)

lemma owned_id:
  assumes "owned d" and "a \<in> set (entries d k)"
  shows "m_id (the (store d a)) = k"
  using assms by (auto simp: owned_def table_of_def)

lemma owned_disjoint:
  assumes "owned d" and "a \<in> set (entries d k)" and "a \<in> set (entries d j)"
  shows "k = j"
  using owned_id [OF assms(1,2)] owned_id [OF assms(1,3)] by simp

lemma owned_distinct: "owned d \<Longrightarrow> distinct (entries d k)"
  by (auto simp: owned_def table_of_def dest: distinct_map [THEN iffD1])

section \<open>Registration\<close>

lemma dispatcher_listen_live:
  assumes "map_sorted (m_receivers d)" and "set (entries d mid) \<subseteq> dom (store d)"
    and "store d rcv = Some s" and "rcv \<noteq> 0"
  shows "dispatcher_listen d mid rcv =
    (if s \<in> set (table_of d mid) then Inr (False, d)
     else Inr (True, d\<lparr>m_receivers := map_assign mid (entries d mid @ [rcv]) (m_receivers d)\<rparr>))"
proof (cases "map_find (m_receivers d) mid")
  case None
  then show ?thesis
    using assms
    by (simp add: dispatcher_listen_def entries_def table_of_def smap.find_insert
        smap.assign_insert)
next
  case (Some l)
  then show ?thesis
    using assms list_has_live [of l d rcv s]
    by (simp add: dispatcher_listen_def entries_def table_of_def)
qed

definition make_receiver :: "nat \<Rightarrow> int \<Rightarrow> ptr \<Rightarrow> nat \<Rightarrow> receiver" where
  "make_receiver ty mid object func =
     \<lparr>r_type = ty, m_object = object, m_id = mid, m_receiver = func\<rparr>"

lemma make_receiver_id [simp]: "m_id (make_receiver ty mid object func) = mid"
  by (simp add: make_receiver_def)

lemma table_of_brk [simp]: "table_of (d\<lparr>brk := b\<rparr>) = table_of d"
  by (rule ext) (simp add: table_of_def)

lemma table_alloc:
  assumes "owned d"
  shows "table_of (d\<lparr>store := (store d)(brk d \<mapsto> s)\<rparr>) k = table_of d k"
proof -
  have "a \<noteq> brk d" if "a \<in> set (entries d k)" for a
    using that owned_live [OF assms, of k] owned_fresh [OF assms order_refl] by auto
  then show ?thesis by (auto simp: table_of_def)
qed

lemma interface_listen_duplicate:
  assumes own: "owned d" and dup: "make_receiver ty mid object func \<in> set (table_of d mid)"
  shows "interface_listen d ty mid object func = Inr (False, d\<lparr>brk := brk d + 1\<rparr>)"
proof -
  let ?s = "make_receiver ty mid object func"
  let ?d1 = "d\<lparr>store := (store d)(brk d \<mapsto> ?s), brk := brk d + 1\<rparr>"
  have "dispatcher_listen ?d1 mid (brk d) = Inr (False, ?d1)"
  proof (subst dispatcher_listen_live [where s = ?s])
    show "map_sorted (m_receivers ?d1)" using own by (simp add: owned_def)
    show "set (entries ?d1 mid) \<subseteq> dom (store ?d1)" using owned_live [OF own, of mid] by auto
    show "store ?d1 (brk d) = Some ?s" by simp
    show "brk d \<noteq> 0" using own by (simp add: owned_def)
    show "(if ?s \<in> set (table_of ?d1 mid) then Inr (False, ?d1)
      else Inr (True, ?d1\<lparr>m_receivers := map_assign mid (entries ?d1 mid @ [brk d]) (m_receivers ?d1)\<rparr>))
        = Inr (False, ?d1)"
      using dup by (simp add: table_alloc [OF own])
  qed
  moreover have "(store d)(brk d := None) = store d"
    using owned_fresh [OF own order_refl] by (simp add: fun_upd_idem)
  ultimately show ?thesis
    using own
    by (simp add: interface_listen_def new_receiver_def make_receiver_def delete_receiver_def
        owned_def)
qed

lemma interface_listen_new:
  assumes own: "owned d" and new: "make_receiver ty mid object func \<notin> set (table_of d mid)"
  shows "interface_listen d ty mid object func =
    Inr (True, d\<lparr>store := (store d)(brk d \<mapsto> make_receiver ty mid object func), brk := brk d + 1,
      m_receivers := map_assign mid (entries d mid @ [brk d]) (m_receivers d)\<rparr>)"
proof -
  let ?s = "make_receiver ty mid object func"
  let ?d1 = "d\<lparr>store := (store d)(brk d \<mapsto> ?s), brk := brk d + 1\<rparr>"
  have "dispatcher_listen ?d1 mid (brk d) =
    Inr (True, ?d1\<lparr>m_receivers := map_assign mid (entries ?d1 mid @ [brk d]) (m_receivers ?d1)\<rparr>)"
  proof (subst dispatcher_listen_live [where s = ?s])
    show "map_sorted (m_receivers ?d1)" using own by (simp add: owned_def)
    show "set (entries ?d1 mid) \<subseteq> dom (store ?d1)" using owned_live [OF own, of mid] by auto
    show "store ?d1 (brk d) = Some ?s" by simp
    show "brk d \<noteq> 0" using own by (simp add: owned_def)
  qed (use new in \<open>simp add: table_alloc [OF own]\<close>)
  then show ?thesis
    by (simp add: interface_listen_def new_receiver_def make_receiver_def)
qed


lemma owned_add:
  assumes own: "owned d" and new: "s \<notin> set (table_of d mid)" and sid: "m_id s = mid"
  defines "d' \<equiv> d\<lparr>store := (store d)(brk d \<mapsto> s), brk := brk d + 1,
      m_receivers := map_assign mid (entries d mid @ [brk d]) (m_receivers d)\<rparr>"
  shows "owned d'" and "table_of d' = (table_of d)(mid := table_of d mid @ [s])"
proof -
  have srt: "map_sorted (m_receivers d)" and pos: "0 < brk d" using own by (simp_all add: owned_def)
  have st: "store d' = (store d)(brk d \<mapsto> s)" and bk: "brk d' = brk d + 1" by (simp_all add: d'_def)
  have ent: "entries d' k = (if k = mid then entries d mid @ [brk d] else entries d k)" for k
    using srt by (simp add: d'_def entries_def smap.find_assign)
  have ne: "a \<noteq> brk d" if "a \<in> set (entries d k)" for a k
    using that owned_live [OF own, of k] owned_fresh [OF own order_refl] by auto
  show tab: "table_of d' = (table_of d)(mid := table_of d mid @ [s])"
    by (rule ext) (use ne in \<open>auto simp: table_of_def ent st\<close>)
  have dom: "dom (store d') = insert (brk d) (dom (store d))" by (simp add: st)
  have "a \<in> dom (store d') \<longleftrightarrow> (\<exists>k. a \<in> set (entries d' k))" for a
    using own by (auto simp: dom ent owned_def)
  moreover have "0 < a \<and> a < brk d'" if "a \<in> dom (store d')" for a
    using that owned_range [OF own, of a] pos unfolding dom by (auto simp: bk)
  moreover have "distinct (table_of d' k) \<and> (\<forall>r \<in> set (table_of d' k). m_id r = k)" for k
    using own new sid by (auto simp: tab owned_def)
  moreover have "map_sorted (m_receivers d')" using srt by (simp add: d'_def smap.inv_assign)
  ultimately show "owned d'" by (simp add: owned_def bk)
qed

lemma owned_remove:
  assumes own: "owned d" and ent0: "entries d mid = pre @ a # post" and b: "brk d \<le> b"
  defines "d' \<equiv> d\<lparr>store := (store d)(a := None), brk := b,
      m_receivers := map_assign mid (pre @ post) (m_receivers d)\<rparr>"
  shows "owned d'" and "table_of d' = (table_of d)(mid := remove1 (the (store d a)) (table_of d mid))"
proof -
  have srt: "map_sorted (m_receivers d)" and pos: "0 < brk d" using own by (simp_all add: owned_def)
  have st: "store d' = (store d)(a := None)" and bk: "brk d' = b" by (simp_all add: d'_def)
  have ent: "entries d' k = (if k = mid then pre @ post else entries d k)" for k
    using srt by (simp add: d'_def entries_def smap.find_assign)
  have dis: "distinct (pre @ a # post)" using owned_distinct [OF own, of mid] by (simp add: ent0)
  have amid: "k = mid" if "a \<in> set (entries d k)" for k
    using owned_disjoint [OF own that, of mid] by (simp add: ent0)
  have mem: "x \<in> set (entries d' k) \<longleftrightarrow> x \<in> set (entries d k) \<and> x \<noteq> a" for x k
    using dis amid by (auto simp: ent ent0)
  have dt: "distinct (table_of d mid)" using own by (simp add: owned_def)
  have "the (store d a) \<notin> (\<lambda>a. the (store d a)) ` set pre"
    using dt by (auto simp: table_of_def ent0)
  then have "remove1 (the (store d a)) (table_of d mid) = map (\<lambda>a. the (store d a)) (pre @ post)"
    by (simp add: table_of_def ent0 remove1_append)
  moreover have tab': "table_of d' k = map (\<lambda>a. the (store d a)) (entries d' k)" for k
    unfolding table_of_def by (rule map_cong [OF refl]) (use mem in \<open>auto simp: st\<close>)
  ultimately show tab: "table_of d' = (table_of d)(mid := remove1 (the (store d a)) (table_of d mid))"
    by (intro ext) (simp add: tab' ent, simp add: table_of_def)
  have "x \<in> dom (store d') \<longleftrightarrow> (\<exists>k. x \<in> set (entries d' k))" for x
    using own unfolding mem by (auto simp: st owned_def)
  moreover have "0 < x \<and> x < brk d'" if "x \<in> dom (store d')" for x
    using that owned_range [OF own, of x] b by (auto simp: st bk split: if_splits)
  moreover have "distinct (table_of d' k) \<and> (\<forall>r \<in> set (table_of d' k). m_id r = k)" for k
    using own by (auto simp: tab owned_def dest: set_remove1_subset [THEN subsetD])
  moreover have "map_sorted (m_receivers d')" using srt by (simp add: d'_def smap.inv_assign)
  ultimately show "owned d'" using pos b by (simp add: owned_def bk)
qed

lemma owned_brk: "owned d \<Longrightarrow> brk d \<le> b \<Longrightarrow> owned (d\<lparr>brk := b\<rparr>)"
  unfolding owned_def by (auto simp: table_of_def dest: order_less_le_trans)


section \<open>Removal\<close>

lemma dispatcher_unlisten_absent:
  assumes "set (entries d mid) \<subseteq> dom (store d)" and "store d rcv = Some s"
    and "s \<notin> set (table_of d mid)" and "map_sorted (m_receivers d)"
  shows "dispatcher_unlisten d mid rcv = Inr d"
proof (cases "map_find (m_receivers d) mid")
  case (Some l)
  then have "map_assign mid l (m_receivers d) = m_receivers d"
    using assms(4) by (simp add: smap.assign_same)
  then show ?thesis
    using Some assms(1-3)
    by (auto simp: dispatcher_unlisten_def entries_def table_of_def list_remove_absent
        delete_receiver_def)
qed (simp add: dispatcher_unlisten_def)

lemma dispatcher_unlisten_present:
  assumes "entries d mid = pre @ a # post" and "set (entries d mid) \<subseteq> dom (store d)"
    and "store d rcv = Some s" and "s \<notin> (\<lambda>a. the (store d a)) ` set pre" and "store d a = Some s"
    and "a \<noteq> 0" and "rcv \<noteq> 0"
  shows "dispatcher_unlisten d mid rcv =
    Inr (d\<lparr>store := (store d)(a := None), m_receivers := map_assign mid (pre @ post) (m_receivers d)\<rparr>)"
proof -
  have "map_find (m_receivers d) mid = Some (pre @ a # post)"
    using assms(1) by (auto simp: entries_def split: option.splits)
  moreover have "list_remove d rcv (pre @ a # post) = Inr (pre @ post, a)"
    using assms by (intro list_remove_present) auto
  ultimately show ?thesis
    using assms(5-7) by (simp add: dispatcher_unlisten_def delete_receiver_def)
qed

lemma interface_unlisten_absent:
  assumes own: "owned d" and abs: "make_receiver ty mid object func \<notin> set (table_of d mid)"
  shows "interface_unlisten d ty mid object func = Inr (d\<lparr>brk := brk d + 1\<rparr>)"
proof -
  let ?s = "make_receiver ty mid object func"
  let ?d1 = "d\<lparr>store := (store d)(brk d \<mapsto> ?s), brk := brk d + 1\<rparr>"
  have "dispatcher_unlisten ?d1 mid (brk d) = Inr ?d1"
    using owned_live [OF own, of mid] own abs
    by (intro dispatcher_unlisten_absent [where s = ?s])
      (auto simp: owned_def table_alloc [OF own])
  moreover have "(store d)(brk d := None) = store d"
    using owned_fresh [OF own order_refl] by (simp add: fun_upd_idem)
  ultimately show ?thesis
    using own
    by (simp add: interface_unlisten_def new_receiver_def make_receiver_def delete_receiver_def
        owned_def)
qed

lemma interface_unlisten_present:
  assumes own: "owned d" and mem: "make_receiver ty mid object func \<in> set (table_of d mid)"
  obtains pre a post where "entries d mid = pre @ a # post"
    and "the (store d a) = make_receiver ty mid object func"
    and "interface_unlisten d ty mid object func =
      Inr (d\<lparr>store := (store d)(a := None), brk := brk d + 1,
        m_receivers := map_assign mid (pre @ post) (m_receivers d)\<rparr>)"
proof -
  let ?s = "make_receiver ty mid object func"
  let ?d1 = "d\<lparr>store := (store d)(brk d \<mapsto> ?s), brk := brk d + 1\<rparr>"
  from mem obtain a where "a \<in> set (entries d mid)" and sa: "the (store d a) = ?s"
    by (auto simp: table_of_def)
  then obtain pre post where ent: "entries d mid = pre @ a # post" by (auto dest: split_list)
  have dt: "distinct (table_of d mid)" using own by (simp add: owned_def)
  have live: "set (entries d mid) \<subseteq> dom (store d)" by (rule owned_live [OF own])
  have fresh: "store d (brk d) = None" by (rule owned_fresh [OF own order_refl])
  have a: "store d a = Some ?s" "a \<noteq> brk d" using live fresh sa by (auto simp: ent)
  have notin: "?s \<notin> (\<lambda>a. the (store d a)) ` set pre"
    using dt sa by (auto simp: table_of_def ent)
  have pre: "\<forall>x \<in> set pre. x \<noteq> brk d \<and> the (store d x) \<noteq> ?s"
    using live fresh notin by (force simp: ent image_iff)
  have pos: "0 < brk d" "0 < a" using own owned_range [OF own a(1)] by (simp_all add: owned_def)
  have "dispatcher_unlisten ?d1 mid (brk d) = Inr (?d1\<lparr>store := (store ?d1)(a := None),
      m_receivers := map_assign mid (pre @ post) (m_receivers ?d1)\<rparr>)"
    using live a pos pre
    by (intro dispatcher_unlisten_present [where s = ?s]) (auto simp: ent image_iff)
  moreover have "((store d)(brk d \<mapsto> ?s, a := None))(brk d := None) = (store d)(a := None)"
    using fresh a(2) by (auto simp: fun_eq_iff)
  ultimately have "interface_unlisten d ty mid object func =
      Inr (d\<lparr>store := (store d)(a := None), brk := brk d + 1,
        m_receivers := map_assign mid (pre @ post) (m_receivers d)\<rparr>)"
    using pos a(2)
    by (simp add: interface_unlisten_def new_receiver_def make_receiver_def delete_receiver_def)
  with ent sa show thesis by (rule that)
qed

section \<open>Clearing\<close>

lemma delete_all_live:
  assumes "set as \<subseteq> dom (store d)" and "distinct as" and "0 \<notin> set as"
  shows "delete_all d as = Inr (d\<lparr>store := store d |` (- set as)\<rparr>)"
  using assms
proof (induction as arbitrary: d)
  case (Cons a as)
  then obtain r where "store d a = Some r" by auto
  with Cons.prems have "delete_receiver d a = Inr (d\<lparr>store := (store d)(a := None)\<rparr>)"
    by (simp add: delete_receiver_def)
  moreover have "((store d)(a := None)) |` (- set as) = store d |` (- set (a # as))"
    by (auto simp: restrict_map_def fun_eq_iff)
  moreover have "delete_all (d\<lparr>store := (store d)(a := None)\<rparr>) as =
      Inr (d\<lparr>store := ((store d)(a := None)) |` (- set as)\<rparr>)"
    using Cons.prems by (subst Cons.IH) auto
  ultimately show ?case by simp
qed (simp add: restrict_map_def)

lemma delete_lists_live:
  assumes "set (concat (map snd m)) \<subseteq> dom (store d)" and "distinct (concat (map snd m))"
    and "0 \<notin> set (concat (map snd m))"
  shows "delete_lists d m = Inr (d\<lparr>store := store d |` (- set (concat (map snd m)))\<rparr>)"
  using assms
proof (induction m arbitrary: d)
  case (Cons e m)
  obtain k l where e: "e = (k, l)" by (cases e)
  let ?d = "d\<lparr>store := store d |` (- set l)\<rparr>"
  have "delete_all d l = Inr ?d" using Cons.prems by (intro delete_all_live) (auto simp: e)
  moreover have "delete_lists ?d m = Inr (?d\<lparr>store := store ?d |` (- set (concat (map snd m)))\<rparr>)"
    using Cons.prems by (intro Cons.IH) (auto simp: e)
  moreover have "(store d |` (- set l)) |` (- set (concat (map snd m)))
      = store d |` (- set (concat (map snd (e # m))))"
    by (auto simp: restrict_map_def fun_eq_iff e)
  ultimately show ?case by (simp add: e)
qed (simp add: restrict_map_def)


lemma concat_entries:
  assumes "map_sorted m" and "\<And>k l. (k, l) \<in> set m \<Longrightarrow> distinct l"
    and "\<And>k l a. (k, l) \<in> set m \<Longrightarrow> a \<in> set l \<Longrightarrow> g a = k"
  shows "distinct (concat (map snd m))"
  using assms
proof (induction m)
  case (Cons e m)
  obtain k l where e: "e = (k, l)" by (cases e)
  have "distinct (concat (map snd m))"
    using Cons.prems by (intro Cons.IH) (simp_all add: map_sorted_Cons e, metis+)
  moreover have "a \<notin> set l'" if "a \<in> set l" "(k', l') \<in> set m" for a k' l'
    using that Cons.prems(1) Cons.prems(3) [of k l a] Cons.prems(3) [of k' l' a]
    by (auto simp: map_sorted_Cons e)
  ultimately show ?case using Cons.prems(2) [of k l] by (auto simp: e)
qed simp

lemma interface_clear_owned:
  assumes own: "owned d"
  shows "interface_clear d = Inr (d\<lparr>m_receivers := [], store := (\<lambda>_. None)\<rparr>)"
proof -
  let ?as = "concat (map snd (m_receivers d))"
  have srt: "map_sorted (m_receivers d)" using own by (simp add: owned_def)
  have mem: "l = entries d k" if "(k, l) \<in> set (m_receivers d)" for k l
    using that srt by (simp add: entries_def map_find_set_iff [THEN iffD2])
  have all: "set ?as = dom (store d)"
  proof (rule set_eqI)
    fix a
    have "a \<in> set ?as \<longleftrightarrow> (\<exists>k l. (k, l) \<in> set (m_receivers d) \<and> a \<in> set l)" by force
    also have "\<dots> \<longleftrightarrow> (\<exists>k. a \<in> set (entries d k))"
      unfolding map_find_set_iff [OF srt, symmetric] set_entries_iff ..
    finally show "a \<in> set ?as \<longleftrightarrow> a \<in> dom (store d)" using own by (simp add: owned_def)
  qed
  have "distinct ?as"
    by (rule concat_entries [OF srt, of "\<lambda>a. m_id (the (store d a))"])
      (auto dest!: mem intro: owned_distinct [OF own] owned_id [OF own])
  moreover have "0 \<notin> set ?as" unfolding all using owned_null [OF own] by blast
  ultimately have "delete_lists d (m_receivers d) = Inr (d\<lparr>store := store d |` (- dom (store d))\<rparr>)"
    using delete_lists_live [of "m_receivers d" d] unfolding all by blast
  moreover have "store d |` (- dom (store d)) = (\<lambda>_. None)" by (auto simp: restrict_map_def)
  ultimately show ?thesis by (simp add: interface_clear_def dispatcher_clear_def)
qed

lemma owned_empty:
  "0 < brk d \<Longrightarrow> owned (d\<lparr>m_receivers := [], store := (\<lambda>_. None)\<rparr>)"
  "table_of (d\<lparr>m_receivers := [], store := h\<rparr>) = table_empty"
  by (auto simp: owned_def table_of_def entries_def table_empty_def)

lemma owned_init: "owned dispatcher_init" "table_of dispatcher_init = table_empty"
  by (auto simp: owned_def table_of_def entries_def table_empty_def dispatcher_init_def)

section \<open>The contract of the component\<close>

text \<open>One call of the interface, and a sequence of them.\<close>

datatype bus_op = Listen receiver | Unlisten receiver | Clear

fun table_step :: "bus_op \<Rightarrow> table \<Rightarrow> table" where
  "table_step (Listen r) t = snd (table_listen t r)"
| "table_step (Unlisten r) t = table_unlisten t r"
| "table_step Clear t = table_empty"

fun interface_step :: "bus_op \<Rightarrow> dispatcher \<Rightarrow> dispatcher res" where
  "interface_step (Listen r) d =
     res_bind (interface_listen d (r_type r) (m_id r) (m_object r) (m_receiver r)) (\<lambda>(_, d'). Inr d')"
| "interface_step (Unlisten r) d =
     interface_unlisten d (r_type r) (m_id r) (m_object r) (m_receiver r)"
| "interface_step Clear d = interface_clear d"

fun run_steps :: "('o \<Rightarrow> 's \<Rightarrow> 's res) \<Rightarrow> 'o list \<Rightarrow> 's \<Rightarrow> 's res" where
  "run_steps step [] s = Inr s"
| "run_steps step (p # ps) s = res_bind (step p s) (run_steps step ps)"

locale event_bus =
  fixes good :: "'s \<Rightarrow> bool"
    and view :: "'s \<Rightarrow> table"
    and step :: "bus_op \<Rightarrow> 's \<Rightarrow> 's res"
    and send :: "'s \<Rightarrow> ptr \<Rightarrow> int \<Rightarrow> 'd \<Rightarrow> 'd call list res"
  assumes step_refines:
      "good s \<Longrightarrow> \<exists>s'. step p s = Inr s' \<and> good s' \<and> view s' = table_step p (view s)"
    and send_refines: "good s \<Longrightarrow> send s object mid data = Inr (table_dispatch (view s) object mid data)"
    and good_ids: "good s \<Longrightarrow> distinct (view s k) \<and> (\<forall>r \<in> set (view s k). m_id r = k)"
begin

lemma run_refines:
  "good s \<Longrightarrow> \<exists>s'. run_steps step ps s = Inr s' \<and> good s' \<and> view s' = fold table_step ps (view s)"
proof (induction ps arbitrary: s)
  case (Cons p ps)
  then obtain s1 where "step p s = Inr s1" "good s1" "view s1 = table_step p (view s)"
    using step_refines by blast
  then show ?case using Cons.IH [of s1] by simp
qed simp

lemma unlisten_after_listen:
  assumes "good s" and "r \<notin> set (view s (m_id r))"
  shows "\<exists>s'. run_steps step [Listen r, Unlisten r] s = Inr s' \<and> good s' \<and> view s' = view s"
  using run_refines [OF assms(1), of "[Listen r, Unlisten r]"] assms(2)
  by (auto simp: table_listen_def table_unlisten_def remove1_append)

lemma delivered:
  assumes "good s" and "r \<in> set (view s k)" and "m_object r \<noteq> 0"
  shows "\<exists>cs. send s object k data = Inr cs \<and>
    \<lparr>c_this = m_object r, c_func = m_receiver r, c_object = object, c_id = k, c_data = data\<rparr> \<in> set cs"
proof -
  have "m_id r = k" using good_ids [OF assms(1)] assms(2) by blast
  then show ?thesis
    using assms by (force simp: send_refines table_dispatch_def receiver_invoke_def)
qed

lemma not_delivered:
  assumes "good s" and "\<forall>r \<in> set (view s k). \<not> (m_object r = this \<and> m_receiver r = func)"
    and "send s object k data = Inr cs" and "c \<in> set cs"
  shows "\<not> (c_this c = this \<and> c_func c = func)"
proof -
  from assms obtain r where "r \<in> set (view s k)" and "c \<in> set (receiver_invoke r object k data)"
    by (auto simp: send_refines table_dispatch_def)
  then show ?thesis using assms(2) by (auto simp: receiver_invoke_def split: if_splits)
qed

end

lemma make_receiver_fields [simp]:
  "make_receiver (r_type r) (m_id r) (m_object r) (m_receiver r) = r"
  by (simp add: make_receiver_def)

lemma listen_step:
  assumes own: "owned d"
  shows "\<exists>d'. interface_listen d (r_type r) (m_id r) (m_object r) (m_receiver r) =
       Inr (fst (table_listen (table_of d) r), d') \<and>
     owned d' \<and> table_of d' = snd (table_listen (table_of d) r)"
proof (cases "r \<in> set (table_of d (m_id r))")
  case True
  then show ?thesis
    using own interface_listen_duplicate [OF own, of "r_type r" "m_id r" "m_object r" "m_receiver r"]
    by (auto simp: table_listen_def intro: owned_brk)
next
  case False
  then show ?thesis
    using interface_listen_new [OF own, of "r_type r" "m_id r" "m_object r" "m_receiver r"]
      owned_add [OF own False refl]
    by (simp add: table_listen_def)
qed

lemma unlisten_step:
  assumes own: "owned d"
  shows "\<exists>d'. interface_unlisten d (r_type r) (m_id r) (m_object r) (m_receiver r) = Inr d' \<and>
     owned d' \<and> table_of d' = table_unlisten (table_of d) r"
proof (cases "r \<in> set (table_of d (m_id r))")
  case True
  then obtain pre a post where ent: "entries d (m_id r) = pre @ a # post"
    and a: "the (store d a) = r"
    and eq: "interface_unlisten d (r_type r) (m_id r) (m_object r) (m_receiver r) =
      Inr (d\<lparr>store := (store d)(a := None), brk := brk d + 1,
        m_receivers := map_assign (m_id r) (pre @ post) (m_receivers d)\<rparr>)"
    using interface_unlisten_present [OF own, of "r_type r" "m_id r" "m_object r" "m_receiver r"]
    by (metis make_receiver_fields)
  from owned_remove [OF own ent, of "brk d + 1"] show ?thesis
    by (simp add: eq table_unlisten_def a)
next
  case False
  then have "table_unlisten (table_of d) r = table_of d"
    by (simp add: table_unlisten_def remove1_idem)
  then show ?thesis
    using own False interface_unlisten_absent [OF own, of "r_type r" "m_id r" "m_object r" "m_receiver r"]
    by (auto intro: owned_brk)
qed

lemma interface_dispatch_owned:
  assumes "owned d"
  shows "interface_dispatch d object mid data = Inr (table_dispatch (table_of d) object mid data)"
proof (cases "map_find (m_receivers d) mid")
  case None
  then show ?thesis
    by (simp add: interface_dispatch_def dispatcher_dispatch_def table_dispatch_def table_of_def
        entries_def)
next
  case (Some l)
  then have "entries d mid = l" by (simp add: entries_def)
  then show ?thesis
    using Some owned_live [OF assms, of mid]
    by (simp add: interface_dispatch_def dispatcher_dispatch_def invoke_all_live table_dispatch_def
        table_of_def comp_def)
qed

lemma interface_step_refines:
  assumes own: "owned d"
  shows "\<exists>d'. interface_step p d = Inr d' \<and> owned d' \<and> table_of d' = table_step p (table_of d)"
proof (cases p)
  case (Listen r)
  with listen_step [OF own, of r] show ?thesis by auto
next
  case (Unlisten r)
  with unlisten_step [OF own, of r] show ?thesis by auto
next
  case Clear
  have "0 < brk d" using own by (simp add: owned_def)
  then show ?thesis
    using Clear owned_empty(1) [of d] by (simp add: interface_clear_owned [OF own] owned_empty(2))
qed

interpretation bus: event_bus owned table_of interface_step interface_dispatch
  by unfold_locales
    (erule interface_step_refines, erule interface_dispatch_owned, simp add: owned_def)


section \<open>Properties\<close>

text \<open>A dispatcher with one receiver, for the concrete instances below.\<close>

definition demo_receiver :: receiver where
  "demo_receiver = \<lparr>r_type = 3, m_object = 40, m_id = 7, m_receiver = 5\<rparr>"

definition demo_bus :: dispatcher where
  "demo_bus = \<lparr>m_receivers = [(7, [1])], store = [1 \<mapsto> demo_receiver], brk = 2\<rparr>"

lemma demo_bus_run:
  "interface_listen dispatcher_init 3 7 40 5 = Inr (True, demo_bus)"
  by (simp add: interface_listen_def new_receiver_def dispatcher_listen_def dispatcher_init_def
      demo_bus_def demo_receiver_def)

lemma owned_demo: "owned demo_bus" "table_of demo_bus 7 = [demo_receiver]"
  using listen_step [OF owned_init(1), of demo_receiver] demo_bus_run
  by (auto simp: demo_receiver_def table_listen_def owned_init(2) table_empty_def)

text \<open>
  C1: Starting from the empty dispatcher, every sequence of listen, unlisten and
  clear calls runs to its end: no call reads a deleted receiver or deletes one
  twice.  The state it ends in owns exactly the receivers that are registered,
  and the registrations are those of the abstract table of receiver lists.
\<close>

theorem dispatcher_run_refines:
  "\<exists>d. run_steps interface_step ops dispatcher_init = Inr d \<and> owned d \<and>
     table_of d = fold table_step ops table_empty"
  using bus.run_refines [OF owned_init(1), of ops] by (simp add: owned_init(2))

text \<open>
  C15: \<^verbatim>\<open>listen\<close> returns true exactly when an equal receiver (same type, object, id
  and function) is not registered yet; then the receiver is added at the end of
  its list, otherwise nothing changes, and the rejected object is deleted.
\<close>

theorem interface_listen_result:
  assumes "owned d"
  shows "\<exists>d'. interface_listen d ty mid object func =
      Inr (make_receiver ty mid object func \<notin> set (table_of d mid), d') \<and> owned d' \<and>
    table_of d' = (table_of d)(mid := (if make_receiver ty mid object func \<in> set (table_of d mid)
      then table_of d mid else table_of d mid @ [make_receiver ty mid object func]))"
proof -
  let ?r = "make_receiver ty mid object func"
  have "r_type ?r = ty \<and> m_object ?r = object \<and> m_receiver ?r = func" by (simp add: make_receiver_def)
  then show ?thesis
    using listen_step [OF assms, of ?r] by (auto simp: table_listen_def split: if_splits)
qed

theorem interface_listen_result_witness:
  "\<exists>d'. interface_listen demo_bus 3 7 40 5 = Inr (False, d') \<and> table_of d' 7 = [demo_receiver]"
  using interface_listen_result [OF owned_demo(1), of 3 7 40 5]
  by (auto simp: owned_demo(2) make_receiver_def demo_receiver_def)

text \<open>
  C16: Dispatching an id calls every receiver registered under it whose object is
  not null, once, in the order of registration, with the dispatched arguments.
\<close>

theorem interface_dispatch_calls:
  assumes "owned d"
  shows "interface_dispatch d object mid data =
    Inr (map (\<lambda>r. \<lparr>c_this = m_object r, c_func = m_receiver r, c_object = object, c_id = mid, c_data = data\<rparr>)
      (filter (\<lambda>r. m_object r \<noteq> 0) (table_of d mid)))"
proof -
  have "concat (map (\<lambda>r. receiver_invoke r object mid data) rs) =
    map (\<lambda>r. \<lparr>c_this = m_object r, c_func = m_receiver r, c_object = object, c_id = mid, c_data = data\<rparr>)
      (filter (\<lambda>r. m_object r \<noteq> 0) rs)" if "\<forall>r \<in> set rs. m_id r = mid" for rs
    using that by (induction rs) (auto simp: receiver_invoke_def)
  then show ?thesis
    using bus.good_ids [OF assms, of mid] by (simp add: bus.send_refines [OF assms] table_dispatch_def)
qed

theorem interface_dispatch_calls_witness:
  "interface_dispatch demo_bus 9 7 ''hi'' =
    Inr [\<lparr>c_this = 40, c_func = 5, c_object = 9, c_id = 7, c_data = ''hi''\<rparr>]"
  using interface_dispatch_calls [OF owned_demo(1), of 9 7 "''hi''"]
  by (simp add: owned_demo(2) demo_receiver_def)

text \<open>
  C17: A receiver that is registered and then unregistered leaves no trace: both
  calls succeed, the lists of every id are what they were before, and the two
  receiver objects the calls created are gone.
\<close>

theorem listen_unlisten_restores:
  assumes "owned d" and "make_receiver ty mid object func \<notin> set (table_of d mid)"
  shows "\<exists>d1 d2. interface_listen d ty mid object func = Inr (True, d1) \<and>
    interface_unlisten d1 ty mid object func = Inr d2 \<and> table_of d2 = table_of d \<and> owned d2"
proof -
  let ?r = "make_receiver ty mid object func"
  have r: "r_type ?r = ty" "m_object ?r = object" "m_receiver ?r = func" "m_id ?r = mid"
    by (simp_all add: make_receiver_def)
  obtain d1 where 1: "interface_listen d ty mid object func = Inr (True, d1)" "owned d1"
    and t1: "table_of d1 = (table_of d)(mid := table_of d mid @ [?r])"
    using listen_step [OF assms(1), of ?r] assms(2) by (auto simp: r table_listen_def)
  obtain d2 where 2: "interface_unlisten d1 ty mid object func = Inr d2" "owned d2"
    and "table_of d2 = table_unlisten (table_of d1) ?r"
    using unlisten_step [OF 1(2), of ?r] by (auto simp: r)
  then have "table_of d2 = table_of d"
    using assms(2) by (simp add: t1 table_unlisten_def r remove1_append)
  with 1 2 show ?thesis by blast
qed

theorem listen_unlisten_restores_witness:
  "\<exists>d1 d2. interface_listen demo_bus 3 7 41 5 = Inr (True, d1) \<and>
    interface_unlisten d1 3 7 41 5 = Inr d2 \<and> table_of d2 7 = [demo_receiver]"
  using listen_unlisten_restores [OF owned_demo(1), of 3 7 41 5]
  by (auto simp: owned_demo(2) demo_receiver_def make_receiver_def)

text \<open>
  C18: After any sequence of calls, \<^verbatim>\<open>clear\<close> deletes every live receiver exactly
  once: it succeeds, no receiver is left in the store and no list remains.
\<close>

theorem interface_clear_frees:
  "\<exists>d d'. run_steps interface_step ops dispatcher_init = Inr d \<and> interface_clear d = Inr d' \<and>
     m_receivers d' = [] \<and> dom (store d') = {}"
  using bus.run_refines [OF owned_init(1), of ops] by (auto simp: interface_clear_owned)

end
