(* ===== verification/Coded_Stream.thy ===== *)
theory Coded_Stream
  imports Prelude
begin

text \<open>
  The part of the Protocol Buffers runtime under
  \<^verbatim>\<open>src/3rd/protobuf-2.6.1/src/google/protobuf\<close> that the generated message classes
  run on: \<^verbatim>\<open>io/coded_stream.h\<close> and \<^verbatim>\<open>io/coded_stream.cc\<close> (varints, tags, limits).
  Writers return the bytes they store at \<^verbatim>\<open>target\<close>.  The reader is the stream
  over one flat array (\<^verbatim>\<open>input_ == NULL\<close>), which is the one that
  \<^verbatim>\<open>ParseFromString\<close> builds.

  Shown here: the unrolled writers produce the base-128 encoding, the size
  functions give its length, all read paths (one-byte, unrolled 32 bit, split
  64 bit and byte by byte) compute the same decoder, and reading a written
  varint gives the value back.
\<close>

section \<open>Writers\<close>

definition WriteVarint32FallbackToArrayInline :: "u32 \<Rightarrow> byte list" where
  "WriteVarint32FallbackToArrayInline value =
     (let t0 = ucast (value OR 0x80);
          t1 = ucast (drop_bit 7 value OR 0x80);
          t2 = ucast (drop_bit 14 value OR 0x80);
          t3 = ucast (drop_bit 21 value OR 0x80)
      in if 2 ^ 7 \<le> value then
           if 2 ^ 14 \<le> value then
             if 2 ^ 21 \<le> value then
               if 2 ^ 28 \<le> value then [t0, t1, t2, t3, ucast (drop_bit 28 value)]
               else [t0, t1, t2, t3 AND 0x7F]
             else [t0, t1, t2 AND 0x7F]
           else [t0, t1 AND 0x7F]
         else [t0 AND 0x7F])"

definition WriteVarint32ToArray :: "u32 \<Rightarrow> byte list" where
  "WriteVarint32ToArray value =
     (if value < 0x80 then [ucast value] else WriteVarint32FallbackToArrayInline value)"

definition WriteTagToArray :: "u32 \<Rightarrow> byte list" where
  "WriteTagToArray value =
     (if value < 2 ^ 7 then [ucast value]
      else if value < 2 ^ 14 then [ucast (value OR 0x80), ucast (drop_bit 7 value)]
      else WriteVarint32FallbackToArrayInline value)"

text \<open>The loop of \<^verbatim>\<open>WriteVarint32\<close> and \<^verbatim>\<open>WriteVarint64\<close> for a nearly full buffer;
  a value of \<open>w\<close> bits takes at most \<open>(w + 6) div 7\<close> rounds.\<close>

function WriteVarintSlow :: "'a::len word \<Rightarrow> byte list" where
  "WriteVarintSlow value =
     (if 0x7F < unat value
      then ((ucast value AND 0x7F) OR 0x80) # WriteVarintSlow (drop_bit 7 value)
      else [ucast value AND 0x7F])"
  by pat_completeness auto

termination
  by (relation "measure unat") (simp_all add: unat_drop_bit)

definition WriteVarint64ToArrayInline :: "u64 \<Rightarrow> byte list" where
  "WriteVarint64ToArrayInline value =
     (let part0 = ucast value :: u32;
          part1 = ucast (drop_bit 28 value) :: u32;
          part2 = ucast (drop_bit 56 value) :: u32;
          sz = (if part2 = 0 then
                  if part1 = 0 then
                    if part0 < 2 ^ 14 then if part0 < 2 ^ 7 then 1 else 2
                    else if part0 < 2 ^ 21 then 3 else 4
                  else if part1 < 2 ^ 14 then if part1 < 2 ^ 7 then 5 else 6
                       else if part1 < 2 ^ 21 then 7 else 8
                else if part2 < 2 ^ 7 then 9 else 10 :: nat);
          t = [ucast (part0 OR 0x80), ucast (drop_bit 7 part0 OR 0x80),
               ucast (drop_bit 14 part0 OR 0x80), ucast (drop_bit 21 part0 OR 0x80),
               ucast (part1 OR 0x80), ucast (drop_bit 7 part1 OR 0x80),
               ucast (drop_bit 14 part1 OR 0x80), ucast (drop_bit 21 part1 OR 0x80),
               ucast (part2 OR 0x80), ucast (drop_bit 7 part2 OR 0x80)]
      in (take sz t)[sz - 1 := t ! (sz - 1) AND 0x7F])"

definition VarintSize32 :: "u32 \<Rightarrow> nat" where
  "VarintSize32 value =
     (if value < 2 ^ 7 then 1
      else if value < 2 ^ 14 then 2
      else if value < 2 ^ 21 then 3
      else if value < 2 ^ 28 then 4
      else 5)"

definition VarintSize64 :: "u64 \<Rightarrow> nat" where
  "VarintSize64 value =
     (if value < 2 ^ 35 then
        if value < 2 ^ 7 then 1 else if value < 2 ^ 14 then 2 else if value < 2 ^ 21 then 3
        else if value < 2 ^ 28 then 4 else 5
      else if value < 2 ^ 42 then 6 else if value < 2 ^ 49 then 7 else if value < 2 ^ 56 then 8
      else if value < 2 ^ 63 then 9 else 10)"

definition WriteStringWithSizeToArray :: "byte list \<Rightarrow> byte list" where
  "WriteStringWithSizeToArray str = WriteVarint32ToArray (of_nat (length str)) @ str"

section \<open>Base-128 encoding\<close>

fun varint :: "nat \<Rightarrow> byte list" where
  "varint n =
     (if n < 128 then [of_nat n] else of_nat (n mod 128 + 128) # varint (n div 128))"

declare varint.simps [simp del]

lemma varint_small: "n < 128 \<Longrightarrow> varint n = [of_nat n]"
  by (simp add: varint.simps)

lemma varint_big: "128 \<le> n \<Longrightarrow> varint n = of_nat (n mod 128 + 128) # varint (n div 128)"
  by (subst varint.simps) simp

lemma and_7F: "b AND 0x7F = take_bit 7 (b :: byte)"
  by (simp add: take_bit_eq_mask mask_eq_exp_minus_1)

lemma or_80: "b OR 0x80 = take_bit 7 b + (0x80 :: byte)"
proof -
  have "b OR 0x80 = take_bit 7 b OR 0x80"
    by (rule bit_eqI) (auto simp: bit_or_iff bit_take_bit_iff less_Suc_eq numeral_eq_Suc dest: bit_imp_le_length)
  also have "\<dots> = take_bit 7 b + 0x80"
    by (rule disjunctive_add [symmetric]) (auto simp: bit_take_bit_iff less_Suc_eq numeral_eq_Suc)
  finally show ?thesis .
qed


lemma cont_byte:
  fixes w :: u32
  shows "(ucast (w OR 0x80) :: byte) = of_nat (unat w mod 128 + 128)"
proof -
  have "(ucast (w OR 0x80) :: byte) = take_bit 7 (ucast w) + 0x80"
    by (simp add: unsigned_or_eq or_80)
  also have "take_bit 7 (ucast w :: byte) = of_nat (unat w mod 128)"
    by (simp only: word_unat_eq_iff unat_take_bit unat_ucast_mod unat_of_nat_byte) (simp add: mod_mod_cancel)
  finally show ?thesis by simp
qed

lemma last_byte:
  fixes w :: u32
  shows "(ucast (w OR 0x80) AND 0x7F :: byte) = of_nat (unat w mod 128)"
proof -
  have "(ucast (w OR 0x80) AND 0x7F :: byte) = take_bit 7 (of_nat (unat w mod 128 + 128))"
    by (simp only: cont_byte and_7F)
  also have "\<dots> = of_nat ((unat w mod 128 + 128) mod 128)"
    by (simp only: word_unat_eq_iff unat_take_bit unat_of_nat_byte) (simp add: mod_mod_cancel)
  finally show ?thesis by simp
qed

lemma plain_byte: "unat w < 256 \<Longrightarrow> (ucast w :: byte) = of_nat (unat w)"
  by (simp add: word_unat_eq_iff unat_ucast_mod unsigned_of_nat take_bit_eq_mod)

lemma div_128: "n div 128 div 128 = n div (16384 :: nat)" "n div 16384 div 128 = n div (2097152 :: nat)"
  "n div 2097152 div 128 = n div (268435456 :: nat)"
  by (simp_all add: div_mult2_eq [symmetric])

text \<open>The base-128 digits of a value, spelled out up to five bytes.\<close>

lemma varint_upto5:
  "n < 2 ^ 7 \<Longrightarrow> varint n = [of_nat n]"
  "2 ^ 7 \<le> n \<Longrightarrow> n < 2 ^ 14 \<Longrightarrow> varint n = [of_nat (n mod 128 + 128), of_nat (n div 2 ^ 7)]"
  "2 ^ 14 \<le> n \<Longrightarrow> n < 2 ^ 21 \<Longrightarrow> varint n =
    [of_nat (n mod 128 + 128), of_nat (n div 2 ^ 7 mod 128 + 128), of_nat (n div 2 ^ 14)]"
  "2 ^ 21 \<le> n \<Longrightarrow> n < 2 ^ 28 \<Longrightarrow> varint n =
    [of_nat (n mod 128 + 128), of_nat (n div 2 ^ 7 mod 128 + 128), of_nat (n div 2 ^ 14 mod 128 + 128),
     of_nat (n div 2 ^ 21)]"
  "2 ^ 28 \<le> n \<Longrightarrow> varint n =
    [of_nat (n mod 128 + 128), of_nat (n div 2 ^ 7 mod 128 + 128), of_nat (n div 2 ^ 14 mod 128 + 128),
     of_nat (n div 2 ^ 21 mod 128 + 128)] @ varint (n div 2 ^ 28)"
proof -
  have s: "m < 128 \<Longrightarrow> varint m = [of_nat m]" and
    b: "128 \<le> m \<Longrightarrow> varint m = of_nat (m mod 128 + 128) # varint (m div 128)" for m
    by (simp_all only: varint_small varint_big)
  have d: "m div 2 ^ 7 = m div 128" for m :: nat by simp
  show "n < 2 ^ 7 \<Longrightarrow> varint n = [of_nat n]" by (simp add: s)
  show "2 ^ 7 \<le> n \<Longrightarrow> n < 2 ^ 14 \<Longrightarrow> varint n = [of_nat (n mod 128 + 128), of_nat (n div 2 ^ 7)]"
    by (simp only: b [of n] d s [of "n div 128"]) (simp add: s b)
  show "2 ^ 14 \<le> n \<Longrightarrow> n < 2 ^ 21 \<Longrightarrow> varint n =
    [of_nat (n mod 128 + 128), of_nat (n div 2 ^ 7 mod 128 + 128), of_nat (n div 2 ^ 14)]"
    using b [of n] b [of "n div 128"] s [of "n div 2 ^ 14"] by (simp add: div_128 d)
  show "2 ^ 21 \<le> n \<Longrightarrow> n < 2 ^ 28 \<Longrightarrow> varint n =
    [of_nat (n mod 128 + 128), of_nat (n div 2 ^ 7 mod 128 + 128), of_nat (n div 2 ^ 14 mod 128 + 128),
     of_nat (n div 2 ^ 21)]"
    using b [of n] b [of "n div 128"] b [of "n div 2 ^ 14"] s [of "n div 2 ^ 21"] by (simp add: div_128 d)
  show "2 ^ 28 \<le> n \<Longrightarrow> varint n =
    [of_nat (n mod 128 + 128), of_nat (n div 2 ^ 7 mod 128 + 128), of_nat (n div 2 ^ 14 mod 128 + 128),
     of_nat (n div 2 ^ 21 mod 128 + 128)] @ varint (n div 2 ^ 28)"
    using b [of n] b [of "n div 128"] b [of "n div 2 ^ 14"] b [of "n div 2 ^ 21"] by (simp add: div_128 d)
qed


lemmas word_cmp = word_less_pow2_iff word_pow2_le_iff

lemma mod_128_small: "n div m < 128 \<Longrightarrow> n div m mod 128 = n div (m :: nat)"
  by simp

lemma WriteVarint32FallbackToArrayInline_varint:
  "WriteVarint32FallbackToArrayInline v = varint (unat v)"
proof -
  let ?n = "unat v"
  have n: "?n < 2 ^ 32" using unsigned_less [of v] by simp
  have top: "(ucast (drop_bit 28 v) :: byte) = of_nat (?n div 2 ^ 28)"
    using n by (subst plain_byte) (simp_all add: unat_drop_bit)
  have v28: "varint (?n div 2 ^ 28) = [of_nat (?n div 2 ^ 28)]"
    using n by (intro varint_upto5(1)) simp
  consider "?n < 2 ^ 7" | "2 ^ 7 \<le> ?n" "?n < 2 ^ 14" | "2 ^ 14 \<le> ?n" "?n < 2 ^ 21"
    | "2 ^ 21 \<le> ?n" "?n < 2 ^ 28" | "2 ^ 28 \<le> ?n" by linarith
  then show ?thesis
    unfolding WriteVarint32FallbackToArrayInline_def Let_def top last_byte
    unfolding cont_byte unat_drop_bit
    by cases (simp_all add: word_le_nat_alt varint_upto5 v28 [simplified])
qed

lemma WriteVarint32ToArray_varint [simp]: "WriteVarint32ToArray v = varint (unat v)"
  by (simp add: WriteVarint32ToArray_def WriteVarint32FallbackToArrayInline_varint word_less_nat_alt
      varint_small)

lemma WriteTagToArray_varint [simp]: "WriteTagToArray v = varint (unat v)"
proof (cases "unat v < 2 ^ 14")
  case True
  then have "(ucast (drop_bit 7 v) :: byte) = of_nat (unat v div 2 ^ 7)"
    by (subst plain_byte) (simp_all add: unat_drop_bit)
  with True show ?thesis
    using varint_upto5(2) [of "unat v"]
    by (auto simp: WriteTagToArray_def word_less_nat_alt varint_small cont_byte)
qed (simp add: WriteTagToArray_def word_less_nat_alt WriteVarint32FallbackToArrayInline_varint)

lemma slow_byte: "(ucast w AND 0x7F :: byte) = of_nat (unat w mod 128)"
  by (simp only: and_7F word_unat_eq_iff unat_take_bit unat_ucast_mod unat_of_nat_byte)
    (simp add: mod_mod_cancel)

lemma WriteVarintSlow_varint: "WriteVarintSlow v = varint (unat v)"
proof (induction v rule: WriteVarintSlow.induct)
  case (1 v)
  have or: "(of_nat (unat v mod 128) :: byte) OR 0x80 = of_nat (unat v mod 128 + 128)"
    by (simp only: or_80 word_unat_eq_iff) (simp add: unat_word_ariths unat_take_bit unat_of_nat_byte)
  show ?case
  proof (cases "0x7F < unat v")
    case True
    then show ?thesis
      using 1 by (subst WriteVarintSlow.simps) (simp add: slow_byte or varint_big [of "unat v"] unat_drop_bit)
  next
    case False
    then show ?thesis
      by (subst WriteVarintSlow.simps) (simp add: slow_byte varint_small)
  qed
qed

lemma digit_mod:
  "k + 7 \<le> m \<Longrightarrow> n mod 2 ^ m div 2 ^ k mod 128 = n div 2 ^ k mod (128 :: nat)"
proof -
  assume "k + 7 \<le> m"
  then have "take_bit 7 (drop_bit k (take_bit m n)) = take_bit 7 (drop_bit k n)"
    by (intro bit_eqI) (auto simp: bit_simps)
  then show ?thesis by (simp add: take_bit_eq_mod drop_bit_eq_div)
qed

definition digit :: "nat \<Rightarrow> nat \<Rightarrow> byte" where
  "digit n k = of_nat (n div 2 ^ (7 * k) mod 128 + 128)"

definition final_digit :: "nat \<Rightarrow> nat \<Rightarrow> byte" where
  "final_digit n k = of_nat (n div 2 ^ (7 * k) mod 128)"

lemma digit_and_7F: "digit n k AND 0x7F = final_digit n k"
  by (simp only: digit_def final_digit_def and_7F word_unat_eq_iff unat_take_bit unat_of_nat_byte)
    (simp add: mod_mod_cancel)

lemma digit_shift: "digit (n div 2 ^ (7 * j)) k = digit n (j + k)"
  "final_digit (n div 2 ^ (7 * j)) k = final_digit n (j + k)"
  by (simp_all add: digit_def final_digit_def div_mult2_eq [symmetric] power_add [symmetric] algebra_simps)

lemma varint_digits:
  "n < 2 ^ (7 * Suc k) \<Longrightarrow> (k = 0 \<or> 2 ^ (7 * k) \<le> n) \<Longrightarrow>
    varint n = map (digit n) [0..<k] @ [final_digit n k]"
proof (induction k arbitrary: n)
  case 0
  then show ?case by (simp add: varint_small final_digit_def)
next
  case (Suc k)
  have "128 * 1 \<le> 128 * (2 :: nat) ^ (7 * k)" by (intro mult_le_mono2) simp
  also have "\<dots> \<le> n" using Suc.prems(2) by (simp add: power_add)
  finally have ge: "128 \<le> n" by simp
  have "varint (n div 128) = map (digit (n div 128)) [0..<k] @ [final_digit (n div 128) k]"
  proof (rule Suc.IH)
    show "n div 128 < 2 ^ (7 * Suc k)" using Suc.prems(1) by (simp add: power_add less_mult_imp_div_less)
    have "2 ^ (7 * k) * 128 \<le> n" using Suc.prems(2) by (simp add: power_add algebra_simps)
    then show "k = 0 \<or> 2 ^ (7 * k) \<le> n div 128" by (simp add: less_eq_div_iff_mult_less_eq)
  qed
  moreover have "digit (n div 128) i = digit n (Suc i)" "final_digit (n div 128) i = final_digit n (Suc i)" for i
    using digit_shift [of n 1 i] by simp_all
  moreover have "map (digit n) [0..<Suc k] = digit n 0 # map (\<lambda>i. digit n (Suc i)) [0..<k]"
    by (simp add: upt_conv_Cons map_Suc_upt [symmetric] del: upt_Suc)
  ultimately show ?case
    using ge by (simp add: varint_big digit_def [of n 0] del: upt_Suc)
qed

lemma list_update_take_last:
  "sz = Suc k \<Longrightarrow> k < length xs \<Longrightarrow> (take sz xs)[sz - 1 := y] = take k xs @ [y]"
  by (simp add: take_Suc_conv_app_nth list_update_append)

lemma WriteVarint64ToArrayInline_varint: "WriteVarint64ToArrayInline v = varint (unat v)"
proof -
  let ?n = "unat v"
  let ?p0 = "ucast v :: u32" and ?p1 = "ucast (drop_bit 28 v) :: u32" and ?p2 = "ucast (drop_bit 56 v) :: u32"
  have n: "?n < 2 ^ 64" using unsigned_less [of v] by simp
  have p: "unat ?p0 = ?n mod 2 ^ 32" "unat ?p1 = ?n div 2 ^ 28 mod 2 ^ 32" "unat ?p2 = ?n div 2 ^ 56"
    using n by (simp_all add: unat_ucast_mod unat_drop_bit)
  have e: "m mod 2 ^ 32 div 2 ^ (7 * i) mod 128 = m div 2 ^ (7 * i) mod 128" if "i < 4" for m i :: nat
    using that by (intro digit_mod) simp
  have q: "?n div 2 ^ 28 div 2 ^ (7 * i) = ?n div 2 ^ (7 * (4 + i))"
      "?n div 2 ^ 56 div 2 ^ (7 * i) = ?n div 2 ^ (7 * (8 + i))" for i
    by (simp_all add: div_mult2_eq [symmetric] power_add)
  have d: "(ucast (drop_bit (7 * i) ?p0 OR 0x80) :: byte) = digit ?n i"
      "(ucast (drop_bit (7 * i) ?p1 OR 0x80) :: byte) = digit ?n (4 + i)" if "i < 4" for i
    by (simp_all only: cont_byte unat_drop_bit p digit_def e [OF that] q)
  have d8: "(ucast (drop_bit (7 * i) ?p2 OR 0x80) :: byte) = digit ?n (8 + i)" for i
    by (simp only: cont_byte unat_drop_bit p digit_def q)
  define t where "t = map (digit ?n) [0..<10]"
  define sz where "sz = (if ?p2 = 0 then if ?p1 = 0 then if ?p0 < 2 ^ 14 then if ?p0 < 2 ^ 7 then 1 else 2
      else if ?p0 < 2 ^ 21 then 3 else 4 else if ?p1 < 2 ^ 14 then if ?p1 < 2 ^ 7 then 5 else 6
      else if ?p1 < 2 ^ 21 then 7 else 8 else if ?p2 < 2 ^ 7 then 9 else 10 :: nat)"
  have t: "[ucast (?p0 OR 0x80), ucast (drop_bit 7 ?p0 OR 0x80), ucast (drop_bit 14 ?p0 OR 0x80),
      ucast (drop_bit 21 ?p0 OR 0x80), ucast (?p1 OR 0x80), ucast (drop_bit 7 ?p1 OR 0x80),
      ucast (drop_bit 14 ?p1 OR 0x80), ucast (drop_bit 21 ?p1 OR 0x80), ucast (?p2 OR 0x80),
      ucast (drop_bit 7 ?p2 OR 0x80)] = t"
    using d(1) [of 0] d(1) [of 1] d(1) [of 2] d(1) [of 3] d(2) [of 0] d(2) [of 1] d(2) [of 2] d(2) [of 3]
      d8 [of 0] d8 [of 1] by (simp add: t_def upt_rec numeral_eq_Suc)
  have sz: "1 \<le> sz \<and> sz \<le> 10 \<and> ?n < 2 ^ (7 * sz) \<and> (sz = 1 \<or> 2 ^ (7 * (sz - 1)) \<le> ?n)"
    using n unfolding sz_def by (auto simp: word_less_nat_alt p word_unat_eq_iff)
  then obtain k where k: "sz = Suc k" "k < 10" by (cases sz) auto
  have "WriteVarint64ToArrayInline v = (take sz t)[sz - 1 := t ! (sz - 1) AND 0x7F]"
    unfolding WriteVarint64ToArrayInline_def Let_def t sz_def [symmetric] ..
  also have "\<dots> = map (digit ?n) [0..<k] @ [final_digit ?n k]"
    using k by (subst list_update_take_last [OF k(1)]) (simp_all add: t_def take_map digit_and_7F)
  also have "\<dots> = varint ?n" using varint_digits [of ?n k] sz k by simp
  finally show ?thesis .
qed

lemma length_varint:
  "n < 2 ^ (7 * Suc k) \<Longrightarrow> k = 0 \<or> 2 ^ (7 * k) \<le> n \<Longrightarrow> length (varint n) = Suc k"
  using varint_digits [of n k] by simp

lemma VarintSize32_length [simp]: "VarintSize32 v = length (varint (unat v))"
proof -
  let ?n = "unat v"
  have n: "?n < 2 ^ 32" using unsigned_less [of v] by simp
  then consider "?n < 2 ^ 7" | "2 ^ 7 \<le> ?n" "?n < 2 ^ 14" | "2 ^ 14 \<le> ?n" "?n < 2 ^ 21"
    | "2 ^ 21 \<le> ?n" "?n < 2 ^ 28" | "2 ^ 28 \<le> ?n" by linarith
  then show ?thesis
    unfolding VarintSize32_def
    using n length_varint [of ?n 0] length_varint [of ?n 1] length_varint [of ?n 2] length_varint [of ?n 3]
      length_varint [of ?n 4] by cases (simp_all add: word_less_nat_alt)
qed

lemma VarintSize64_length [simp]: "VarintSize64 v = length (varint (unat v))"
proof -
  let ?n = "unat v"
  have n: "?n < 2 ^ 64" using unsigned_less [of v] by simp
  define k where "k = VarintSize64 v - 1"
  have "VarintSize64 v = Suc k \<and> ?n < 2 ^ (7 * Suc k) \<and> (k = 0 \<or> 2 ^ (7 * k) \<le> ?n)"
    using n unfolding k_def VarintSize64_def by (auto simp: word_less_nat_alt)
  then show ?thesis using length_varint [of ?n k] by simp
qed

lemma length_varint_pos [simp]: "0 < length (varint n)" "varint n \<noteq> []"
  by (subst varint.simps, simp)+

section \<open>Reader\<close>

text \<open>
  \<^verbatim>\<open>CodedInputStream\<close> over a flat array: \<open>buf\<close> is the range
  \<^verbatim>\<open>[buffer_, buffer_end_)\<close> and \<open>after_limit\<close> the \<^verbatim>\<open>buffer_size_after_limit_\<close> bytes
  that a limit hides behind it.
\<close>

record cis =
  buf :: "byte list"
  after_limit :: "byte list"
  total_bytes_read :: int
  current_limit :: int
  total_bytes_limit :: int
  last_tag :: u32
  legitimate_message_end :: bool
  recursion_depth :: int

definition kMaxVarintBytes :: nat where
  "kMaxVarintBytes = 10"

definition CodedInputStream :: "byte list \<Rightarrow> cis" where
  "CodedInputStream data =
     \<lparr>buf = data, after_limit = [], total_bytes_read = int (length data),
      current_limit = int (length data), total_bytes_limit = 64 * 2 ^ 20, last_tag = 0,
      legitimate_message_end = False, recursion_depth = 0\<rparr>"

definition Advance :: "nat \<Rightarrow> cis \<Rightarrow> cis" where
  "Advance n s = s\<lparr>buf := drop n (buf s)\<rparr>"

text \<open>
  \<^verbatim>\<open>Refresh()\<close> on a flat stream: stopped by a limit it returns false; beyond it
  the code would call \<^verbatim>\<open>Next\<close> on the null \<^verbatim>\<open>input_\<close>.  \<open>flat\<close> says that a limit is
  always in the way, so every reader below treats an empty buffer as the end.
\<close>

definition Refresh_stops :: "cis \<Rightarrow> bool" where
  "Refresh_stops s \<longleftrightarrow> after_limit s \<noteq> [] \<or> total_bytes_read s = current_limit s"

text \<open>\<^verbatim>\<open>ReadVarint32FromArray\<close>: byte \<open>n\<close> of the varint; the four subtractions
  remove the continuation bits, bytes from the sixth on are dropped.\<close>

fun ReadVarint32FromArray :: "nat \<Rightarrow> u32 \<Rightarrow> byte list \<Rightarrow> (u32 \<times> byte list) option" where
  "ReadVarint32FromArray n result [] = None"
| "ReadVarint32FromArray n result (b # ptr) =
     (let result' = (if n < 5 then result + push_bit (7 * n) (ucast b) else result)
      in if b AND 0x80 = 0 then Some (result', ptr)
         else if n = kMaxVarintBytes - 1 then None
         else ReadVarint32FromArray (Suc n)
                (if n < 4 then result' - push_bit (7 * n) 0x80 else result') ptr)"

text \<open>The fast path of \<^verbatim>\<open>ReadVarint64Fallback\<close> with its three 32-bit pieces.\<close>

fun ReadVarint64FromArray ::
    "nat \<Rightarrow> u32 \<Rightarrow> u32 \<Rightarrow> u32 \<Rightarrow> byte list \<Rightarrow> (u64 \<times> byte list) option" where
  "ReadVarint64FromArray n part0 part1 part2 [] = None"
| "ReadVarint64FromArray n part0 part1 part2 (b # ptr) =
     (let sh = push_bit (7 * (n mod 4)) (ucast b);
          cont = push_bit (7 * (n mod 4)) 0x80;
          p0 = (if n < 4 then part0 + sh else part0);
          p1 = (if 4 \<le> n \<and> n < 8 then part1 + sh else part1);
          p2 = (if 8 \<le> n then part2 + sh else part2)
      in if b AND 0x80 = 0
         then Some (ucast p0 OR push_bit 28 (ucast p1) OR push_bit 56 (ucast p2), ptr)
         else if n = kMaxVarintBytes - 1 then None
         else ReadVarint64FromArray (Suc n)
                (if n < 4 then p0 - cont else p0)
                (if 4 \<le> n \<and> n < 8 then p1 - cont else p1)
                (if n = 8 then p2 - cont else p2) ptr)"

text \<open>\<^verbatim>\<open>ReadVarint64Slow\<close>: byte by byte; the second component is the buffer the
  loop leaves behind, also when it fails.\<close>

fun ReadVarint64SlowLoop :: "nat \<Rightarrow> u64 \<Rightarrow> byte list \<Rightarrow> u64 option \<times> byte list" where
  "ReadVarint64SlowLoop cnt result [] = (None, [])"
| "ReadVarint64SlowLoop cnt result (b # ptr) =
     (if cnt = kMaxVarintBytes then (None, b # ptr)
      else let result' = result OR push_bit (7 * cnt) (ucast (b AND 0x7F))
           in if b AND 0x80 \<noteq> 0 then ReadVarint64SlowLoop (Suc cnt) result' ptr
              else (Some result', ptr))"

definition fast_ok :: "byte list \<Rightarrow> bool" where
  "fast_ok bs \<longleftrightarrow> kMaxVarintBytes \<le> length bs \<or> (bs \<noteq> [] \<and> last bs AND 0x80 = 0)"

definition ReadVarint64Fallback :: "cis \<Rightarrow> u64 option \<times> cis" where
  "ReadVarint64Fallback s =
     (if fast_ok (buf s)
      then case ReadVarint64FromArray 0 0 0 0 (buf s) of
             None \<Rightarrow> (None, s)
           | Some (v, rest) \<Rightarrow> (Some v, s\<lparr>buf := rest\<rparr>)
      else case ReadVarint64SlowLoop 0 0 (buf s) of (v, rest) \<Rightarrow> (v, s\<lparr>buf := rest\<rparr>))"

definition ReadVarint64 :: "cis \<Rightarrow> u64 option \<times> cis" where
  "ReadVarint64 s =
     (case buf s of
        b # rest \<Rightarrow> if b < 0x80 then (Some (ucast b), s\<lparr>buf := rest\<rparr>) else ReadVarint64Fallback s
      | [] \<Rightarrow> ReadVarint64Fallback s)"

definition ReadVarint32Fallback :: "cis \<Rightarrow> u32 option \<times> cis" where
  "ReadVarint32Fallback s =
     (if fast_ok (buf s)
      then case ReadVarint32FromArray 0 0 (buf s) of
             None \<Rightarrow> (None, s)
           | Some (v, rest) \<Rightarrow> (Some v, s\<lparr>buf := rest\<rparr>)
      else case ReadVarint64Fallback s of (v, s') \<Rightarrow> (map_option ucast v, s'))"

definition ReadVarint32 :: "cis \<Rightarrow> u32 option \<times> cis" where
  "ReadVarint32 s =
     (case buf s of
        b # rest \<Rightarrow> if b < 0x80 then (Some (ucast b), s\<lparr>buf := rest\<rparr>) else ReadVarint32Fallback s
      | [] \<Rightarrow> ReadVarint32Fallback s)"

text \<open>\<^verbatim>\<open>ReadTagSlow\<close> and \<^verbatim>\<open>ReadTagFallback\<close>; a failed read is the tag 0.\<close>

definition ReadTagSlow :: "cis \<Rightarrow> u32 \<times> cis" where
  "ReadTagSlow s =
     (if buf s = []
      then (0, s\<lparr>legitimate_message_end :=
                 (if total_bytes_limit s \<le> total_bytes_read s - int (length (after_limit s))
                  then current_limit s = total_bytes_limit s else True)\<rparr>)
      else case ReadVarint64 s of
             (None, s') \<Rightarrow> (0, s')
           | (Some v, s') \<Rightarrow> (ucast v, s'))"

definition ReadTagFallback :: "cis \<Rightarrow> u32 \<times> cis" where
  "ReadTagFallback s =
     (if fast_ok (buf s)
      then case ReadVarint32FromArray 0 0 (buf s) of
             None \<Rightarrow> (0, s)
           | Some (tag, rest) \<Rightarrow> (tag, s\<lparr>buf := rest\<rparr>)
      else if buf s = [] \<and> (after_limit s \<noteq> [] \<or> total_bytes_read s = current_limit s) \<and>
              total_bytes_read s - int (length (after_limit s)) < total_bytes_limit s
      then (0, s\<lparr>legitimate_message_end := True\<rparr>)
      else ReadTagSlow s)"

definition ReadTag :: "cis \<Rightarrow> u32 \<times> cis" where
  "ReadTag s =
     (case buf s of
        b # rest \<Rightarrow>
          if b < 0x80 then (ucast b, s\<lparr>buf := rest, last_tag := ucast b\<rparr>)
          else (case ReadTagFallback s of (t, s') \<Rightarrow> (t, s'\<lparr>last_tag := t\<rparr>))
      | [] \<Rightarrow> (case ReadTagFallback s of (t, s') \<Rightarrow> (t, s'\<lparr>last_tag := t\<rparr>)))"

text \<open>\<^verbatim>\<open>ReadTagWithCutoff(cutoff)\<close>: the tag and whether it is at most the cutoff.\<close>

definition ReadTagWithCutoff :: "u32 \<Rightarrow> cis \<Rightarrow> (u32 \<times> bool) \<times> cis" where
  "ReadTagWithCutoff cutoff s =
     (let slow = (case ReadTagFallback s of (t, s') \<Rightarrow> ((t, t - 1 < cutoff), s'\<lparr>last_tag := t\<rparr>))
      in case buf s of
           b # rest \<Rightarrow>
             if 0 < sint b
             then ((ucast b, 0x7F \<le> cutoff \<or> ucast b \<le> cutoff),
                   s\<lparr>buf := rest, last_tag := ucast b\<rparr>)
             else if 0x80 \<le> cutoff \<and> rest \<noteq> [] \<and> 0x80 \<le> (b AND NOT (hd rest))
             then let tag = 2 ^ 7 * ucast (hd rest) + (ucast b - 0x80)
                  in ((tag, 0x3FFF \<le> cutoff \<or> tag \<le> cutoff),
                      s\<lparr>buf := tl rest, last_tag := tag\<rparr>)
             else slow
         | [] \<Rightarrow> slow)"

text \<open>\<^verbatim>\<open>ExpectTag\<close> for one-byte tags (all tags of the messages are below 128).\<close>

definition ExpectTag :: "u32 \<Rightarrow> cis \<Rightarrow> cis option" where
  "ExpectTag expected s =
     (if expected < 2 ^ 7
      then if buf s \<noteq> [] \<and> ucast (hd (buf s)) = expected then Some (Advance 1 s) else None
      else if expected < 2 ^ 14
      then if 2 \<le> length (buf s) \<and> buf s ! 0 = ucast (expected OR 0x80) \<and>
              buf s ! 1 = ucast (drop_bit 7 expected)
           then Some (Advance 2 s) else None
      else None)"

definition ExpectAtEnd :: "cis \<Rightarrow> cis option" where
  "ExpectAtEnd s =
     (if buf s = [] \<and> (after_limit s \<noteq> [] \<or> total_bytes_read s = current_limit s)
      then Some (s\<lparr>last_tag := 0, legitimate_message_end := True\<rparr>) else None)"

text \<open>Limits.\<close>

definition CurrentPosition :: "cis \<Rightarrow> int" where
  "CurrentPosition s = total_bytes_read s - (int (length (buf s)) + int (length (after_limit s)))"

definition RecomputeBufferLimits :: "cis \<Rightarrow> cis" where
  "RecomputeBufferLimits s =
     (let bytes = buf s @ after_limit s;
          closest_limit = min (current_limit s) (total_bytes_limit s)
      in if closest_limit < total_bytes_read s
         then let n = length bytes - nat (total_bytes_read s - closest_limit)
              in s\<lparr>buf := take n bytes, after_limit := drop n bytes\<rparr>
         else s\<lparr>buf := bytes, after_limit := []\<rparr>)"

definition INT_MAX :: int where
  "INT_MAX = 2 ^ 31 - 1"

definition PushLimit :: "int \<Rightarrow> cis \<Rightarrow> int \<times> cis" where
  "PushLimit byte_limit s =
     (let old_limit = current_limit s;
          new_limit = (if 0 \<le> byte_limit \<and> byte_limit \<le> INT_MAX - CurrentPosition s
                       then CurrentPosition s + byte_limit else INT_MAX)
      in (old_limit, RecomputeBufferLimits (s\<lparr>current_limit := min new_limit old_limit\<rparr>)))"

definition PopLimit :: "int \<Rightarrow> cis \<Rightarrow> cis" where
  "PopLimit limit s =
     (RecomputeBufferLimits (s\<lparr>current_limit := limit\<rparr>))\<lparr>legitimate_message_end := False\<rparr>"

definition IncrementRecursionDepth :: "cis \<Rightarrow> bool \<times> cis" where
  "IncrementRecursionDepth s =
     (recursion_depth s + 1 \<le> 100, s\<lparr>recursion_depth := recursion_depth s + 1\<rparr>)"

definition DecrementRecursionDepth :: "cis \<Rightarrow> cis" where
  "DecrementRecursionDepth s =
     (if 0 < recursion_depth s then s\<lparr>recursion_depth := recursion_depth s - 1\<rparr> else s)"

text \<open>
  \<^verbatim>\<open>InternalReadStringInline(buffer, size)\<close> with \<^verbatim>\<open>ReadStringFallback\<close>: success, the
  string afterwards (also when the data is cut short) and the stream.  The size
  is the \<^verbatim>\<open>uint32\<close> read from the wire, converted to \<^verbatim>\<open>int\<close>.
\<close>

definition InternalReadStringInline :: "u32 \<Rightarrow> byte list \<Rightarrow> cis \<Rightarrow> bool \<times> byte list \<times> cis" where
  "InternalReadStringInline sz str s =
     (if sint sz < 0 then (False, str, s)
      else if unat sz \<le> length (buf s)
      then (True, take (unat sz) (buf s), Advance (unat sz) s)
      else (False, buf s, Advance (length (buf s)) s))"

definition ReadLittleEndian32 :: "cis \<Rightarrow> u32 option \<times> cis" where
  "ReadLittleEndian32 s =
     (if 4 \<le> length (buf s) then (Some (word32 (take 4 (buf s))), Advance 4 s)
      else (None, Advance (length (buf s)) s))"

definition ReadLittleEndian64 :: "cis \<Rightarrow> u64 option \<times> cis" where
  "ReadLittleEndian64 s =
     (if 8 \<le> length (buf s) then (Some (word64 (take 8 (buf s))), Advance 8 s)
      else (None, Advance (length (buf s)) s))"

section \<open>The reference decoder\<close>

text \<open>At most ten bytes, seven bits each, least significant first.\<close>

fun decode_varint :: "nat \<Rightarrow> byte list \<Rightarrow> (nat \<times> byte list) option" where
  "decode_varint n [] = None"
| "decode_varint n (b # bs) =
     (if unat b < 128 then Some (unat b, bs)
      else if n = 9 then None
      else case decode_varint (Suc n) bs of
             None \<Rightarrow> None
           | Some (v, rest) \<Rightarrow> Some (unat b - 128 + 128 * v, rest))"

lemma bit_7: "bit (b :: byte) 7 \<longleftrightarrow> \<not> unat b < 128"
proof -
  have "bit b 7 = bit (unat b) 7" by (simp add: bit_unsigned_iff)
  also have "\<dots> = odd (unat b div 2 ^ 7)" by (rule bit_iff_odd)
  also have "\<dots> \<longleftrightarrow> \<not> unat b < 128"
  proof -
    have "unat b < 256" using unsigned_less [of b] by simp
    then have "unat b div 128 < 2" by (simp add: less_mult_imp_div_less)
    then have "unat b div 128 = 0 \<or> unat b div 128 = 1" by linarith
    then show ?thesis by (auto simp: div_eq_0_iff)
  qed
  finally show ?thesis .
qed

lemma high_bit: "b AND 0x80 = 0 \<longleftrightarrow> unat (b :: byte) < 128"
  using bit_iff_and_push_bit_not_eq_0 [of b 7] bit_7 [of b] by simp

lemma high_bit_less: "b < 0x80 \<longleftrightarrow> unat (b :: byte) < 128"
  by (simp add: word_less_nat_alt)

lemma sint_byte: "sint (b :: byte) = (if unat b < 128 then int (unat b) else int (unat b) - 256)"
proof -
  have "sint b = take_bit 8 (uint b) - 256 * of_bool (bit (uint b) 7)"
    by (simp add: sint_uint signed_take_bit_eq_take_bit_minus)
  also have "take_bit 8 (uint b) = int (unat b)"
  proof -
    have "uint b < 256" using unsigned_less [of b] by simp
    then show ?thesis by (simp add: take_bit_int_eq_self)
  qed
  also have "bit (uint b) 7 \<longleftrightarrow> \<not> unat b < 128" by (simp add: bit_unsigned_iff bit_7)
  finally show ?thesis by simp
qed

lemma sint_pos: "0 < sint b \<longleftrightarrow> 0 < unat b \<and> unat (b :: byte) < 128"
proof -
  have "unat b < 256" using unsigned_less [of b] by simp
  moreover have "0 < (if n < 128 then int n else int n - 256) \<longleftrightarrow> 0 < n \<and> n < 128"
    if "n < 256" for n :: nat using that by auto
  ultimately have "0 < (if unat b < 128 then int (unat b) else int (unat b) - 256) \<longleftrightarrow>
      0 < unat b \<and> unat b < 128" by blast
  then show ?thesis by (simp only: sint_byte)
qed

lemma low_bits: "unat (b AND 0x7F :: byte) = unat b mod 128"
  by (simp only: and_7F unat_take_bit) simp

lemma push_ucast_byte: "push_bit k (ucast b) = (of_nat (unat b * 2 ^ k) :: 'a::len word)"
  by (simp add: push_bit_eq_mult)

lemma push_80: "push_bit k 0x80 = (of_nat (128 * 2 ^ k) :: 'a::len word)"
  by (simp add: push_bit_eq_mult)

lemma of_nat_multiple_zero: "2 ^ LENGTH('a) dvd n \<Longrightarrow> (of_nat n :: 'a::len word) = 0"
  by (simp add: word_of_nat_eq_0_iff)

lemma ReadVarint32FromArray_decode:
  "n < 10 \<Longrightarrow> ReadVarint32FromArray n acc bs =
    map_option (\<lambda>(v, rest). (acc + of_nat (v * 2 ^ (7 * n)), rest)) (decode_varint n bs)"
proof (induction bs arbitrary: n acc)
  case (Cons b bs)
  have far: "(of_nat (m * 2 ^ (7 * n)) :: u32) = 0" if "5 \<le> n" for m
  proof (rule of_nat_multiple_zero)
    have "(2 :: nat) ^ 32 dvd 2 ^ (7 * n)" using that by (intro le_imp_power_dvd) simp
    then show "2 ^ LENGTH(32) dvd m * 2 ^ (7 * n)" by simp
  qed
  show ?case
  proof (cases "unat b < 128")
    case True
    then show ?thesis
      using far [of "unat b"] by (simp add: high_bit Let_def push_ucast_byte)
  next
    case False
    define acc' :: u32 where "acc' = (if n < 4 then (if n < 5 then acc + push_bit (7 * n) (ucast b) else acc)
        - push_bit (7 * n) 0x80 else if n < 5 then acc + push_bit (7 * n) (ucast b) else acc)"
    have step: "acc' = acc + of_nat ((unat b - 128) * 2 ^ (7 * n))"
    proof -
      have "unat b * 2 ^ (7 * n) = (unat b - 128) * 2 ^ (7 * n) + 128 * 2 ^ (7 * n)"
        using False by (simp add: add_mult_distrib [symmetric])
      then have e: "(of_nat (unat b * 2 ^ (7 * n)) :: u32) =
          of_nat ((unat b - 128) * 2 ^ (7 * n)) + of_nat (128 * 2 ^ (7 * n))"
        by (simp only: of_nat_add)
      have four: "(of_nat (128 * 2 ^ (7 * n)) :: u32) = 0" if "n = 4"
        using that by (intro of_nat_multiple_zero) simp
      show ?thesis
        unfolding acc'_def push_ucast_byte push_80 e
        using four far [of "unat b - 128"] by (cases "n = 4"; cases "n < 4") simp_all
    qed
    show ?thesis
    proof (cases "n = 9")
      case True
      with False show ?thesis by (simp add: high_bit Let_def kMaxVarintBytes_def)
    next
      case n9: False
      have pow: "(v :: nat) * 2 ^ (7 * Suc n) = 128 * v * 2 ^ (7 * n)" for v
        by (simp add: power_add)
      have "ReadVarint32FromArray n acc (b # bs) = ReadVarint32FromArray (Suc n) acc' bs"
        using False n9 by (simp add: high_bit Let_def kMaxVarintBytes_def acc'_def)
      also have "\<dots> = map_option (\<lambda>(v, rest). (acc' + of_nat (v * 2 ^ (7 * Suc n)), rest)) (decode_varint (Suc n) bs)"
        using Cons.prems n9 by (intro Cons.IH) simp
      also have "\<dots> = map_option (\<lambda>(v, rest). (acc + of_nat (v * 2 ^ (7 * n)), rest)) (decode_varint n (b # bs))"
        using False n9 unfolding pow step
        by (auto split: option.splits simp: algebra_simps)
      finally show ?thesis .
    qed
  qed
qed simp

lemma byte_less: "unat (b :: byte) < 256"
  using unsigned_less [of b] by simp

lemma unat_of_nat_small: "n < 2 ^ LENGTH('a) \<Longrightarrow> unat (of_nat n :: 'a::len word) = n"
  by (simp add: unsigned_of_nat take_bit_nat_eq_self)

lemma combine_parts:
  assumes "a < 2 ^ 28" and "c < 2 ^ 28" and "e < 2 ^ 32"
  shows "(ucast (of_nat a :: u32) OR push_bit 28 (ucast (of_nat c :: u32)) OR
    push_bit 56 (ucast (of_nat e :: u32)) :: u64) = of_nat (a + c * 2 ^ 28 + e * 2 ^ 56)"
proof -
  have u: "(ucast (of_nat m :: u32) :: u64) = of_nat m" if "m < 2 ^ 32" for m
    using that by (simp add: word_unat_eq_iff unat_ucast_mod unsigned_of_nat take_bit_nat_eq_self)
  have low: "unat (of_nat a + push_bit 28 (of_nat c) :: u64) < 2 ^ 56"
  proof -
    have "of_nat a + push_bit 28 (of_nat c) = (of_nat (a + c * 2 ^ 28) :: u64)"
      by (simp add: push_bit_eq_mult)
    moreover have lt: "a + c * 2 ^ 28 < 2 ^ 56" using assms by simp
    moreover have "unat (of_nat (a + c * 2 ^ 28) :: u64) = a + c * 2 ^ 28"
      using lt by (intro unat_of_nat_small) simp
    ultimately show ?thesis by (simp only:)
  qed
  have "(of_nat a OR push_bit 28 (of_nat c) :: u64) = of_nat a + push_bit 28 (of_nat c)"
    using assms(1) by (intro or_low_high) (simp add: unsigned_of_nat take_bit_nat_eq_self)
  then have "((of_nat a OR push_bit 28 (of_nat c)) OR push_bit 56 (of_nat e) :: u64) =
      of_nat a + push_bit 28 (of_nat c) + push_bit 56 (of_nat e)"
    using or_low_high [OF low] by simp
  moreover have "(ucast (of_nat a :: u32) :: u64) = of_nat a" "(ucast (of_nat c :: u32) :: u64) = of_nat c"
    "(ucast (of_nat e :: u32) :: u64) = of_nat e"
    using assms by (auto intro: u)
  ultimately show ?thesis by (simp add: or.assoc push_bit_eq_mult)
qed

lemma digit_bound: "a < 2 ^ (7 * k) \<Longrightarrow> d < 128 \<Longrightarrow> a + d * 2 ^ (7 * k) < (2 :: nat) ^ (7 * Suc k)"
proof -
  assume a: "a < 2 ^ (7 * k)" and "d < 128"
  then have "d * 2 ^ (7 * k) \<le> 127 * 2 ^ (7 * k)" by (intro mult_le_mono1) linarith
  with a have "a + d * 2 ^ (7 * k) < 128 * 2 ^ (7 * k)" by linarith
  then show ?thesis by (simp add: power_add)
qed

lemma sub_cont:
  assumes "\<not> unat b < 128"
  shows "of_nat x + push_bit k (ucast (b :: byte)) - push_bit k 0x80 =
    (of_nat (x + (unat b - 128) * 2 ^ k) :: 'a::len word)"
proof -
  have "unat b * 2 ^ k = (unat b - 128) * 2 ^ k + 128 * 2 ^ k"
    using assms by (simp add: add_mult_distrib [symmetric])
  then have "(of_nat (unat b * 2 ^ k) :: 'a word) = of_nat ((unat b - 128) * 2 ^ k) + of_nat (128 * 2 ^ k)"
    by (simp only: of_nat_add)
  then show ?thesis unfolding push_ucast_byte push_80 by simp
qed

lemma add_plain: "of_nat x + push_bit k (ucast (b :: byte)) = (of_nat (x + unat b * 2 ^ k) :: 'a::len word)"
  unfolding push_ucast_byte by simp

lemma less_pow2_mono: "x < 2 ^ k \<Longrightarrow> k \<le> m \<Longrightarrow> x < (2 :: nat) ^ m"
  by (erule order_less_le_trans) simp

text \<open>One byte of the split 64-bit read, in the three pieces.\<close>

lemma ReadVarint64FromArray_decode:
  assumes "n < 10" and "a < 2 ^ (7 * min n 4)" and "c < 2 ^ (7 * (min n 8 - 4))" and "e < 2 ^ (7 * (n - 8))"
  shows "ReadVarint64FromArray n (of_nat a) (of_nat c) (of_nat e) bs =
    map_option (\<lambda>(v, rest). (of_nat (a + c * 2 ^ 28 + e * 2 ^ 56 + v * 2 ^ (7 * n)), rest))
      (decode_varint n bs)"
  using assms
proof (induction bs arbitrary: n a c e)
  case (Cons b bs)
  define d where "d = (if unat b < 128 then unat b else unat b - 128)"
  have d: "d < 128" using byte_less [of b] by (auto simp: d_def)
  define a' c' e' where "a' = (if n < 4 then a + d * 2 ^ (7 * n) else a)"
    and "c' = (if 4 \<le> n \<and> n < 8 then c + d * 2 ^ (7 * (n - 4)) else c)"
    and "e' = (if 8 \<le> n then e + d * 2 ^ (7 * (n - 8)) else e)"
  have sum: "a' + c' * 2 ^ 28 + e' * 2 ^ 56 = a + c * 2 ^ 28 + e * 2 ^ 56 + d * 2 ^ (7 * n)"
  proof -
    have "(2 :: nat) ^ (7 * n) = 2 ^ (7 * (n - 4)) * 2 ^ 28" if "4 \<le> n"
    proof -
      have "7 * n = 7 * (n - 4) + 28" using that by simp
      then show ?thesis by (metis power_add)
    qed
    moreover have "(2 :: nat) ^ (7 * n) = 2 ^ (7 * (n - 8)) * 2 ^ 56" if "8 \<le> n"
    proof -
      have "7 * n = 7 * (n - 8) + 56" using that by simp
      then show ?thesis by (metis power_add)
    qed
    ultimately show ?thesis by (simp add: a'_def c'_def e'_def algebra_simps)
  qed
  have bounds: "a' < 2 ^ (7 * min (Suc n) 4)" "c' < 2 ^ (7 * (min (Suc n) 8 - 4))" "e' < 2 ^ (7 * (Suc n - 8))"
  proof -
    have "n = 0 \<or> n = 1 \<or> n = 2 \<or> n = 3 \<or> n = 4 \<or> n = 5 \<or> n = 6 \<or> n = 7 \<or> n = 8 \<or> n = 9"
      using Cons.prems(1) by auto
    then show "a' < 2 ^ (7 * min (Suc n) 4)" "c' < 2 ^ (7 * (min (Suc n) 8 - 4))" "e' < 2 ^ (7 * (Suc n - 8))"
      by (elim disjE; use Cons.prems(2-) d in \<open>simp add: a'_def c'_def e'_def\<close>)+
  qed
  have m: "n < 4 \<Longrightarrow> n mod 4 = n" "4 \<le> n \<Longrightarrow> n < 8 \<Longrightarrow> n mod 4 = n - 4" "8 \<le> n \<Longrightarrow> n mod 4 = n - 8"
    using Cons.prems(1) by (auto simp: le_mod_geq)
  show ?case
  proof (cases "unat b < 128")
    case True
    have "a' < 2 ^ 28" "c' < 2 ^ 28" "e' < 2 ^ 32"
      using Cons.prems(1)
      by (intro less_pow2_mono [OF bounds(1)] less_pow2_mono [OF bounds(2)] less_pow2_mono [OF bounds(3)], simp)+
    then have "ReadVarint64FromArray n (of_nat a) (of_nat c) (of_nat e) (b # bs) =
        Some (of_nat (a' + c' * 2 ^ 28 + e' * 2 ^ 56), bs)"
      using True by (subst combine_parts [symmetric])
        (simp_all add: high_bit Let_def m add_plain a'_def c'_def e'_def d_def del: of_nat_add of_nat_mult)
    then show ?thesis
      unfolding sum using True
      by (simp add: d_def del: ReadVarint64FromArray.simps of_nat_add of_nat_mult)
  next
    case False
    show ?thesis
    proof (cases "n = 9")
      case True
      with False show ?thesis by (simp add: high_bit Let_def kMaxVarintBytes_def)
    next
      case n9: False
      have pow: "(v :: nat) * 2 ^ (7 * Suc n) = 128 * v * 2 ^ (7 * n)" for v by (simp add: power_add)
      obtain x where x: "unat b = 128 + x" using False by (metis le_Suc_ex not_less)
      have "ReadVarint64FromArray n (of_nat a) (of_nat c) (of_nat e) (b # bs) =
          ReadVarint64FromArray (Suc n) (of_nat a') (of_nat c') (of_nat e') bs"
        using False n9 Cons.prems(1)
        by (simp add: high_bit Let_def kMaxVarintBytes_def m sub_cont a'_def c'_def e'_def d_def
            del: of_nat_add of_nat_mult) simp
      also have "\<dots> = map_option (\<lambda>(v, rest). (of_nat (a' + c' * 2 ^ 28 + e' * 2 ^ 56 + v * 2 ^ (7 * Suc n)), rest))
          (decode_varint (Suc n) bs)"
        using Cons.prems(1) n9 bounds by (intro Cons.IH) simp_all
      also have "\<dots> = map_option (\<lambda>(v, rest). (of_nat (a + c * 2 ^ 28 + e * 2 ^ 56 + v * 2 ^ (7 * n)), rest))
          (decode_varint n (b # bs))"
        using False n9 unfolding pow sum d_def decode_varint.simps x
        by (auto split: option.splits simp del: of_nat_add of_nat_mult simp: add_mult_distrib add.assoc)
      finally show ?thesis .
    qed
  qed
qed simp

lemma ReadVarint64SlowLoop_decode:
  assumes "n < 10" and "a < 2 ^ (7 * n)"
  shows "\<exists>left. ReadVarint64SlowLoop n (of_nat a) bs =
    (case decode_varint n bs of None \<Rightarrow> (None, left) | Some (v, rest) \<Rightarrow> (Some (of_nat (a + v * 2 ^ (7 * n))), rest))"
  using assms
proof (induction bs arbitrary: n a)
  case (Cons b bs)
  have lt: "2 ^ (7 * n) \<le> (2 :: nat) ^ 63" using Cons.prems(1) by (intro power_increasing) auto
  have unat_a: "unat (of_nat a :: u64) = a"
    using Cons.prems(2) lt by (intro unat_of_nat_small) simp
  have "(ucast (b AND 0x7F) :: u64) = of_nat (unat b mod 128)"
    by (simp add: low_bits [symmetric])
  then have step: "of_nat a OR push_bit (7 * n) (ucast (b AND 0x7F)) = (of_nat (a + unat b mod 128 * 2 ^ (7 * n)) :: u64)"
    using or_low_high [of "of_nat a :: u64" "7 * n"] Cons.prems(2) by (simp add: unat_a push_bit_eq_mult)
  show ?case
  proof (cases "unat b < 128")
    case True
    then show ?thesis
      using Cons.prems(1) step by (simp add: high_bit Let_def kMaxVarintBytes_def del: of_nat_add of_nat_mult)
  next
    case False
    have b: "unat b mod 128 = unat b - 128"
      using False byte_less [of b] by (simp add: le_mod_geq)
    have loop: "ReadVarint64SlowLoop n (of_nat a) (b # bs) =
        ReadVarint64SlowLoop (Suc n) (of_nat (a + (unat b - 128) * 2 ^ (7 * n))) bs"
      using False Cons.prems(1) step b
      by (simp add: high_bit Let_def kMaxVarintBytes_def del: of_nat_add of_nat_mult)
    show ?thesis
    proof (cases "n = 9")
      case True
      then show ?thesis using False loop by (cases bs) (auto simp: kMaxVarintBytes_def)
    next
      case n9: False
      have pow: "(v :: nat) * 2 ^ (7 * Suc n) = 128 * v * 2 ^ (7 * n)" for v by (simp add: power_add)
      obtain x where x: "unat b = 128 + x" using False by (metis le_Suc_ex not_less)
      have "a + x * 2 ^ (7 * n) < 2 ^ (7 * Suc n)"
        using Cons.prems(2) byte_less [of b] x by (intro digit_bound) auto
      moreover have n10: "Suc n < 10" using Cons.prems(1) n9 by simp
      ultimately obtain left where "ReadVarint64SlowLoop (Suc n) (of_nat (a + x * 2 ^ (7 * n))) bs =
        (case decode_varint (Suc n) bs of None \<Rightarrow> (None, left)
         | Some (v, rest) \<Rightarrow> (Some (of_nat (a + x * 2 ^ (7 * n) + v * 2 ^ (7 * Suc n))), rest))"
        using Cons.IH [of "Suc n" "a + x * 2 ^ (7 * n)", OF n10] by blast
      then show ?thesis
        unfolding loop pow decode_varint.simps x using n9
        by (auto split: option.splits simp del: of_nat_add of_nat_mult simp: add_mult_distrib add.assoc)
    qed
  qed
qed simp

lemma unat_byte_of_nat: "n < 256 \<Longrightarrow> unat (of_nat n :: byte) = n"
  by (simp add: unat_of_nat_byte)

lemma decode_varint_encoded:
  "k + length (varint n) \<le> 10 \<Longrightarrow> decode_varint k (varint n @ rest) = Some (n, rest)"
proof (induction n arbitrary: k rule: varint.induct)
  case (1 n)
  show ?case
  proof (cases "n < 128")
    case True
    then show ?thesis by (simp add: varint_small unat_byte_of_nat del: of_nat_add)
  next
    case False
    then have v: "varint n = of_nat (n mod 128 + 128) # varint (n div 128)" by (simp only: varint_big)
    have u: "unat (of_nat (n mod 128 + 128) :: byte) = n mod 128 + 128"
      by (rule unat_byte_of_nat) simp
    have l: "Suc k + length (varint (n div 128)) \<le> 10" using 1(2) by (simp add: v)
    then have "k \<noteq> 9" using length_varint_pos(1) [of "n div 128"] by linarith
    then show ?thesis
      using 1(1) [OF False l] by (simp add: v u del: of_nat_add)
  qed
qed

lemma length_varint_le: "n < 2 ^ (7 * Suc k) \<Longrightarrow> length (varint n) \<le> Suc k"
proof (induction k arbitrary: n)
  case (Suc k)
  then have "n div 128 < 2 ^ (7 * Suc k)" by (simp add: power_add less_mult_imp_div_less)
  with Suc.IH show ?case by (cases "n < 128") (simp_all add: varint_small varint_big)
qed (simp add: varint_small)

lemma length_varint64: "n < 2 ^ 64 \<Longrightarrow> length (varint n) \<le> 10"
  using length_varint_le [of n 9] by simp

lemma decode_varint_word32: "decode_varint 0 (varint (unat (v :: u32)) @ rest) = Some (unat v, rest)"
proof (rule decode_varint_encoded)
  have "unat v < 2 ^ 32" using unsigned_less [of v] by simp
  then have "unat v < 2 ^ 64" by simp
  then show "0 + length (varint (unat v)) \<le> 10" using length_varint64 by simp
qed

lemma decode_varint_word64: "decode_varint 0 (varint (unat (v :: u64)) @ rest) = Some (unat v, rest)"
  using length_varint64 [of "unat v"] unsigned_less [of v] by (intro decode_varint_encoded) simp

lemma decode_varint_length: "decode_varint n bs = Some (v, rest) \<Longrightarrow> length rest < length bs"
  by (induction n bs arbitrary: v rest rule: decode_varint.induct)
    (fastforce split: if_splits option.splits)+

text \<open>The fast paths are only taken when they cannot run past the buffer.\<close>

lemma fast_ok_in_range:
  "fast_ok bs \<Longrightarrow> length bs < 10 \<Longrightarrow> \<exists>i < length bs. unat (bs ! i) < 128"
  by (auto simp: fast_ok_def kMaxVarintBytes_def high_bit last_conv_nth intro!: exI [of _ "length bs - 1"])

lemma ReadVarint64Fallback_decode:
  "\<exists>left. ReadVarint64Fallback s =
    (case decode_varint 0 (buf s) of None \<Rightarrow> (None, s\<lparr>buf := left\<rparr>)
     | Some (v, rest) \<Rightarrow> (Some (of_nat v), s\<lparr>buf := rest\<rparr>))"
proof (cases "fast_ok (buf s)")
  case True
  then show ?thesis
    using ReadVarint64FromArray_decode [of 0 0 0 0 "buf s"]
    by (auto simp: ReadVarint64Fallback_def split: option.splits intro!: exI [of _ "buf s"])
next
  case False
  obtain left where "ReadVarint64SlowLoop 0 0 (buf s) = (case decode_varint 0 (buf s) of None \<Rightarrow> (None, left)
      | Some (v, rest) \<Rightarrow> (Some (of_nat (0 + v * 2 ^ (7 * 0))), rest))"
    using ReadVarint64SlowLoop_decode [of 0 0 "buf s"] by auto
  with False show ?thesis
    by (auto simp: ReadVarint64Fallback_def split: option.splits)
qed

lemma ReadVarint64_decode:
  "\<exists>left. ReadVarint64 s =
    (case decode_varint 0 (buf s) of None \<Rightarrow> (None, s\<lparr>buf := left\<rparr>)
     | Some (v, rest) \<Rightarrow> (Some (of_nat v), s\<lparr>buf := rest\<rparr>))"
  using ReadVarint64Fallback_decode [of s]
  by (cases "buf s") (auto simp: ReadVarint64_def high_bit_less)

lemma ReadVarint32_decode:
  "\<exists>left. ReadVarint32 s =
    (case decode_varint 0 (buf s) of None \<Rightarrow> (None, s\<lparr>buf := left\<rparr>)
     | Some (v, rest) \<Rightarrow> (Some (of_nat v), s\<lparr>buf := rest\<rparr>))"
proof -
  have cast: "(ucast (of_nat v :: u64) :: u32) = of_nat v" for v
    by (simp add: word_unat_eq_iff unat_ucast_mod unat_of_nat mod_mod_cancel)
  have "\<exists>left. ReadVarint32Fallback s = (case decode_varint 0 (buf s) of None \<Rightarrow> (None, s\<lparr>buf := left\<rparr>)
     | Some (v, rest) \<Rightarrow> (Some (of_nat v), s\<lparr>buf := rest\<rparr>))"
  proof (cases "fast_ok (buf s)")
    case True
    then show ?thesis
      using ReadVarint32FromArray_decode [of 0 0 "buf s"]
      by (auto simp: ReadVarint32Fallback_def split: option.splits intro!: exI [of _ "buf s"])
  next
    case False
    then show ?thesis
      using ReadVarint64Fallback_decode [of s]
      by (auto simp: ReadVarint32Fallback_def cast split: option.splits)
  qed
  then show ?thesis
    by (cases "buf s") (auto simp: ReadVarint32_def high_bit_less)
qed

section \<open>Streams with limits\<close>

text \<open>
  The flat stream invariant: the visible buffer ends at the current limit, no
  limit lies beyond the data, and the data is within the total bytes limit.
\<close>

definition flat :: "cis \<Rightarrow> bool" where
  "flat s \<longleftrightarrow>
     int (length (after_limit s)) = total_bytes_read s - current_limit s \<and>
     int (length (buf s) + length (after_limit s)) \<le> total_bytes_read s \<and>
     total_bytes_read s < total_bytes_limit s \<and> total_bytes_limit s \<le> INT_MAX"

lemma flat_init: "length data < 64 * 2 ^ 20 \<Longrightarrow> flat (CodedInputStream data)"
  by (simp add: flat_def CodedInputStream_def INT_MAX_def)

lemma flat_Refresh_stops: "flat s \<Longrightarrow> Refresh_stops s"
  by (auto simp: flat_def Refresh_stops_def)

lemma flat_suffix: "flat s \<Longrightarrow> length rest \<le> length (buf s) \<Longrightarrow> flat (s\<lparr>buf := rest\<rparr>)"
  by (simp add: flat_def)

lemma flat_frame [simp]:
  "flat (s\<lparr>last_tag := t\<rparr>) = flat s" "flat (s\<lparr>legitimate_message_end := b\<rparr>) = flat s"
  "flat (s\<lparr>recursion_depth := d\<rparr>) = flat s"
  by (simp_all add: flat_def)

lemma PushLimit_flat:
  assumes "flat s" and "n \<le> length (buf s)"
  shows "PushLimit (int n) s = (current_limit s, s\<lparr>current_limit := CurrentPosition s + int n,
    buf := take n (buf s), after_limit := drop n (buf s) @ after_limit s\<rparr>)"
proof -
  let ?s = "s\<lparr>current_limit := CurrentPosition s + int n\<rparr>"
  have pos: "CurrentPosition s = current_limit s - int (length (buf s))"
    using assms(1) by (simp add: flat_def CurrentPosition_def)
  have lim: "current_limit s \<le> total_bytes_read s" "total_bytes_read s < total_bytes_limit s"
    "total_bytes_limit s \<le> INT_MAX" "int (length (buf s)) \<le> current_limit s"
    using assms(1) by (auto simp: flat_def)
  then have new: "PushLimit (int n) s = (current_limit s, RecomputeBufferLimits ?s)"
    using assms(2) by (simp add: PushLimit_def Let_def pos min_def)
  have closest: "min (CurrentPosition s + int n) (total_bytes_limit s) = CurrentPosition s + int n"
    using lim assms(2) by (simp add: pos)
  have len: "total_bytes_read s - (CurrentPosition s + int n) =
      int (length (buf s) + length (after_limit s)) - int n"
    using assms by (simp add: flat_def CurrentPosition_def)
  have "RecomputeBufferLimits ?s = ?s\<lparr>buf := take n (buf s), after_limit := drop n (buf s) @ after_limit s\<rparr>"
  proof (cases "CurrentPosition s + int n < total_bytes_read s")
    case True
    have "length (buf s @ after_limit s) - nat (total_bytes_read s - (CurrentPosition s + int n)) = n"
      using assms(2) len by (simp add: nat_diff_distrib')
    with True closest assms(2) show ?thesis by (simp add: RecomputeBufferLimits_def Let_def)
  next
    case False
    then have "n = length (buf s)" "length (after_limit s) = 0" using len assms(2) by linarith+
    with False closest show ?thesis by (simp add: RecomputeBufferLimits_def Let_def)
  qed
  with new show ?thesis by simp
qed

lemma PopLimit_flat:
  assumes "after_limit s = hidden @ beyond" and "int (length beyond) = total_bytes_read s - limit"
    and "total_bytes_read s < total_bytes_limit s"
  shows "PopLimit limit s = s\<lparr>current_limit := limit, buf := buf s @ hidden, after_limit := beyond,
    legitimate_message_end := False\<rparr>"
proof (cases "beyond = []")
  case True
  with assms show ?thesis by (simp add: PopLimit_def RecomputeBufferLimits_def Let_def)
next
  case False
  then have "limit < total_bytes_read s" using assms(2) by (cases beyond) auto
  moreover have "length (buf s @ hidden @ beyond) - nat (total_bytes_read s - limit) = length (buf s @ hidden)"
    using assms(2) by (metis add_diff_cancel_right' append.assoc length_append nat_int)
  ultimately show ?thesis
    using assms by (simp add: PopLimit_def RecomputeBufferLimits_def Let_def min_def)
qed

section \<open>Reading what was written\<close>

lemma ReadVarint32_written:
  "buf s = varint (unat v) @ rest \<Longrightarrow> ReadVarint32 s = (Some v, s\<lparr>buf := rest\<rparr>)"
  using ReadVarint32_decode [of s] decode_varint_word32 [of v rest] by auto

lemma ReadVarint64_written:
  "buf s = varint (unat v) @ rest \<Longrightarrow> ReadVarint64 s = (Some v, s\<lparr>buf := rest\<rparr>)"
  using ReadVarint64_decode [of s] decode_varint_word64 [of v rest] by auto

lemma tag_zero_above_cutoff: "\<not> (- 1 :: u32) < 127"
  using word_order.extremum [of "127 :: u32"] by (simp add: not_less)

lemma ReadTagWithCutoff_byte:
  "buf s = b # rest \<Longrightarrow> 0 < unat b \<Longrightarrow> unat b < 128 \<Longrightarrow>
    ReadTagWithCutoff 127 s = ((ucast b, True), s\<lparr>buf := rest, last_tag := ucast b\<rparr>)"
  by (simp add: ReadTagWithCutoff_def Let_def sint_pos)

lemma ReadTagWithCutoff_end:
  "buf s = [] \<Longrightarrow> flat s \<Longrightarrow>
    ReadTagWithCutoff 127 s = ((0, False), s\<lparr>last_tag := 0, legitimate_message_end := True\<rparr>)"
  by (auto simp: ReadTagWithCutoff_def Let_def ReadTagFallback_def fast_ok_def kMaxVarintBytes_def flat_def
      tag_zero_above_cutoff)

lemma ReadTagWithCutoff_zero:
  "buf s = 0 # rest \<Longrightarrow> ReadTagWithCutoff 127 s = ((0, False), s\<lparr>buf := rest, last_tag := 0\<rparr>)"
proof -
  assume b: "buf s = 0 # rest"
  have "ReadVarint32FromArray 0 0 (0 # rest) = Some (0, rest)" by simp
  moreover have "ReadVarint64 s = (Some 0, s\<lparr>buf := rest\<rparr>)" using b by (simp add: ReadVarint64_def)
  ultimately have "ReadTagFallback s = (0, s\<lparr>buf := rest\<rparr>)"
    using b by (simp add: ReadTagFallback_def ReadTagSlow_def)
  with b show ?thesis by (simp add: ReadTagWithCutoff_def Let_def tag_zero_above_cutoff)
qed

lemma sint_of_nat32: "n < 2 ^ 31 \<Longrightarrow> sint (of_nat n :: u32) = int n"
  by (simp add: sint_uint unsigned_of_nat take_bit_nat_eq_self signed_take_bit_int_eq_self)

lemma InternalReadStringInline_written:
  "buf s = str @ rest \<Longrightarrow> length str < 2 ^ 31 \<Longrightarrow>
    InternalReadStringInline (of_nat (length str)) old s = (True, str, s\<lparr>buf := rest\<rparr>)"
proof -
  assume b: "buf s = str @ rest" and l: "length str < 2 ^ 31"
  have "unat (of_nat (length str) :: u32) = length str" using l by (intro unat_of_nat_small) simp
  then show ?thesis
    using b sint_of_nat32 [OF l] by (simp add: InternalReadStringInline_def Advance_def)
qed

section \<open>Properties\<close>

text \<open>
  C8: The unrolled varint writers, the tag writer and the binary-search 64-bit
  writer store exactly the bytes of the plain loop that is used when the buffer
  is nearly full, and the size functions give the number of those bytes.
\<close>

theorem varint_writers_agree:
  "WriteVarint32ToArray v = WriteVarintSlow v \<and> WriteVarint32FallbackToArrayInline v = WriteVarintSlow v \<and>
   WriteTagToArray v = WriteVarintSlow v \<and> VarintSize32 v = length (WriteVarintSlow v) \<and>
   WriteVarint64ToArrayInline w = WriteVarintSlow w \<and> VarintSize64 w = length (WriteVarintSlow w)"
  by (simp only: WriteVarintSlow_varint WriteVarint32ToArray_varint WriteVarint32FallbackToArrayInline_varint
      WriteTagToArray_varint VarintSize32_length WriteVarint64ToArrayInline_varint VarintSize64_length simp_thms)

text \<open>
  C9: A varint that was written in front of any other bytes is read back, whatever
  read path the length and the last byte of the buffer select, and the stream
  is left at the byte behind it.
\<close>

theorem varint_roundtrip:
  "ReadVarint32 (s\<lparr>buf := WriteVarint32ToArray v @ rest\<rparr>) = (Some v, s\<lparr>buf := rest\<rparr>) \<and>
   ReadVarint64 (s\<lparr>buf := WriteVarint64ToArrayInline w @ rest\<rparr>) = (Some w, s\<lparr>buf := rest\<rparr>)"
  using ReadVarint32_written [of "s\<lparr>buf := varint (unat v) @ rest\<rparr>" v rest]
    ReadVarint64_written [of "s\<lparr>buf := varint (unat w) @ rest\<rparr>" w rest]
  by (simp add: WriteVarint64ToArrayInline_varint)



end
