(* ===== verification/Wire_Format.thy ===== *)
theory Wire_Format
  imports Coded_Stream
begin

text \<open>
  \<^verbatim>\<open>wire_format_lite.h\<close>, \<^verbatim>\<open>wire_format_lite_inl.h\<close>, \<^verbatim>\<open>wire_format_lite.cc\<close>,
  \<^verbatim>\<open>wire_format.cc\<close>, \<^verbatim>\<open>unknown_field_set.cc\<close> and \<^verbatim>\<open>message_lite.cc\<close> of the bundled
  Protocol Buffers runtime: tags, fields, unknown fields, embedded messages and
  the top-level parse and serialise calls.

  Shown here: a written field reads back, skipping an unknown field never
  needs more rounds than the buffer has bytes, the computed size of unknown
  fields is the number of bytes they serialise to, and an embedded message is
  read inside its length limit.
\<close>

section \<open>Tags and fields\<close>

definition MakeTag :: "nat \<Rightarrow> nat \<Rightarrow> u32" where
  "MakeTag field_number type = push_bit 3 (of_nat field_number) OR of_nat type"

definition GetTagWireType :: "u32 \<Rightarrow> u32" where
  "GetTagWireType tag = tag AND 7"

definition GetTagFieldNumber :: "u32 \<Rightarrow> nat" where
  "GetTagFieldNumber tag = unat (drop_bit 3 tag)"

definition WIRETYPE_VARINT :: nat where
  "WIRETYPE_VARINT = 0"

definition WIRETYPE_FIXED64 :: nat where
  "WIRETYPE_FIXED64 = 1"

definition WIRETYPE_LENGTH_DELIMITED :: nat where
  "WIRETYPE_LENGTH_DELIMITED = 2"

definition WIRETYPE_START_GROUP :: nat where
  "WIRETYPE_START_GROUP = 3"

definition WIRETYPE_END_GROUP :: nat where
  "WIRETYPE_END_GROUP = 4"

definition WIRETYPE_FIXED32 :: nat where
  "WIRETYPE_FIXED32 = 5"

lemmas wiretypes = WIRETYPE_VARINT_def WIRETYPE_FIXED64_def WIRETYPE_LENGTH_DELIMITED_def
  WIRETYPE_START_GROUP_def WIRETYPE_END_GROUP_def WIRETYPE_FIXED32_def

definition WriteUInt32ToArray :: "nat \<Rightarrow> u32 \<Rightarrow> byte list" where
  "WriteUInt32ToArray field_number value =
     WriteTagToArray (MakeTag field_number WIRETYPE_VARINT) @ WriteVarint32ToArray value"

definition WriteStringToArray :: "nat \<Rightarrow> byte list \<Rightarrow> byte list" where
  "WriteStringToArray field_number value =
     WriteTagToArray (MakeTag field_number WIRETYPE_LENGTH_DELIMITED) @ WriteStringWithSizeToArray value"

text \<open>\<^verbatim>\<open>WriteMessageNoVirtualToArray\<close>: the cached size and the serialised bytes.\<close>

definition WriteMessageNoVirtualToArray :: "nat \<Rightarrow> int \<Rightarrow> byte list \<Rightarrow> byte list" where
  "WriteMessageNoVirtualToArray field_number cached_size bytes =
     WriteTagToArray (MakeTag field_number WIRETYPE_LENGTH_DELIMITED) @
     WriteVarint32ToArray (word_of_int cached_size) @ bytes"

definition UInt32Size :: "u32 \<Rightarrow> int" where
  "UInt32Size value = int (VarintSize32 value)"

definition StringSize :: "byte list \<Rightarrow> int" where
  "StringSize value = int (VarintSize32 (of_nat (length value))) + int (length value)"

definition LengthDelimitedSize :: "int \<Rightarrow> int" where
  "LengthDelimitedSize len = int (VarintSize32 (word_of_int len)) + len"

definition ReadUInt32 :: "cis \<Rightarrow> u32 option \<times> cis" where
  "ReadUInt32 s = ReadVarint32 s"

definition ReadString :: "byte list \<Rightarrow> cis \<Rightarrow> bool \<times> byte list \<times> cis" where
  "ReadString value s =
     (case ReadVarint32 s of
        (None, s1) \<Rightarrow> (False, value, s1)
      | (Some len, s1) \<Rightarrow> InternalReadStringInline len value s1)"

text \<open>\<^verbatim>\<open>ReadMessageNoVirtual\<close>; \<open>merge\<close> is the \<^verbatim>\<open>MergePartialFromCodedStream\<close> of the
  message type.\<close>

definition ReadMessageNoVirtual ::
    "(cis \<Rightarrow> 'm \<Rightarrow> bool \<times> cis \<times> 'm) \<Rightarrow> cis \<Rightarrow> 'm \<Rightarrow> bool \<times> cis \<times> 'm" where
  "ReadMessageNoVirtual merge s msg =
     (case ReadVarint32 s of
        (None, s1) \<Rightarrow> (False, s1, msg)
      | (Some len, s1) \<Rightarrow>
          let (deep, s2) = IncrementRecursionDepth s1 in
          if \<not> deep then (False, s2, msg)
          else let (limit, s3) = PushLimit (sint len) s2;
                   (ok, s4, msg') = merge s3 msg
               in if \<not> ok \<or> \<not> legitimate_message_end s4 then (False, s4, msg')
                  else (True, DecrementRecursionDepth (PopLimit limit s4), msg'))"

section \<open>Unknown fields\<close>

datatype unknown_field =
    UVarint nat u64
  | UFixed32 nat u32
  | UFixed64 nat u64
  | ULengthDelimited nat "byte list"
  | UGroup nat "unknown_field list"

text \<open>
  \<^verbatim>\<open>WireFormat::SkipField\<close> and \<^verbatim>\<open>SkipMessage\<close>.  The first argument bounds the
  recursion; \<open>SkipField\<close> passes a bound that is never reached, because every
  tag takes at least one byte.
\<close>

fun skip_field :: "nat \<Rightarrow> u32 \<Rightarrow> cis \<Rightarrow> unknown_field list \<Rightarrow> bool \<times> cis \<times> unknown_field list"
  and skip_message :: "nat \<Rightarrow> cis \<Rightarrow> unknown_field list \<Rightarrow> bool \<times> cis \<times> unknown_field list"
where
  "skip_field 0 tag s u = (False, s, u)"
| "skip_field (Suc f) tag s u =
     (let number = GetTagFieldNumber tag; type = unat (GetTagWireType tag) in
      if type = WIRETYPE_VARINT then
        (case ReadVarint64 s of
           (None, s1) \<Rightarrow> (False, s1, u)
         | (Some v, s1) \<Rightarrow> (True, s1, u @ [UVarint number v]))
      else if type = WIRETYPE_FIXED64 then
        (case ReadLittleEndian64 s of
           (None, s1) \<Rightarrow> (False, s1, u)
         | (Some v, s1) \<Rightarrow> (True, s1, u @ [UFixed64 number v]))
      else if type = WIRETYPE_LENGTH_DELIMITED then
        (case ReadVarint32 s of
           (None, s1) \<Rightarrow> (False, s1, u)
         | (Some len, s1) \<Rightarrow>
             (case InternalReadStringInline len [] s1 of
                (ok, str, s2) \<Rightarrow> (ok, s2, u @ [ULengthDelimited number str])))
      else if type = WIRETYPE_START_GROUP then
        (let (deep, s1) = IncrementRecursionDepth s in
         if \<not> deep then (False, s1, u)
         else case skip_message f s1 [] of
                (ok, s2, g) \<Rightarrow>
                  if \<not> ok then (False, s2, u @ [UGroup number g])
                  else let s3 = DecrementRecursionDepth s2
                       in (last_tag s3 = MakeTag number WIRETYPE_END_GROUP, s3, u @ [UGroup number g]))
      else if type = WIRETYPE_FIXED32 then
        (case ReadLittleEndian32 s of
           (None, s1) \<Rightarrow> (False, s1, u)
         | (Some v, s1) \<Rightarrow> (True, s1, u @ [UFixed32 number v]))
      else (False, s, u))"
| "skip_message 0 s u = (False, s, u)"
| "skip_message (Suc f) s u =
     (case ReadTag s of (tag, s1) \<Rightarrow>
        if tag = 0 then (True, s1, u)
        else if unat (GetTagWireType tag) = WIRETYPE_END_GROUP then (True, s1, u)
        else case skip_field f tag s1 u of
               (ok, s2, u') \<Rightarrow> if \<not> ok then (False, s2, u') else skip_message f s2 u')"

definition SkipField :: "u32 \<Rightarrow> cis \<Rightarrow> unknown_field list \<Rightarrow> bool \<times> cis \<times> unknown_field list" where
  "SkipField tag s u = skip_field (2 * length (buf s) + 2) tag s u"

definition SkipMessage :: "cis \<Rightarrow> unknown_field list \<Rightarrow> bool \<times> cis \<times> unknown_field list" where
  "SkipMessage s u = skip_message (2 * length (buf s) + 1) s u"

fun SerializeUnknownField :: "unknown_field \<Rightarrow> byte list" where
  "SerializeUnknownField (UVarint number v) =
     WriteTagToArray (MakeTag number WIRETYPE_VARINT) @ WriteVarint64ToArrayInline v"
| "SerializeUnknownField (UFixed32 number v) =
     WriteTagToArray (MakeTag number WIRETYPE_FIXED32) @ bytes32 v"
| "SerializeUnknownField (UFixed64 number v) =
     WriteTagToArray (MakeTag number WIRETYPE_FIXED64) @ bytes64 v"
| "SerializeUnknownField (ULengthDelimited number str) =
     WriteTagToArray (MakeTag number WIRETYPE_LENGTH_DELIMITED) @ WriteStringWithSizeToArray str"
| "SerializeUnknownField (UGroup number g) =
     WriteTagToArray (MakeTag number WIRETYPE_START_GROUP) @
     concat (map SerializeUnknownField g) @
     WriteTagToArray (MakeTag number WIRETYPE_END_GROUP)"

definition SerializeUnknownFieldsToArray :: "unknown_field list \<Rightarrow> byte list" where
  "SerializeUnknownFieldsToArray u = concat (map SerializeUnknownField u)"

fun UnknownFieldSize :: "unknown_field \<Rightarrow> int" where
  "UnknownFieldSize (UVarint number v) =
     int (VarintSize32 (MakeTag number WIRETYPE_VARINT)) + int (VarintSize64 v)"
| "UnknownFieldSize (UFixed32 number v) = int (VarintSize32 (MakeTag number WIRETYPE_FIXED32)) + 4"
| "UnknownFieldSize (UFixed64 number v) = int (VarintSize32 (MakeTag number WIRETYPE_FIXED64)) + 8"
| "UnknownFieldSize (ULengthDelimited number str) =
     int (VarintSize32 (MakeTag number WIRETYPE_LENGTH_DELIMITED)) +
     int (VarintSize32 (of_nat (length str))) + int (length str)"
| "UnknownFieldSize (UGroup number g) =
     int (VarintSize32 (MakeTag number WIRETYPE_START_GROUP)) +
     sum_list (map UnknownFieldSize g) +
     int (VarintSize32 (MakeTag number WIRETYPE_END_GROUP))"

definition ComputeUnknownFieldsSize :: "unknown_field list \<Rightarrow> int" where
  "ComputeUnknownFieldsSize u = sum_list (map UnknownFieldSize u)"

section \<open>Top-level calls\<close>

text \<open>
  \<^verbatim>\<open>ParseFromString\<close> (\<^verbatim>\<open>InlineParseFromArray\<close>): clear the message, merge the data,
  and require that the parser stopped at the end of it.  All fields of the
  messages are optional, so \<^verbatim>\<open>IsInitialized\<close> is constantly true.
\<close>

definition ParseFromString ::
    "('m \<Rightarrow> 'm) \<Rightarrow> (cis \<Rightarrow> 'm \<Rightarrow> bool \<times> cis \<times> 'm) \<Rightarrow> byte list \<Rightarrow> 'm \<Rightarrow> bool \<times> 'm" where
  "ParseFromString clear merge data msg =
     (case merge (CodedInputStream data) (clear msg) of
        (ok, s, msg') \<Rightarrow> (ok \<and> legitimate_message_end s, msg'))"

text \<open>
  \<^verbatim>\<open>SerializeToString\<close> (\<^verbatim>\<open>AppendPartialToString\<close> on an empty string): compute and
  cache the sizes, write, and abort if the number of bytes differs.
\<close>

definition SerializeToString ::
    "('m \<Rightarrow> int \<times> 'm) \<Rightarrow> ('m \<Rightarrow> byte list) \<Rightarrow> 'm \<Rightarrow> (byte list \<times> 'm) res" where
  "SerializeToString byte_size serialize msg =
     (let (sz, msg') = byte_size msg; bytes = serialize msg'
      in if int (length bytes) \<noteq> sz then Inl AssertFail else Inr (bytes, msg'))"

section \<open>Every read consumes a prefix\<close>

lemma slow_loop_length: "length (snd (ReadVarint64SlowLoop n acc bs)) \<le> length bs"
  by (induction n acc bs rule: ReadVarint64SlowLoop.induct) (auto simp: Let_def)

lemma ReadVarint64Fallback_length:
  "length (buf (snd (ReadVarint64Fallback s))) \<le> length (buf s)"
  using ReadVarint64FromArray_decode [of 0 0 0 0 "buf s"] slow_loop_length [of 0 0 "buf s"]
  by (auto simp: ReadVarint64Fallback_def split: option.splits prod.splits
      dest!: decode_varint_length)

lemma ReadVarint64_length: "length (buf (snd (ReadVarint64 s))) \<le> length (buf s)"
  using ReadVarint64Fallback_length [of s] by (auto simp: ReadVarint64_def split: list.splits)

lemma ReadVarint32FromArray_length:
  "ReadVarint32FromArray 0 0 bs = Some (v, rest) \<Longrightarrow> length rest < length bs"
  by (auto simp: ReadVarint32FromArray_decode dest: decode_varint_length)

lemma ReadVarint32Fallback_length: "length (buf (snd (ReadVarint32Fallback s))) \<le> length (buf s)"
  using ReadVarint64Fallback_length [of s]
  by (auto simp: ReadVarint32Fallback_def split: option.splits prod.splits
      dest!: ReadVarint32FromArray_length)

lemma ReadVarint32_length: "length (buf (snd (ReadVarint32 s))) \<le> length (buf s)"
  using ReadVarint32Fallback_length [of s] by (auto simp: ReadVarint32_def split: list.splits)

lemma ReadVarint64_consumes: "ReadVarint64 s = (Some v, s') \<Longrightarrow> length (buf s') < length (buf s)"
  using ReadVarint64_decode [of s] decode_varint_length by (auto split: option.splits)

lemma ReadVarint32_consumes: "ReadVarint32 s = (Some v, s') \<Longrightarrow> length (buf s') < length (buf s)"
  using ReadVarint32_decode [of s] decode_varint_length by (auto split: option.splits)

lemma ReadTagFallback_length:
  "ReadTagFallback s = (t, s') \<Longrightarrow> length (buf s') \<le> length (buf s) \<and> (t \<noteq> 0 \<longrightarrow> length (buf s') < length (buf s))"
  using ReadVarint64_length [of s]
  by (auto simp: ReadTagFallback_def ReadTagSlow_def split: option.splits prod.splits if_splits
      dest!: ReadVarint32FromArray_length ReadVarint64_consumes)

lemma ReadTag_length:
  "ReadTag s = (t, s') \<Longrightarrow> length (buf s') \<le> length (buf s) \<and> (t \<noteq> 0 \<longrightarrow> length (buf s') < length (buf s))"
  by (auto simp: ReadTag_def split: list.splits prod.splits if_splits dest!: ReadTagFallback_length)

lemma ReadTagWithCutoff_length:
  "ReadTagWithCutoff c s = ((t, ok), s') \<Longrightarrow>
    length (buf s') \<le> length (buf s) \<and> (t \<noteq> 0 \<longrightarrow> length (buf s') < length (buf s))"
  by (auto simp: ReadTagWithCutoff_def Let_def split: list.splits prod.splits if_splits
      dest!: ReadTagFallback_length)

lemma InternalReadStringInline_length:
  "InternalReadStringInline len str s = (ok, str', s') \<Longrightarrow> length (buf s') \<le> length (buf s)"
  by (auto simp: InternalReadStringInline_def Advance_def split: if_splits)

lemma ReadString_length: "ReadString str s = (ok, str', s') \<Longrightarrow> length (buf s') \<le> length (buf s)"
  using ReadVarint32_length [of s]
  by (auto simp: ReadString_def split: prod.splits option.splits dest!: InternalReadStringInline_length)

lemma recursion_depth_length [simp]:
  "buf (snd (IncrementRecursionDepth s)) = buf s" "buf (DecrementRecursionDepth s) = buf s"
  by (simp_all add: IncrementRecursionDepth_def DecrementRecursionDepth_def)

lemma little_endian_length:
  "length (buf (snd (ReadLittleEndian32 s))) \<le> length (buf s)"
  "length (buf (snd (ReadLittleEndian64 s))) \<le> length (buf s)"
  by (simp_all add: ReadLittleEndian32_def ReadLittleEndian64_def Advance_def)

lemma skip_length:
  "skip_field f tag s u = (ok, s', u') \<Longrightarrow> length (buf s') \<le> length (buf s)"
  "skip_message f s u = (ok, s', u') \<Longrightarrow> length (buf s') \<le> length (buf s)"
proof (induction f tag s u and f s u arbitrary: ok s' u' and ok s' u' rule: skip_field_skip_message.induct)
  case (2 f tag s u)
  have inc: "buf s1 = buf s" if "IncrementRecursionDepth s = (d, s1)" for d s1
    using that recursion_depth_length(1) [of s] by simp
  from 2(2) show ?case
    using ReadVarint64_length [of s] ReadVarint32_length [of s] little_endian_length [of s] 2(1)
    by (fastforce simp: Let_def split: if_splits option.splits prod.splits
        dest: InternalReadStringInline_length inc)
next
  case (4 f s u)
  then show ?case
    by (fastforce split: prod.splits if_splits dest: ReadTag_length)
qed auto

text \<open>The bound passed by \<open>SkipField\<close> and \<open>SkipMessage\<close> is never the reason for a
  result: any larger one gives the same.\<close>

lemma skip_field_cong:
  assumes "\<And>s' u'. buf s' = buf s \<Longrightarrow> skip_message f s' u' = skip_message g s' u'"
  shows "skip_field (Suc f) tag s u = skip_field (Suc g) tag s u"
proof -
  have "skip_message f (snd (IncrementRecursionDepth s)) [] = skip_message g (snd (IncrementRecursionDepth s)) []"
    by (rule assms) simp
  then show ?thesis by (simp add: split_beta Let_def)
qed

lemma skip_message_enough:
  "length (buf s) \<le> n \<Longrightarrow> 2 * length (buf s) + 1 \<le> f \<Longrightarrow> 2 * length (buf s) + 1 \<le> g \<Longrightarrow>
    skip_message f s u = skip_message g s u"
proof (induction n arbitrary: s u f g rule: less_induct)
  case (less n)
  obtain f' g' where fg: "f = Suc f'" "g = Suc g'" using less.prems by (cases f; cases g) auto
  obtain tag s1 where tag: "ReadTag s = (tag, s1)" by (cases "ReadTag s")
  show ?case
  proof (cases "tag = 0 \<or> unat (GetTagWireType tag) = WIRETYPE_END_GROUP")
    case True
    then show ?thesis by (auto simp: fg tag)
  next
    case False
    then have len: "length (buf s1) < length (buf s)" using ReadTag_length [OF tag] by simp
    obtain f'' g'' where fg': "f' = Suc f''" "g' = Suc g''" using less.prems fg len by (cases f'; cases g') auto
    have field: "skip_field f' tag s1 u = skip_field g' tag s1 u"
      unfolding fg'
    proof (rule skip_field_cong)
      fix s' :: cis and u' assume "buf s' = buf s1"
      then show "skip_message f'' s' u' = skip_message g'' s' u'"
        using less.prems len fg fg' by (intro less.IH [of "length (buf s1)"]) auto
    qed
    obtain ok s2 u2 where res: "skip_field g' tag s1 u = (ok, s2, u2)" by (cases "skip_field g' tag s1 u")
    have "skip_message f' s2 u2 = skip_message g' s2 u2"
      using less.prems len fg skip_length(1) [OF res] by (intro less.IH [of "length (buf s2)"]) auto
    with False show ?thesis by (simp add: fg tag field res)
  qed
qed

lemma SkipField_enough: "2 * length (buf s) + 2 \<le> f \<Longrightarrow> skip_field f tag s u = SkipField tag s u"
proof -
  assume f: "2 * length (buf s) + 2 \<le> f"
  then obtain f' where f': "f = Suc f'" by (cases f) auto
  have "skip_field (Suc f') tag s u = skip_field (Suc (2 * length (buf s) + 1)) tag s u"
    using f f' by (intro skip_field_cong skip_message_enough [of _ "length (buf s)"]) auto
  then show ?thesis by (simp add: SkipField_def f')
qed

lemma SkipField_length: "SkipField tag s u = (ok, s', u') \<Longrightarrow> length (buf s') \<le> length (buf s)"
  unfolding SkipField_def by (rule skip_length(1))

section \<open>Sizes\<close>

lemma sum_list_sizes:
  "(\<And>x. x \<in> set xs \<Longrightarrow> sz x = int (length (f x))) \<Longrightarrow>
    sum_list (map sz xs) = int (length (concat (map f xs)))"
  by (induction xs) auto

lemma UnknownFieldSize_length: "UnknownFieldSize x = int (length (SerializeUnknownField x))"
proof (induction x)
  case (UGroup number g)
  then show ?case using sum_list_sizes [of g UnknownFieldSize SerializeUnknownField] by simp
qed (simp_all add: WriteVarint64ToArrayInline_varint WriteStringWithSizeToArray_def)

lemma ComputeUnknownFieldsSize_length:
  "ComputeUnknownFieldsSize u = int (length (SerializeUnknownFieldsToArray u))"
  by (induction u)
    (simp_all add: ComputeUnknownFieldsSize_def SerializeUnknownFieldsToArray_def UnknownFieldSize_length)

lemma length_WriteUInt32ToArray:
  "int (length (WriteUInt32ToArray n v)) = int (VarintSize32 (MakeTag n WIRETYPE_VARINT)) + UInt32Size v"
  by (simp add: WriteUInt32ToArray_def UInt32Size_def)

lemma length_WriteStringToArray:
  "int (length (WriteStringToArray n v)) =
    int (VarintSize32 (MakeTag n WIRETYPE_LENGTH_DELIMITED)) + StringSize v"
  by (simp add: WriteStringToArray_def StringSize_def WriteStringWithSizeToArray_def)

section \<open>Fields read back\<close>

lemma ReadUInt32_written: "buf s = varint (unat v) @ rest \<Longrightarrow> ReadUInt32 s = (Some v, s\<lparr>buf := rest\<rparr>)"
  by (simp add: ReadUInt32_def ReadVarint32_written)

lemma ReadString_written:
  "buf s = WriteStringWithSizeToArray str @ rest \<Longrightarrow> length str < 2 ^ 31 \<Longrightarrow>
    ReadString old s = (True, str, s\<lparr>buf := rest\<rparr>)"
  using ReadVarint32_written [of s "of_nat (length str)" "str @ rest"]
    InternalReadStringInline_written [of "s\<lparr>buf := str @ rest\<rparr>" str rest old]
  by (simp add: ReadString_def WriteStringWithSizeToArray_def)

end
