(* ===== verification/Pb_Message.thy ===== *)
theory Pb_Message
  imports Wire_Format
begin

text \<open>
  The shape that every generated \<^verbatim>\<open>MergePartialFromCodedStream\<close> of
  \<^verbatim>\<open>src/libs/pb/src\<close> has: a loop that reads a tag, switches on the field, jumps
  straight to the body of the next field when its tag follows, and skips
  everything else into the unknown fields.  A message class is given by its
  field table; the theories \<open>Pb_Server\<close> and \<open>Pb_Login\<close> list the tables.

  Shown here: the loop ends within one round per byte, and a message merged
  from serialised fields receives exactly those fields, in order, and leaves
  the stream at its end.  The locale \<open>pb_message\<close> is the contract of a message
  class; the message theories interpret it.
\<close>

section \<open>The parse loop\<close>

record 'm field =
  f_tag :: u32
  f_read :: "cis \<Rightarrow> 'm \<Rightarrow> bool \<times> cis \<times> 'm"

record 'm msg_class =
  field_table :: "'m field list"
  get_unknown :: "'m \<Rightarrow> unknown_field list"
  set_unknown :: "unknown_field list \<Rightarrow> 'm \<Rightarrow> 'm"

text \<open>
  \<open>merge_top\<close> is the head of the loop, \<open>merge_body\<close> the code behind the label of
  the first field of its list.  The first argument bounds the rounds.
\<close>

fun merge_top :: "nat \<Rightarrow> 'm msg_class \<Rightarrow> cis \<Rightarrow> 'm \<Rightarrow> bool \<times> cis \<times> 'm"
  and merge_body :: "nat \<Rightarrow> 'm msg_class \<Rightarrow> 'm field list \<Rightarrow> cis \<Rightarrow> 'm \<Rightarrow> bool \<times> cis \<times> 'm"
where
  "merge_top 0 cls s m = (False, s, m)"
| "merge_top (Suc n) cls s m =
     (case ReadTagWithCutoff 127 s of ((tag, in_range), s1) \<Rightarrow>
        let body = (if in_range then dropWhile (\<lambda>fl. f_tag fl \<noteq> tag) (field_table cls) else []) in
        if body \<noteq> [] then merge_body n cls body s1 m
        else if tag = 0 \<or> unat (GetTagWireType tag) = WIRETYPE_END_GROUP then (True, s1, m)
        else case SkipField tag s1 (get_unknown cls m) of
               (ok, s2, u) \<Rightarrow>
                 let m' = set_unknown cls u m
                 in if \<not> ok then (False, s2, m') else merge_top n cls s2 m')"
| "merge_body 0 cls body s m = (False, s, m)"
| "merge_body (Suc n) cls body s m =
     (case body of
        [] \<Rightarrow> merge_top n cls s m
      | fl # rest \<Rightarrow>
          (case f_read fl s m of (ok, s1, m') \<Rightarrow>
             if \<not> ok then (False, s1, m')
             else case rest of
                    [] \<Rightarrow> (case ExpectAtEnd s1 of
                             Some s2 \<Rightarrow> (True, s2, m')
                           | None \<Rightarrow> merge_top n cls s1 m')
                  | nxt # _ \<Rightarrow>
                      (case ExpectTag (f_tag nxt) s1 of
                         Some s2 \<Rightarrow> merge_body n cls rest s2 m'
                       | None \<Rightarrow> merge_top n cls s1 m')))"

text \<open>Bytes that are still to come, hidden ones included.\<close>

definition remaining :: "cis \<Rightarrow> nat" where
  "remaining s = length (buf s) + length (after_limit s)"

definition MergePartialFromCodedStream :: "'m msg_class \<Rightarrow> cis \<Rightarrow> 'm \<Rightarrow> bool \<times> cis \<times> 'm" where
  "MergePartialFromCodedStream cls s m = merge_top (remaining s + 1) cls s m"

text \<open>The two kinds of scalar field bodies.\<close>

definition read_uint32 :: "(u32 \<Rightarrow> 'm \<Rightarrow> 'm) \<Rightarrow> cis \<Rightarrow> 'm \<Rightarrow> bool \<times> cis \<times> 'm" where
  "read_uint32 set_value s m =
     (case ReadUInt32 s of
        (None, s1) \<Rightarrow> (False, s1, m)
      | (Some v, s1) \<Rightarrow> (True, s1, set_value v m))"

definition read_string :: "('m \<Rightarrow> byte list) \<Rightarrow> (byte list \<Rightarrow> 'm \<Rightarrow> 'm) \<Rightarrow> cis \<Rightarrow> 'm \<Rightarrow> bool \<times> cis \<times> 'm" where
  "read_string get set_value s m =
     (case ReadString (get m) s of (ok, str, s1) \<Rightarrow> (ok, s1, set_value str m))"

text \<open>An embedded message: the pointer is filled by \<^verbatim>\<open>mutable_...()\<close> first.\<close>

definition read_message ::
    "'n msg_class \<Rightarrow> ('m \<Rightarrow> 'n) \<Rightarrow> ('n \<Rightarrow> 'm \<Rightarrow> 'm) \<Rightarrow> cis \<Rightarrow> 'm \<Rightarrow> bool \<times> cis \<times> 'm" where
  "read_message cls get set_value s m =
     (case ReadMessageNoVirtual (MergePartialFromCodedStream cls) s (get m) of
        (ok, s1, x) \<Rightarrow> (ok, s1, set_value x m))"

section \<open>The loop ends\<close>

definition consuming :: "(cis \<Rightarrow> 'm \<Rightarrow> bool \<times> cis \<times> 'm) \<Rightarrow> bool" where
  "consuming rd \<longleftrightarrow>
     (\<forall>s m ok s' m'. rd s m = (ok, s', m') \<longrightarrow> remaining s' \<le> remaining s \<and> (ok \<longrightarrow> remaining s' < remaining s))"

lemma read_frames:
  "after_limit (snd (ReadVarint32 s)) = after_limit s"
  "after_limit (snd (ReadVarint64 s)) = after_limit s"
  "after_limit (snd (ReadTagWithCutoff c s)) = after_limit s"
  "after_limit (snd (ReadTag s)) = after_limit s"
  "after_limit (snd (ReadLittleEndian32 s)) = after_limit s"
  "after_limit (snd (ReadLittleEndian64 s)) = after_limit s"
  "after_limit (snd (snd (InternalReadStringInline len str s))) = after_limit s"
proof -
  have f: "after_limit (snd (ReadVarint64Fallback s)) = after_limit s" for s
    by (auto simp: ReadVarint64Fallback_def split: option.splits prod.splits)
  have v64: "after_limit (snd (ReadVarint64 s)) = after_limit s" for s
    by (auto simp: ReadVarint64_def f split: list.splits)
  have "after_limit (snd (ReadVarint32Fallback s)) = after_limit s" for s
    using f [of s] by (auto simp: ReadVarint32Fallback_def split: option.splits prod.splits)
  then show "after_limit (snd (ReadVarint32 s)) = after_limit s"
    by (auto simp: ReadVarint32_def split: list.splits)
  show "after_limit (snd (ReadVarint64 s)) = after_limit s" by (rule v64)
  have tag: "after_limit (snd (ReadTagFallback s)) = after_limit s" for s
    using v64 [of s] by (auto simp: ReadTagFallback_def ReadTagSlow_def split: option.splits prod.splits)
  then show "after_limit (snd (ReadTagWithCutoff c s)) = after_limit s"
    "after_limit (snd (ReadTag s)) = after_limit s"
    by (auto simp: ReadTagWithCutoff_def ReadTag_def Let_def split_beta split: list.splits)
qed (simp_all add: ReadLittleEndian32_def ReadLittleEndian64_def InternalReadStringInline_def Advance_def)

lemma remaining_simps [simp]:
  "remaining (s\<lparr>last_tag := t\<rparr>) = remaining s"
  "remaining (s\<lparr>legitimate_message_end := b\<rparr>) = remaining s"
  "remaining (s\<lparr>recursion_depth := d\<rparr>) = remaining s"
  "remaining (s\<lparr>current_limit := l\<rparr>) = remaining s"
  "remaining (DecrementRecursionDepth s) = remaining s"
  "remaining (snd (IncrementRecursionDepth s)) = remaining s"
  by (simp_all add: remaining_def DecrementRecursionDepth_def IncrementRecursionDepth_def)

lemma remaining_limits [simp]:
  "remaining (RecomputeBufferLimits s) = remaining s" "remaining (PopLimit l s) = remaining s"
  "remaining (snd (PushLimit l s)) = remaining s"
proof -
  have r: "remaining (RecomputeBufferLimits s) = remaining s" for s
    by (auto simp: remaining_def RecomputeBufferLimits_def Let_def)
  then show "remaining (RecomputeBufferLimits s) = remaining s" "remaining (PopLimit l s) = remaining s"
    "remaining (snd (PushLimit l s)) = remaining s"
    by (simp_all add: PopLimit_def PushLimit_def Let_def)
qed

lemma remaining_tag:
  "ReadTagWithCutoff c s = ((t, b), s') \<Longrightarrow> remaining s' \<le> remaining s \<and> (t \<noteq> 0 \<longrightarrow> remaining s' < remaining s)"
  using read_frames(3) [of c s] ReadTagWithCutoff_length [of c s] by (auto simp: remaining_def)

lemma frame_dest:
  "ReadVarint32 s = (v, s') \<Longrightarrow> after_limit s' = after_limit s"
  "ReadVarint64 s = (w, s') \<Longrightarrow> after_limit s' = after_limit s"
  "ReadTag s = (t, s') \<Longrightarrow> after_limit s' = after_limit s"
  "ReadLittleEndian32 s = (v, s') \<Longrightarrow> after_limit s' = after_limit s"
  "ReadLittleEndian64 s = (w, s') \<Longrightarrow> after_limit s' = after_limit s"
  "InternalReadStringInline len str s = (ok, str', s') \<Longrightarrow> after_limit s' = after_limit s"
  "IncrementRecursionDepth s = (ok, s') \<Longrightarrow> after_limit s' = after_limit s"
  using read_frames(1-6) [where s = s] read_frames(7) [of len str s]
  by (auto simp: IncrementRecursionDepth_def)

lemma remaining_skip_aux:
  "(\<forall>tag s u ok s' u'. skip_field f tag s u = (ok, s', u') \<longrightarrow> after_limit s' = after_limit s) \<and>
   (\<forall>s u ok s' u'. skip_message f s u = (ok, s', u') \<longrightarrow> after_limit s' = after_limit s)"
proof (induction f)
  case (Suc f)
  have dec: "after_limit (DecrementRecursionDepth s) = after_limit s" for s
    by (simp add: DecrementRecursionDepth_def)
  have ih: "skip_field f tag s u = (ok, s', u') \<Longrightarrow> after_limit s' = after_limit s"
    "skip_message f s u = (ok, s', u') \<Longrightarrow> after_limit s' = after_limit s" for tag s u ok s' u'
    using Suc.IH by blast+
  have "after_limit s' = after_limit s" if sk: "skip_field (Suc f) tag s u = (ok, s', u')" for tag s u ok s' u'
  proof -
    define ty where "ty = unat (GetTagWireType tag)"
    consider "ty = 0" | "ty = 1" | "ty = 2" | "ty = 3" | "ty = 5" | "ty \<notin> {0, 1, 2, 3, 5}" by blast
    then show ?thesis
      using sk
      by cases (simp_all add: Let_def wiretypes ty_def dec split: if_splits option.splits prod.splits,
          auto simp: dec dest!: frame_dest ih)
  qed
  moreover have "after_limit s' = after_limit s" if "skip_message (Suc f) s u = (ok, s', u')" for s u ok s' u'
    using that by (auto split: if_splits prod.splits dest!: frame_dest ih)
  ultimately show ?case by blast
qed auto

lemma remaining_skip: "SkipField tag s u = (ok, s', u') \<Longrightarrow> remaining s' \<le> remaining s"
  using SkipField_length [of tag s u] remaining_skip_aux [of "2 * length (buf s) + 2"]
  unfolding SkipField_def remaining_def by (metis add_le_mono order_refl)

lemma remaining_expect:
  "ExpectTag t s = Some s' \<Longrightarrow> remaining s' < remaining s" "ExpectAtEnd s = Some s' \<Longrightarrow> remaining s' = remaining s"
  by (auto simp: ExpectTag_def ExpectAtEnd_def Advance_def remaining_def split: if_splits)

lemma remaining_varint32:
  "ReadVarint32 s = (v, s') \<Longrightarrow> remaining s' \<le> remaining s \<and> (v \<noteq> None \<longrightarrow> remaining s' < remaining s)"
  using ReadVarint32_length [of s] ReadVarint32_consumes [of s] read_frames(1) [of s]
  by (auto simp: remaining_def)

lemma consuming_uint32: "consuming (read_uint32 st)"
  by (auto simp: consuming_def read_uint32_def ReadUInt32_def split: option.splits prod.splits
      dest!: remaining_varint32)

lemma remaining_string: "InternalReadStringInline len str s = (ok, str', s') \<Longrightarrow> remaining s' \<le> remaining s"
  using InternalReadStringInline_length [of len str s] read_frames(7) [of len str s] by (auto simp: remaining_def)

lemma consuming_string: "consuming (read_string get st)"
  by (auto simp: consuming_def read_string_def ReadString_def split: option.splits prod.splits
      dest!: remaining_varint32 remaining_string)

lemma in_range_tag: "ReadTagWithCutoff 127 s = ((t, True), s') \<Longrightarrow> t \<noteq> 0"
proof -
  assume r: "ReadTagWithCutoff 127 s = ((t, True), s')"
  have "(ucast b :: u32) \<noteq> 0" if "0 < unat b" for b :: byte
    using that byte_less [of b] by (simp add: word_unat_eq_iff unat_ucast_mod)
  then show ?thesis
    using r tag_zero_above_cutoff
    by (auto simp: ReadTagWithCutoff_def Let_def sint_pos split: list.splits if_splits prod.splits)
qed

lemma consumingD:
  "consuming rd \<Longrightarrow> rd s m = (True, s', m') \<Longrightarrow> remaining s' < remaining s"
  unfolding consuming_def by blast

text \<open>More rounds than remaining bytes change nothing.\<close>

lemma merge_enough:
  assumes rd: "\<And>fl. fl \<in> set (field_table cls) \<Longrightarrow> consuming (f_read fl)"
  shows "\<forall>s m n k body. remaining s < b \<longrightarrow> remaining s < n \<longrightarrow> remaining s < k \<longrightarrow>
      merge_top n cls s m = merge_top k cls s m \<and>
      (body \<noteq> [] \<longrightarrow> set body \<subseteq> set (field_table cls) \<longrightarrow> merge_body n cls body s m = merge_body k cls body s m)"
proof (induction b)
  case (Suc b)
  have ih: "merge_top n cls s m = merge_top k cls s m"
    "body \<noteq> [] \<Longrightarrow> set body \<subseteq> set (field_table cls) \<Longrightarrow> merge_body n cls body s m = merge_body k cls body s m"
    if "remaining s < b" "remaining s < n" "remaining s < k" for s m n k body
    using Suc.IH that by blast+
  show ?case
  proof (intro allI impI conjI)
    fix s :: cis and m n k and body :: "'a field list"
    assume b: "remaining s < Suc b" and n: "remaining s < n" and k: "remaining s < k"
    obtain n' k' where nk: "n = Suc n'" "k = Suc k'" using n k by (cases n; cases k) auto
    note less = order.strict_trans2 [OF _ b [unfolded less_Suc_eq_le]]
      order.strict_trans2 [OF _ n [unfolded nk less_Suc_eq_le]]
      order.strict_trans2 [OF _ k [unfolded nk less_Suc_eq_le]]
    obtain tag rng s1 where tag: "ReadTagWithCutoff 127 s = ((tag, rng), s1)" by (metis prod.exhaust)
    note r1 = remaining_tag [OF tag]
    let ?body = "if rng then dropWhile (\<lambda>fl. f_tag fl \<noteq> tag) (field_table cls) else []"
    have sub: "set ?body \<subseteq> set (field_table cls)" by (auto dest: set_dropWhileD)
    show "merge_top n cls s m = merge_top k cls s m"
    proof (cases "?body = []")
      case True
      have "merge_top n' cls s2 m2 = merge_top k' cls s2 m2"
        if "tag \<noteq> 0" "SkipField tag s1 u = (True, s2, u')" for s2 m2 u u'
        using that r1 remaining_skip by (intro ih less) fastforce+
      with True show ?thesis by (auto simp: nk tag Let_def split: prod.split)
    next
      case False
      then have "tag \<noteq> 0" using in_range_tag [of s tag s1] tag by (auto split: if_splits)
      then have "merge_body n' cls ?body s1 m = merge_body k' cls ?body s1 m"
        using r1 False sub by (intro ih less) auto
      with False show ?thesis by (simp add: nk tag)
    qed
    assume ne: "body \<noteq> []" and sub: "set body \<subseteq> set (field_table cls)"
    then obtain fl rest where body: "body = fl # rest" by (cases body) auto
    have lt: "remaining s2 < remaining s" if "f_read fl s m = (True, s2, m2)" for s2 m2
      using that rd [of fl] sub body consumingD by fastforce
    have top: "merge_top n' cls s2 m2 = merge_top k' cls s2 m2" if "f_read fl s m = (True, s2, m2)" for s2 m2
      using lt [OF that] by (intro ih less)
    have jump: "merge_body n' cls rest s3 m2 = merge_body k' cls rest s3 m2"
      if "f_read fl s m = (True, s2, m2)" "ExpectTag t s2 = Some s3" "rest \<noteq> []" for s2 m2 t s3
      using lt [OF that(1)] remaining_expect(1) [OF that(2)] that(3) sub body by (intro ih less) auto
    show "merge_body n cls body s m = merge_body k cls body s m"
      using top jump by (auto simp: nk body split: prod.split list.split option.split)
  qed
qed auto

text \<open>An embedded message is read by its own loop, inside a limit.\<close>

lemma merge_remaining:
  assumes rd: "\<And>fl. fl \<in> set (field_table cls) \<Longrightarrow> consuming (f_read fl)"
  shows "(\<forall>s m ok s' m'. merge_top n cls s m = (ok, s', m') \<longrightarrow> remaining s' \<le> remaining s) \<and>
      (\<forall>body s m ok s' m'. set body \<subseteq> set (field_table cls) \<longrightarrow> merge_body n cls body s m = (ok, s', m') \<longrightarrow>
        remaining s' \<le> remaining s)"
proof (induction n)
  case (Suc n)
  have ih: "merge_top n cls s m = (ok, s', m') \<Longrightarrow> remaining s' \<le> remaining s"
    "merge_body n cls body s m = (ok, s', m') \<Longrightarrow> set body \<subseteq> set (field_table cls) \<Longrightarrow> remaining s' \<le> remaining s"
    for s m ok s' m' body
    using Suc.IH by blast+
  have "remaining s' \<le> remaining s" if "merge_top (Suc n) cls s m = (ok, s', m')" for s m ok s' m'
    using that
    by (fastforce simp: Let_def split: prod.splits if_splits dest: set_dropWhileD
        dest!: ih remaining_tag remaining_skip)
  moreover have "remaining s' \<le> remaining s"
    if "set body \<subseteq> set (field_table cls)" "merge_body (Suc n) cls body s m = (ok, s', m')" for body s m ok s' m'
  proof (cases body)
    case (Cons fl rest)
    obtain ok1 s1 m1 where r: "f_read fl s m = (ok1, s1, m1)" by (metis prod.exhaust)
    then have "remaining s1 \<le> remaining s" using rd [of fl] that(1) Cons by (fastforce simp: consuming_def)
    then show ?thesis
      using that Cons r
      by (fastforce split: list.splits if_splits option.splits dest!: ih remaining_expect)
  qed (use that ih in \<open>auto\<close>)
  ultimately show ?case by blast
qed auto

lemma consuming_message:
  assumes "\<And>fl. fl \<in> set (field_table cls) \<Longrightarrow> consuming (f_read fl)"
  shows "consuming (read_message cls get st)"
proof -
  have mrg: "remaining s' \<le> remaining s" if "MergePartialFromCodedStream cls s m = (ok, s', m')" for s m ok s' m'
    using that merge_remaining [OF assms] unfolding MergePartialFromCodedStream_def by blast
  have inc: "remaining s' = remaining s" if "IncrementRecursionDepth s = (ok, s')" for s ok s'
    using that remaining_simps(6) [of s] by simp
  have push: "remaining s' = remaining s" if "PushLimit l s = (k, s')" for s l k s'
    using that remaining_limits(3) [of l s] by simp
  show ?thesis
    by (auto simp: consuming_def read_message_def ReadMessageNoVirtual_def Let_def
        split: option.splits prod.splits if_splits dest!: remaining_varint32 mrg inc push)
qed
section \<open>Merging serialised fields\<close>

text \<open>
  What one field contributes to a serialised message: nothing, or its payload
  behind the tag, and the change that reading the payload makes.
\<close>

type_synonym 'm item = "'m field \<times> (byte list \<times> ('m \<Rightarrow> 'm)) option"

fun item_bytes :: "'m item \<Rightarrow> byte list" where
  "item_bytes (fl, None) = []"
| "item_bytes (fl, Some (payload, upd)) = ucast (f_tag fl) # payload"

fun item_update :: "'m item \<Rightarrow> 'm \<Rightarrow> 'm" where
  "item_update (fl, None) m = m"
| "item_update (fl, Some (payload, upd)) m = upd m"

abbreviation items_bytes :: "'m item list \<Rightarrow> byte list" where
  "items_bytes its \<equiv> concat (map item_bytes its)"

abbreviation items_update :: "'m item list \<Rightarrow> 'm \<Rightarrow> 'm" where
  "items_update its m \<equiv> fold item_update its m"

text \<open>A reader accepts a payload wherever it stands, changes the message by \<open>upd\<close> and
  leaves the stream behind the payload; \<open>d\<close> bounds the nesting already entered.\<close>

definition reads_as :: "int \<Rightarrow> (cis \<Rightarrow> 'm \<Rightarrow> bool \<times> cis \<times> 'm) \<Rightarrow> byte list \<Rightarrow> ('m \<Rightarrow> 'm) \<Rightarrow> bool" where
  "reads_as d rd payload upd \<longleftrightarrow>
     (\<forall>s rest m. flat s \<longrightarrow> 0 \<le> recursion_depth s \<longrightarrow> recursion_depth s \<le> d \<longrightarrow> buf s = payload @ rest \<longrightarrow>
        (\<exists>e t. (e \<longrightarrow> legitimate_message_end s) \<and>
           rd s m = (True, s\<lparr>buf := rest, legitimate_message_end := e, last_tag := t\<rparr>, upd m)))"

definition item_ok :: "int \<Rightarrow> 'm item \<Rightarrow> bool" where
  "item_ok d it \<longleftrightarrow> 0 < unat (f_tag (fst it)) \<and> unat (f_tag (fst it)) < 128 \<and>
     (\<forall>payload upd. snd it = Some (payload, upd) \<longrightarrow> payload \<noteq> [] \<and> reads_as d (f_read (fst it)) payload upd)"

text \<open>How the loop stops behind the last field: at the end of the (limited) data or
  at a zero byte.\<close>

definition stops :: "cis \<Rightarrow> byte list \<Rightarrow> 'm \<Rightarrow> bool \<times> cis \<times> 'm \<Rightarrow> bool" where
  "stops s rest m r \<longleftrightarrow>
     (if rest = [] then r = (True, s\<lparr>buf := [], legitimate_message_end := True, last_tag := 0\<rparr>, m)
      else \<exists>e. (e \<longrightarrow> legitimate_message_end s) \<and>
             r = (True, s\<lparr>buf := tl rest, legitimate_message_end := e, last_tag := 0\<rparr>, m))"

lemma stops_frame:
  "stops (s\<lparr>buf := b, legitimate_message_end := e, last_tag := t\<rparr>) rest m r \<Longrightarrow>
    (e \<longrightarrow> legitimate_message_end s) \<Longrightarrow> stops s rest m r"
  by (auto simp: stops_def split: if_splits)

lemma tag_byte:
  assumes "0 < unat t" and "unat (t :: u32) < 128"
  shows "unat (ucast t :: byte) = unat t" and "ucast (ucast t :: byte) = t"
proof -
  show e: "unat (ucast t :: byte) = unat t" using assms(2) by (simp add: unat_ucast_mod)
  then show "ucast (ucast t :: byte) = t"
    using unsigned_less [of t] by (simp add: word_unat_eq_iff unat_ucast_mod)
qed

lemma top_at_stop:
  assumes "flat s" and "buf s = rest" and "rest = [] \<or> hd rest = 0" and "0 < n"
  shows "stops s rest m (merge_top n cls s m)"
proof (cases rest)
  case Nil
  obtain n' where "n = Suc n'" using assms(4) by (cases n) auto
  with Nil assms show ?thesis by (simp add: ReadTagWithCutoff_end stops_def)
next
  case (Cons b r)
  obtain n' where "n = Suc n'" using assms(4) by (cases n) auto
  moreover have "ReadTagWithCutoff 127 s = ((0, False), s\<lparr>buf := r, last_tag := 0\<rparr>)"
    using assms(2,3) Cons by (intro ReadTagWithCutoff_zero) simp
  ultimately have "merge_top n cls s m = (True, s\<lparr>buf := r, last_tag := 0\<rparr>, m)" by simp
  with Cons show ?thesis unfolding stops_def by (auto intro!: exI [of _ "legitimate_message_end s"])
qed

lemma dropWhile_tag:
  assumes "distinct (map f_tag (pre @ fl # post))"
  shows "dropWhile (\<lambda>x. f_tag x \<noteq> f_tag fl) (pre @ fl # post) = fl # post"
proof -
  have "\<forall>x \<in> set pre. f_tag x \<noteq> f_tag fl" using assms by (auto simp: image_iff)
  then show ?thesis by (simp add: dropWhile_append2)
qed

lemma expect_next:
  assumes "item_ok d (fl, x)" and "buf s = ucast (f_tag fl) # bs"
  shows "ExpectTag (f_tag fl) s = Some (s\<lparr>buf := bs\<rparr>)"
  using assms tag_byte [of "f_tag fl"]
  by (auto simp: ExpectTag_def item_ok_def Advance_def word_less_nat_alt)

lemma expect_other:
  assumes "item_ok d (fl, None)" and "\<forall>it \<in> set its. item_ok d it"
    and "f_tag fl \<notin> (f_tag \<circ> fst) ` set its" and "rest = [] \<or> hd rest = 0"
    and "buf s = items_bytes its @ rest"
  shows "ExpectTag (f_tag fl) s = None"
proof -
  have "ucast (hd (buf s)) \<noteq> f_tag fl" if ne: "buf s \<noteq> []"
    using assms(2-5)
  proof (induction its)
    case Nil
    then show ?case using assms(1) ne by (auto simp: item_ok_def)
  next
    case (Cons it its)
    obtain f x where "it = (f, x)" by (cases it)
    then show ?case using Cons tag_byte [of "f_tag f"] by (cases x) (auto simp: item_ok_def)
  qed
  then show ?thesis using assms(1) by (auto simp: ExpectTag_def item_ok_def word_less_nat_alt)
qed
lemma stops_simps:
  "stops (s\<lparr>buf := b\<rparr>) rest m r = stops s rest m r"
  "stops (s\<lparr>last_tag := t\<rparr>) rest m r = stops s rest m r"
  by (simp_all add: stops_def)

definition entered :: "int \<Rightarrow> cis \<Rightarrow> bool" where
  "entered d s \<longleftrightarrow> flat s \<and> 0 \<le> recursion_depth s \<and> recursion_depth s \<le> d"

definition merges_top :: "'m msg_class \<Rightarrow> int \<Rightarrow> byte list \<Rightarrow> 'm item list \<Rightarrow> bool" where
  "merges_top cls d rest its \<longleftrightarrow>
     (\<forall>s m n. entered d s \<longrightarrow> length (buf s) < n \<longrightarrow> buf s = items_bytes its @ rest \<longrightarrow>
        stops s rest (items_update its m) (merge_top n cls s m))"

definition merges_body :: "'m msg_class \<Rightarrow> int \<Rightarrow> byte list \<Rightarrow> 'm item list \<Rightarrow> bool" where
  "merges_body cls d rest its \<longleftrightarrow>
     (\<forall>s m n fl payload upd its'. entered d s \<longrightarrow> length (buf s) < n \<longrightarrow> its = (fl, Some (payload, upd)) # its' \<longrightarrow>
        buf s = payload @ items_bytes its' @ rest \<longrightarrow>
        stops s rest (items_update its m) (merge_body n cls (map fst its) s m))"

lemma merges_top_step:
  assumes "merges_top cls d rest its" and "merges_body cls d rest (it # its)"
    and "field_table cls = pre @ map fst (it # its)" and "distinct (map f_tag (field_table cls))"
    and "item_ok d it"
  shows "merges_top cls d rest (it # its)"
  unfolding merges_top_def
proof (intro allI impI)
  fix s m and n :: nat
  assume s: "entered d s" and n: "length (buf s) < n" and b: "buf s = items_bytes (it # its) @ rest"
  obtain fl x where it: "it = (fl, x)" by (cases it)
  show "stops s rest (items_update (it # its) m) (merge_top n cls s m)"
  proof (cases x)
    case None
    then show ?thesis using assms(1) s n b it by (simp add: merges_top_def)
  next
    case (Some y)
    obtain payload upd where y: "y = (payload, upd)" by (cases y)
    obtain n' where n': "n = Suc n'" using n by (cases n) auto
    let ?s = "s\<lparr>buf := payload @ items_bytes its @ rest, last_tag := f_tag fl\<rparr>"
    have tag: "ReadTagWithCutoff 127 s = ((f_tag fl, True), ?s)"
      using ReadTagWithCutoff_byte [of s "ucast (f_tag fl)" "payload @ items_bytes its @ rest"] b it Some y
        assms(5) tag_byte [of "f_tag fl"]
      by (simp add: item_ok_def)
    have "dropWhile (\<lambda>x. f_tag x \<noteq> f_tag fl) (field_table cls) = map fst (it # its)"
      using dropWhile_tag [of pre fl "map fst its"] assms(3,4) it by simp
    then have "merge_top n cls s m = merge_body n' cls (map fst (it # its)) ?s m"
      using tag by (simp add: n' del: dropWhile.simps)
    moreover have "stops ?s rest (items_update (it # its) m) (merge_body n' cls (map fst (it # its)) ?s m)"
      using assms(2) s n b n' it Some y
      by (auto simp: merges_body_def entered_def flat_suffix)
    ultimately show ?thesis by (simp only: stops_simps)
  qed
qed

lemma merges_body_step:
  assumes top: "merges_top cls d rest its" and body: "merges_body cls d rest its"
    and table: "field_table cls = pre @ map fst (it # its)" and dist: "distinct (map f_tag (field_table cls))"
    and ok: "\<forall>it \<in> set (it # its). item_ok d it" and rest: "rest = [] \<or> hd rest = 0"
  shows "merges_body cls d rest (it # its)"
  unfolding merges_body_def
proof (intro allI impI)
  fix s m n fl payload upd its'
  assume s: "entered d s" and n: "length (buf s) < n" and it: "it # its = (fl, Some (payload, upd)) # its'"
    and b: "buf s = payload @ items_bytes its' @ rest"
  obtain n' where n': "n = Suc n'" using n by (cases n) auto
  have p: "payload \<noteq> []" "reads_as d (f_read fl) payload upd" using ok it by (auto simp: item_ok_def)
  obtain e tg where e: "e \<longrightarrow> legitimate_message_end s"
    and rd: "f_read fl s m = (True, s\<lparr>buf := items_bytes its @ rest, legitimate_message_end := e, last_tag := tg\<rparr>, upd m)"
    using p(2) s b it unfolding reads_as_def entered_def by blast
  let ?s = "s\<lparr>buf := items_bytes its @ rest, legitimate_message_end := e, last_tag := tg\<rparr>"
  have s1: "entered d ?s" "length (buf ?s) < n'"
    using s n b it p(1) n' by (cases payload; auto simp: entered_def flat_suffix)+
  have t: "stops ?s rest (items_update its (upd m)) (merge_top n' cls ?s (upd m))"
    using top s1 by (simp add: merges_top_def)
  have "stops ?s rest (items_update its (upd m)) (merge_body n cls (map fst (it # its)) s m)"
  proof (cases its)
    case Nil
    show ?thesis
    proof (cases "rest = []")
      case True
      have "ExpectAtEnd ?s = Some (?s\<lparr>last_tag := 0, legitimate_message_end := True\<rparr>)"
        using s Nil True by (auto simp: ExpectAtEnd_def entered_def flat_def)
      with Nil True it rd show ?thesis by (simp add: n' stops_def)
    next
      case False
      then have "ExpectAtEnd ?s = None" by (simp add: ExpectAtEnd_def)
      with Nil it rd t show ?thesis by (simp add: n')
    qed
  next
    case (Cons nx its2)
    obtain fl2 x where nx: "nx = (fl2, x)" by (cases nx)
    show ?thesis
    proof (cases x)
      case None
      have "ExpectTag (f_tag fl2) ?s = None"
        using ok rest dist table None nx Cons
        by (intro expect_other [of d fl2 its2 rest]) (auto simp: o_def)
      then have "merge_body n cls (map fst (it # its)) s m = merge_top n' cls ?s (upd m)"
        using Cons it rd nx by (auto simp: n')
      with t show ?thesis by (simp only:)
    next
      case (Some y)
      obtain pl up where y: "y = (pl, up)" by (cases y)
      let ?s2 = "?s\<lparr>buf := pl @ items_bytes its2 @ rest\<rparr>"
      have x: "ExpectTag (f_tag fl2) ?s = Some ?s2"
        using ok Cons nx Some y by (intro expect_next [of d _ x]) auto
      have "entered d ?s2" "length (buf ?s2) < n'"
        using s1 Cons nx Some y by (auto simp: entered_def flat_def)
      then have "stops ?s2 rest (items_update its (upd m)) (merge_body n' cls (map fst its) ?s2 (upd m))"
        using body Cons nx Some y unfolding merges_body_def by simp
      moreover have "merge_body n cls (map fst (it # its)) s m = merge_body n' cls (map fst its) ?s2 (upd m)"
        using Cons it rd nx x by (auto simp: n')
      ultimately show ?thesis by (simp only: stops_simps)
    qed
  qed
  then show "stops s rest (items_update (it # its) m) (merge_body n cls (map fst (it # its)) s m)"
    using stops_frame [OF _ e] it by simp
qed

lemma merges_items:
  assumes "distinct (map f_tag (field_table cls))" and "rest = [] \<or> hd rest = 0"
  shows "field_table cls = pre @ map fst its \<Longrightarrow> \<forall>it \<in> set its. item_ok d it \<Longrightarrow>
    merges_top cls d rest its \<and> merges_body cls d rest its"
proof (induction its arbitrary: pre)
  case Nil
  have "stops s rest m (merge_top n cls s m)" if "flat s" "length (buf s) < n" "buf s = rest" for s m n
    using that by (intro top_at_stop assms(2)) auto
  then show ?case by (auto simp: merges_top_def merges_body_def entered_def)
next
  case (Cons it its)
  then have "merges_top cls d rest its" "merges_body cls d rest its"
    using Cons.IH [of "pre @ [fst it]"] by auto
  with Cons.prems assms show ?case
    using merges_body_step [of cls d rest its pre it] merges_top_step [of cls d rest its it pre] by auto
qed

theorem merge_written:
  assumes "field_table cls = map fst its" and "distinct (map f_tag (field_table cls))"
    and "\<forall>it \<in> set its. item_ok d it" and "rest = [] \<or> hd rest = 0"
    and "entered d s" and "buf s = items_bytes its @ rest"
  shows "stops s rest (items_update its m) (MergePartialFromCodedStream cls s m)"
proof -
  have "merges_top cls d rest its" using merges_items [of cls rest "[]" its d] assms by simp
  moreover have "length (buf s) < remaining s + 1" by (simp add: remaining_def)
  ultimately show ?thesis
    unfolding merges_top_def MergePartialFromCodedStream_def using assms(5,6) by blast
qed
section \<open>The field bodies read their payloads\<close>

lemma reads_as_uint32: "reads_as d (read_uint32 st) (WriteVarint32ToArray v) (st v)"
  unfolding reads_as_def
proof (intro allI impI)
  fix s :: cis and rest m
  assume "buf s = WriteVarint32ToArray v @ rest"
  then have "read_uint32 st s m = (True, s\<lparr>buf := rest\<rparr>, st v m)"
    by (simp add: read_uint32_def ReadUInt32_written)
  then show "\<exists>e t. (e \<longrightarrow> legitimate_message_end s) \<and>
      read_uint32 st s m = (True, s\<lparr>buf := rest, legitimate_message_end := e, last_tag := t\<rparr>, st v m)"
    by (intro exI [of _ "legitimate_message_end s"] exI [of _ "last_tag s"]) simp
qed

lemma reads_as_string:
  assumes "length str < 2 ^ 31"
  shows "reads_as d (read_string get st) (WriteStringWithSizeToArray str) (st str)"
  unfolding reads_as_def
proof (intro allI impI)
  fix s :: cis and rest m
  assume "buf s = WriteStringWithSizeToArray str @ rest"
  then have "read_string get st s m = (True, s\<lparr>buf := rest\<rparr>, st str m)"
    using assms by (simp add: read_string_def ReadString_written)
  then show "\<exists>e t. (e \<longrightarrow> legitimate_message_end s) \<and>
      read_string get st s m = (True, s\<lparr>buf := rest, legitimate_message_end := e, last_tag := t\<rparr>, st str m)"
    by (intro exI [of _ "legitimate_message_end s"] exI [of _ "last_tag s"]) simp
qed

lemma ReadMessageNoVirtual_written:
  assumes merge: "\<And>s m. entered (d + 1) s \<Longrightarrow> buf s = bytes \<Longrightarrow> stops s [] (upd m) (merge s m)"
    and s: "entered d s" "d < 100" and len: "length bytes < 2 ^ 31"
    and b: "buf s = varint (length bytes) @ bytes @ rest"
  shows "ReadMessageNoVirtual merge s m = (True, s\<lparr>buf := rest, legitimate_message_end := False, last_tag := 0\<rparr>, upd m)"
proof -
  let ?s1 = "s\<lparr>buf := bytes @ rest\<rparr>"
  let ?s2 = "?s1\<lparr>recursion_depth := recursion_depth s + 1\<rparr>"
  let ?s3 = "?s2\<lparr>current_limit := CurrentPosition ?s2 + int (length bytes), buf := bytes,
    after_limit := rest @ after_limit s\<rparr>"
  let ?s4 = "?s3\<lparr>buf := [], legitimate_message_end := True, last_tag := 0\<rparr>"
  have f: "flat s" "0 \<le> recursion_depth s" "recursion_depth s \<le> d" using s by (auto simp: entered_def)
  have f2: "flat ?s2" using f(1) b by (simp add: flat_def)
  have u: "unat (of_nat (length bytes) :: u32) = length bytes" using len by (intro unat_of_nat_small) simp
  have r: "ReadVarint32 s = (Some (of_nat (length bytes)), ?s1)"
    using b u by (intro ReadVarint32_written) simp
  have i: "IncrementRecursionDepth ?s1 = (True, ?s2)" using f s(2) by (simp add: IncrementRecursionDepth_def)
  have p: "PushLimit (sint (of_nat (length bytes) :: u32)) ?s2 = (current_limit s, ?s3)"
    using PushLimit_flat [OF f2, of "length bytes"] sint_of_nat32 [OF len] by simp
  have f3: "entered (d + 1) ?s3"
    using f b by (simp add: entered_def flat_def CurrentPosition_def)
  have m: "merge ?s3 m = (True, ?s4, upd m)" using merge [OF f3] by (simp add: stops_def)
  have o: "PopLimit (current_limit s) ?s4 =
      ?s4\<lparr>current_limit := current_limit s, buf := rest, after_limit := after_limit s, legitimate_message_end := False\<rparr>"
    using f(1) PopLimit_flat [of ?s4 rest "after_limit s" "current_limit s"] by (simp add: flat_def)
  have "DecrementRecursionDepth (PopLimit (current_limit s) ?s4) =
      s\<lparr>buf := rest, legitimate_message_end := False, last_tag := 0\<rparr>"
    unfolding o DecrementRecursionDepth_def using f(2) by simp
  with r i p m show ?thesis by (simp add: ReadMessageNoVirtual_def Let_def)
qed

lemma reads_as_message:
  assumes "field_table cls = map fst its" and "distinct (map f_tag (field_table cls))"
    and "\<forall>it \<in> set its. item_ok (d + 1) it" and "d < 100" and "length (items_bytes its) < 2 ^ 31"
  shows "reads_as d (read_message cls get st) (varint (length (items_bytes its)) @ items_bytes its)
    (\<lambda>m. st (items_update its (get m)) m)"
  unfolding reads_as_def
proof (intro allI impI)
  fix s :: cis and rest m
  assume s: "flat s" "0 \<le> recursion_depth s" "recursion_depth s \<le> d"
    and b: "buf s = (varint (length (items_bytes its)) @ items_bytes its) @ rest"
  have "ReadMessageNoVirtual (MergePartialFromCodedStream cls) s (get m) =
      (True, s\<lparr>buf := rest, legitimate_message_end := False, last_tag := 0\<rparr>, items_update its (get m))"
    using assms s b
    by (intro ReadMessageNoVirtual_written [where d = d and upd = "items_update its" and bytes = "items_bytes its"]
        merge_written) (auto simp: entered_def)
  then show "\<exists>e t. (e \<longrightarrow> legitimate_message_end s) \<and> read_message cls get st s m =
      (True, s\<lparr>buf := rest, legitimate_message_end := e, last_tag := t\<rparr>, st (items_update its (get m)) m)"
    by (auto simp: read_message_def)
qed

lemma item_ok_uint32:
  "0 < unat t \<Longrightarrow> unat t < 128 \<Longrightarrow>
    item_ok d (\<lparr>f_tag = t, f_read = read_uint32 st\<rparr>, if b then Some (WriteVarint32ToArray v, st v) else None)"
  using reads_as_uint32 [of d st v] by (simp add: item_ok_def)

lemma item_ok_string:
  "0 < unat t \<Longrightarrow> unat t < 128 \<Longrightarrow> (b \<Longrightarrow> length v < 2 ^ 31) \<Longrightarrow>
    item_ok d (\<lparr>f_tag = t, f_read = read_string get st\<rparr>, if b then Some (WriteStringWithSizeToArray v, st v) else None)"
  using reads_as_string [of v d get st]
  by (cases b) (simp_all add: item_ok_def WriteStringWithSizeToArray_def)

lemma item_ok_message:
  assumes "0 < unat t" and "unat t < 128" and "map fst its = field_table cls"
    and "distinct (map f_tag (field_table cls))" and "d < 100"
    and "b \<Longrightarrow> \<forall>it \<in> set its. item_ok (d + 1) it" and "b \<Longrightarrow> length (items_bytes its) < 2 ^ 31"
  shows "item_ok d (\<lparr>f_tag = t, f_read = read_message cls get st\<rparr>,
    if b then Some (varint (length (items_bytes its)) @ items_bytes its, \<lambda>m. st (items_update its (get m)) m) else None)"
  using reads_as_message [of cls its d get st] assms by (cases b) (simp_all add: item_ok_def)

lemma ParseFromString_written:
  assumes "field_table cls = map fst its" and "distinct (map f_tag (field_table cls))"
    and "\<forall>it \<in> set its. item_ok 0 it" and "rest = [] \<or> hd rest = 0"
    and "length (items_bytes its @ rest) < 64 * 2 ^ 20"
  shows "ParseFromString clear (MergePartialFromCodedStream cls) (items_bytes its @ rest) m =
    (rest = [], items_update its (clear m))"
proof -
  have "entered 0 (CodedInputStream (items_bytes its @ rest))"
    using flat_init [OF assms(5)] by (simp add: entered_def CodedInputStream_def)
  then have "stops (CodedInputStream (items_bytes its @ rest)) rest (items_update its (clear m))
      (MergePartialFromCodedStream cls (CodedInputStream (items_bytes its @ rest)) (clear m))"
    using assms(1-4) by (intro merge_written) (simp_all add: CodedInputStream_def)
  then show ?thesis
    by (auto simp: ParseFromString_def stops_def CodedInputStream_def split: if_splits)
qed

section \<open>Invariants of the parsed message\<close>

text \<open>
  A predicate on messages that every field body and the store of unknown fields
  keep is kept by the whole loop, on any input and also when parsing fails.
\<close>

definition keeps :: "('m \<Rightarrow> bool) \<Rightarrow> (cis \<Rightarrow> 'm \<Rightarrow> bool \<times> cis \<times> 'm) \<Rightarrow> bool" where
  "keeps P rd \<longleftrightarrow> (\<forall>s m. P m \<longrightarrow> P (snd (snd (rd s m))))"

lemma keepsD: "keeps P rd \<Longrightarrow> P m \<Longrightarrow> rd s m = (ok, s', m') \<Longrightarrow> P m'"
  unfolding keeps_def by (metis snd_conv)

lemma keeps_uint32: "(\<And>v m. P m \<Longrightarrow> P (st v m)) \<Longrightarrow> keeps P (read_uint32 st)"
  by (auto simp: keeps_def read_uint32_def split: option.split prod.split)

lemma keeps_string: "(\<And>v m. P m \<Longrightarrow> P (st v m)) \<Longrightarrow> keeps P (read_string get st)"
  by (auto simp: keeps_def read_string_def split: prod.split)

lemma merge_loop_keeps:
  assumes fields: "\<And>fl. fl \<in> set (field_table cls) \<Longrightarrow> keeps P (f_read fl)"
    and unknown: "\<And>u m. P m \<Longrightarrow> P (set_unknown cls u m)"
  shows "(\<forall>s m. P m \<longrightarrow> P (snd (snd (merge_top n cls s m)))) \<and>
    (\<forall>body s m. set body \<subseteq> set (field_table cls) \<longrightarrow> P m \<longrightarrow> P (snd (snd (merge_body n cls body s m))))"
proof (induction n)
  case (Suc n)
  have top: "P (snd (snd (merge_top n cls s m)))" if "P m" for s m
    using Suc.IH that by blast
  have body: "P (snd (snd (merge_body n cls body s m)))" if "set body \<subseteq> set (field_table cls)" "P m" for body s m
    using Suc.IH that by blast
  have "P (snd (snd (merge_top (Suc n) cls s m)))" if "P m" for s m
    using that by (auto simp: Let_def split: prod.split intro!: top body unknown dest: set_dropWhileD)
  moreover have "P (snd (snd (merge_body (Suc n) cls body s m)))"
    if sub: "set body \<subseteq> set (field_table cls)" and m: "P m" for body s m
  proof (cases body)
    case (Cons fl rest)
    have "P m'" if "f_read fl s m = (ok, s', m')" for ok s' m'
      using keepsD [OF fields m that] sub Cons by simp
    then show ?thesis
      using Cons sub by (auto split: prod.split list.split option.split intro!: top body)
  qed (use m top in \<open>simp\<close>)
  ultimately show ?case by blast
qed simp

lemma merge_keeps:
  assumes "\<And>fl. fl \<in> set (field_table cls) \<Longrightarrow> keeps P (f_read fl)" and "\<And>u m. P m \<Longrightarrow> P (set_unknown cls u m)"
  shows "keeps P (MergePartialFromCodedStream cls)"
  using merge_loop_keeps [OF assms] unfolding keeps_def MergePartialFromCodedStream_def by blast

lemma keeps_message:
  assumes "keeps Q (MergePartialFromCodedStream cls)" and "\<And>m. P m \<Longrightarrow> Q (get m)" and "\<And>x m. P m \<Longrightarrow> Q x \<Longrightarrow> P (st x m)"
  shows "keeps P (read_message cls get st)"
proof -
  have "Q x" if "P m" "ReadMessageNoVirtual (MergePartialFromCodedStream cls) s (get m) = (ok, s', x)" for s m ok s' x
    using that assms(2) [OF that(1)]
    by (auto simp: ReadMessageNoVirtual_def Let_def split: option.splits prod.splits if_splits dest: keepsD [OF assms(1)])
  then show ?thesis
    using assms(3) by (auto simp: keeps_def read_message_def split: prod.split)
qed

section \<open>Pointers of the generated classes\<close>

text \<open>
  A string field points to the shared empty string (\<open>None\<close>) or to a string of its
  own.  \<open>str_mutable\<close> allocates it where the code does, \<open>str_clear\<close> keeps it.
\<close>

definition str_get :: "byte list option \<Rightarrow> byte list" where
  "str_get p = (case p of None \<Rightarrow> [] | Some s \<Rightarrow> s)"

definition str_mutable :: "byte list option \<Rightarrow> byte list option" where
  "str_mutable p = Some (str_get p)"

definition str_clear :: "byte list option \<Rightarrow> byte list option" where
  "str_clear p = (case p of None \<Rightarrow> None | Some s \<Rightarrow> Some [])"

lemma str_simps [simp]:
  "str_get None = []" "str_get (Some s) = s" "str_get (str_mutable p) = str_get p" "str_get (str_clear p) = []"
  by (auto simp: str_get_def str_mutable_def str_clear_def split: option.split)

text \<open>A \<^verbatim>\<open>const char*\<close> argument: the memory it points to, up to the first zero byte.\<close>

definition c_string :: "byte list \<Rightarrow> byte list res" where
  "c_string memory = (if 0 \<in> set memory then Inr (takeWhile (\<lambda>b. b \<noteq> 0) memory) else Inl OutOfBounds)"

text \<open>The masks of \<^verbatim>\<open>_has_bits_\<close> are single bits.\<close>

named_theorems has_bits \<open>has-bit masks as bits\<close>

lemma mask_bit [has_bits]:
  "w AND 1 \<noteq> 0 \<longleftrightarrow> bit w 0" "w AND 2 \<noteq> 0 \<longleftrightarrow> bit w 1" "w AND 4 \<noteq> 0 \<longleftrightarrow> bit w 2"
  "w AND 8 \<noteq> 0 \<longleftrightarrow> bit w 3" "w AND 16 \<noteq> 0 \<longleftrightarrow> bit w 4" for w :: u32
proof -
  have p: "push_bit 0 (1 :: u32) = 1" "push_bit 1 (1 :: u32) = 2" "push_bit 2 (1 :: u32) = 4"
    "push_bit 3 (1 :: u32) = 8" "push_bit 4 (1 :: u32) = 16" by simp_all
  show "w AND 1 \<noteq> 0 \<longleftrightarrow> bit w 0" using bit_iff_and_push_bit_not_eq_0 [of w 0] unfolding p by blast
  show "w AND 2 \<noteq> 0 \<longleftrightarrow> bit w 1" using bit_iff_and_push_bit_not_eq_0 [of w 1] unfolding p by blast
  show "w AND 4 \<noteq> 0 \<longleftrightarrow> bit w 2" using bit_iff_and_push_bit_not_eq_0 [of w 2] unfolding p by blast
  show "w AND 8 \<noteq> 0 \<longleftrightarrow> bit w 3" using bit_iff_and_push_bit_not_eq_0 [of w 3] unfolding p by blast
  show "w AND 16 \<noteq> 0 \<longleftrightarrow> bit w 4" using bit_iff_and_push_bit_not_eq_0 [of w 4] unfolding p by blast
qed

lemma bit_or_mask: "j < 32 \<Longrightarrow> bit (w OR 2 ^ j :: u32) k \<longleftrightarrow> bit w k \<or> k = j"
  by (auto simp: bit_or_iff bit_exp_iff)

lemma bit_and_not_mask: "bit (w AND NOT (2 ^ j) :: u32) k \<longleftrightarrow> bit w k \<and> k \<noteq> j"
  using bit_imp_le_length [of w k] by (auto simp: bit_and_iff bit_not_iff bit_exp_iff)

lemma set_bit [has_bits]:
  "bit (w OR 1) k \<longleftrightarrow> bit w k \<or> k = 0" "bit (w OR 2) k \<longleftrightarrow> bit w k \<or> k = 1"
  "bit (w OR 4) k \<longleftrightarrow> bit w k \<or> k = 2" "bit (w OR 8) k \<longleftrightarrow> bit w k \<or> k = 3"
  "bit (w OR 16) k \<longleftrightarrow> bit w k \<or> k = 4" for w :: u32
  using bit_or_mask [of 0 w k] bit_or_mask [of 1 w k] bit_or_mask [of 2 w k] bit_or_mask [of 3 w k]
    bit_or_mask [of 4 w k] by simp_all

lemma clear_bit [has_bits]:
  "bit (w AND NOT 1) k \<longleftrightarrow> bit w k \<and> k \<noteq> 0" "bit (w AND NOT 2) k \<longleftrightarrow> bit w k \<and> k \<noteq> 1"
  "bit (w AND NOT 4) k \<longleftrightarrow> bit w k \<and> k \<noteq> 2" "bit (w AND NOT 8) k \<longleftrightarrow> bit w k \<and> k \<noteq> 3"
  "bit (w AND NOT 16) k \<longleftrightarrow> bit w k \<and> k \<noteq> 4" for w :: u32
proof -
  have p: "(2 :: u32) ^ 0 = 1" "(2 :: u32) ^ 1 = 2" "(2 :: u32) ^ 2 = 4" "(2 :: u32) ^ 3 = 8" "(2 :: u32) ^ 4 = 16"
    by simp_all
  note bs = bit_and_not_mask [of w 0 k] bit_and_not_mask [of w 1 k] bit_and_not_mask [of w 2 k]
    bit_and_not_mask [of w 3 k] bit_and_not_mask [of w 4 k]
  show "bit (w AND NOT 1) k \<longleftrightarrow> bit w k \<and> k \<noteq> 0" "bit (w AND NOT 2) k \<longleftrightarrow> bit w k \<and> k \<noteq> 1"
    "bit (w AND NOT 4) k \<longleftrightarrow> bit w k \<and> k \<noteq> 2" "bit (w AND NOT 8) k \<longleftrightarrow> bit w k \<and> k \<noteq> 3"
    "bit (w AND NOT 16) k \<longleftrightarrow> bit w k \<and> k \<noteq> 4"
    using bs unfolding p by blast+
qed

lemma clear_bit_minus [has_bits]:
  "bit (w AND - 2) k \<longleftrightarrow> bit w k \<and> k \<noteq> 0" "bit (w AND - 3) k \<longleftrightarrow> bit w k \<and> k \<noteq> 1"
  "bit (w AND - 5) k \<longleftrightarrow> bit w k \<and> k \<noteq> 2" "bit (w AND - 9) k \<longleftrightarrow> bit w k \<and> k \<noteq> 3"
  "bit (w AND - 17) k \<longleftrightarrow> bit w k \<and> k \<noteq> 4" for w :: u32
  using clear_bit [of w k] by simp_all

lemma mask_none:
  "w AND 0xFF = 0 \<Longrightarrow> k < 8 \<Longrightarrow> \<not> bit w k" "w AND 31 = 0 \<Longrightarrow> k < 5 \<Longrightarrow> \<not> bit w k"
  "w AND 7 = 0 \<Longrightarrow> k < 3 \<Longrightarrow> \<not> bit w k" "w AND 3 = 0 \<Longrightarrow> k < 2 \<Longrightarrow> \<not> bit w k" for w :: u32
proof -
  have m: "mask 8 = (0xFF :: u32)" "mask 5 = (31 :: u32)" "mask 3 = (7 :: u32)" "mask 2 = (3 :: u32)"
    by (simp_all add: mask_eq_exp_minus_1)
  have *: "\<not> bit w k" if "w AND mask n = 0" "k < n" for n
    using that by (metis bit_take_bit_iff bit_0_eq take_bit_eq_mask bot_apply bot_bool_def)
  show "w AND 0xFF = 0 \<Longrightarrow> k < 8 \<Longrightarrow> \<not> bit w k" "w AND 31 = 0 \<Longrightarrow> k < 5 \<Longrightarrow> \<not> bit w k"
    "w AND 7 = 0 \<Longrightarrow> k < 3 \<Longrightarrow> \<not> bit w k" "w AND 3 = 0 \<Longrightarrow> k < 2 \<Longrightarrow> \<not> bit w k"
    using *[of 8] *[of 5] *[of 3] *[of 2] unfolding m by blast+
qed

section \<open>The contract of a message class\<close>

text \<open>
  What a generated class provides: a field table with distinct tags whose readers
  consume what they accept, a size computation that agrees with the serialiser,
  and, for messages without unknown fields (\<open>plain\<close>), a serialisation that is the
  sequence of its present fields, whose effect is that of \<^verbatim>\<open>MergeFrom\<close>.
\<close>

locale pb_message =
  fixes cls :: "'m msg_class"
    and clear :: "'m \<Rightarrow> 'm"
    and byte_size :: "'m \<Rightarrow> int \<times> 'm"
    and serialize :: "'m \<Rightarrow> byte list"
    and merge_from :: "'m \<Rightarrow> 'm \<Rightarrow> 'm"
    and items :: "'m \<Rightarrow> 'm item list"
    and plain :: "'m \<Rightarrow> bool"
  assumes consuming_fields: "fl \<in> set (field_table cls) \<Longrightarrow> consuming (f_read fl)"
    and distinct_tags: "distinct (map f_tag (field_table cls))"
    and items_table: "map fst (items m) = field_table cls"
    and size_is_length: "fst (byte_size m) = int (length (serialize (snd (byte_size m))))"
    and plain_bytes: "plain m \<Longrightarrow> serialize (snd (byte_size m)) = items_bytes (items m)"
    and plain_items: "plain m \<Longrightarrow> it \<in> set (items m) \<Longrightarrow> item_ok 0 it"
    and plain_merge: "plain m \<Longrightarrow> items_update (items m) m0 = merge_from m m0"
begin

lemma serialize_total:
  "SerializeToString byte_size serialize m = Inr (serialize (snd (byte_size m)), snd (byte_size m))"
  using size_is_length [of m] by (cases "byte_size m") (simp add: SerializeToString_def)

lemma parse_serialised_then:
  assumes "plain m" and "SerializeToString byte_size serialize m = Inr (data, m')"
    and "length (data @ rest) < 64 * 2 ^ 20" and "rest = [] \<or> hd rest = 0"
  shows "ParseFromString clear (MergePartialFromCodedStream cls) (data @ rest) m0 =
    (rest = [], merge_from m (clear m0))"
proof -
  have d: "data = items_bytes (items m)" using assms(1,2) by (simp add: serialize_total plain_bytes)
  show ?thesis
    unfolding d plain_merge [OF assms(1), symmetric]
    using assms d items_table distinct_tags plain_items by (intro ParseFromString_written) auto
qed

lemma parse_serialised:
  assumes "plain m" and "SerializeToString byte_size serialize m = Inr (data, m')" and "length data < 64 * 2 ^ 20"
  shows "ParseFromString clear (MergePartialFromCodedStream cls) data m0 = (True, merge_from m (clear m0))"
  using parse_serialised_then [of m data m' "[]"] assms by simp

lemma loop_bound:
  assumes "remaining s < n"
  shows "merge_top n cls s m = MergePartialFromCodedStream cls s m"
proof -
  have "remaining s < remaining s + 1" by simp
  then show ?thesis
    using merge_enough [OF consuming_fields] assms unfolding MergePartialFromCodedStream_def by blast
qed

end

end
