(* ===== verification/Pb_Server.thy ===== *)
theory Pb_Server
  imports Pb_Message
begin

text \<open>
  The messages of \<^verbatim>\<open>server.proto\<close> as the generated classes of
  \<^verbatim>\<open>src/libs/pb/src/server.pb.h\<close> and \<^verbatim>\<open>server.pb.cc\<close> implement them:
  \<^verbatim>\<open>serverappinfo\<close> (prefix \<open>info\<close>), \<^verbatim>\<open>ss_register_request\<close> (\<open>req\<close>) and
  \<^verbatim>\<open>ss_register_return\<close> (\<open>ret\<close>).  A field \<^verbatim>\<open>x_\<close> is the record field of the same
  name; a string pointer is \<open>None\<close> while it points to the shared empty string,
  a message pointer is \<open>None\<close> while it is \<^verbatim>\<open>NULL\<close>; \<^verbatim>\<open>_has_bits_\<close> is the word the
  code masks.  \<open>mutable_...\<close> gives the message in which the pointer is filled.
  The two-object calls take the addresses that the code compares.

  Shown here: the three classes satisfy the contract \<open>pb_message\<close>, an absent field
  always holds its default, and every operation does to the optional fields what
  its name says.
\<close>

section \<open>\<^verbatim>\<open>serverappinfo\<close>\<close>

record serverappinfo =
  si_unknown :: "unknown_field list"
  si_has_bits :: u32
  si_cached_size :: int
  si_id :: "u32"
  si_type :: "u32"
  si_name :: "byte list option"
  si_ip :: "byte list option"
  si_port :: "u32"

definition info_SharedCtor :: serverappinfo where
  "info_SharedCtor =
     \<lparr>si_unknown = [], si_has_bits = 0, si_cached_size = 0,
      si_id = 0, si_type = 0, si_name = None, si_ip = None, si_port = 0\<rparr>"

paragraph \<open>\<^verbatim>\<open>id\<close>\<close>

definition info_has_id :: "serverappinfo \<Rightarrow> bool" where
  "info_has_id m = (si_has_bits m AND 0x00000001 \<noteq> 0)"

definition info_set_has_id :: "serverappinfo \<Rightarrow> serverappinfo" where
  "info_set_has_id m = m\<lparr>si_has_bits := si_has_bits m OR 0x00000001\<rparr>"

definition info_clear_has_id :: "serverappinfo \<Rightarrow> serverappinfo" where
  "info_clear_has_id m = m\<lparr>si_has_bits := si_has_bits m AND NOT 0x00000001\<rparr>"

definition info_clear_id :: "serverappinfo \<Rightarrow> serverappinfo" where
  "info_clear_id m = info_clear_has_id (m\<lparr>si_id := 0\<rparr>)"

definition info_get_id :: "serverappinfo \<Rightarrow> u32" where
  "info_get_id m = si_id m"

definition info_set_id :: "u32 \<Rightarrow> serverappinfo \<Rightarrow> serverappinfo" where
  "info_set_id value m = (info_set_has_id m)\<lparr>si_id := value\<rparr>"

paragraph \<open>\<^verbatim>\<open>type\<close>\<close>

definition info_has_type :: "serverappinfo \<Rightarrow> bool" where
  "info_has_type m = (si_has_bits m AND 0x00000002 \<noteq> 0)"

definition info_set_has_type :: "serverappinfo \<Rightarrow> serverappinfo" where
  "info_set_has_type m = m\<lparr>si_has_bits := si_has_bits m OR 0x00000002\<rparr>"

definition info_clear_has_type :: "serverappinfo \<Rightarrow> serverappinfo" where
  "info_clear_has_type m = m\<lparr>si_has_bits := si_has_bits m AND NOT 0x00000002\<rparr>"

definition info_clear_type :: "serverappinfo \<Rightarrow> serverappinfo" where
  "info_clear_type m = info_clear_has_type (m\<lparr>si_type := 0\<rparr>)"

definition info_get_type :: "serverappinfo \<Rightarrow> u32" where
  "info_get_type m = si_type m"

definition info_set_type :: "u32 \<Rightarrow> serverappinfo \<Rightarrow> serverappinfo" where
  "info_set_type value m = (info_set_has_type m)\<lparr>si_type := value\<rparr>"

paragraph \<open>\<^verbatim>\<open>name\<close>\<close>

definition info_has_name :: "serverappinfo \<Rightarrow> bool" where
  "info_has_name m = (si_has_bits m AND 0x00000004 \<noteq> 0)"

definition info_set_has_name :: "serverappinfo \<Rightarrow> serverappinfo" where
  "info_set_has_name m = m\<lparr>si_has_bits := si_has_bits m OR 0x00000004\<rparr>"

definition info_clear_has_name :: "serverappinfo \<Rightarrow> serverappinfo" where
  "info_clear_has_name m = m\<lparr>si_has_bits := si_has_bits m AND NOT 0x00000004\<rparr>"

definition info_clear_name :: "serverappinfo \<Rightarrow> serverappinfo" where
  "info_clear_name m = info_clear_has_name (m\<lparr>si_name := str_clear (si_name m)\<rparr>)"

definition info_get_name :: "serverappinfo \<Rightarrow> byte list" where
  "info_get_name m = str_get (si_name m)"

definition info_mutable_name :: "serverappinfo \<Rightarrow> serverappinfo" where
  "info_mutable_name m = (info_set_has_name m)\<lparr>si_name := str_mutable (si_name m)\<rparr>"

definition info_set_name :: "byte list \<Rightarrow> serverappinfo \<Rightarrow> serverappinfo" where
  "info_set_name value m = (info_mutable_name m)\<lparr>si_name := Some value\<rparr>"

definition info_set_name_chars :: "byte list \<Rightarrow> serverappinfo \<Rightarrow> serverappinfo res" where
  "info_set_name_chars value m =
     res_bind (c_string value) (\<lambda>str. Inr (info_set_name str m))"

definition info_set_name_sized :: "byte list \<Rightarrow> nat \<Rightarrow> serverappinfo \<Rightarrow> serverappinfo res" where
  "info_set_name_sized value sz m =
     (if sz \<le> length value then Inr (info_set_name (take sz value) m) else Inl OutOfBounds)"

definition info_release_name :: "serverappinfo \<Rightarrow> byte list option \<times> serverappinfo" where
  "info_release_name m = (si_name m, (info_clear_has_name m)\<lparr>si_name := None\<rparr>)"

definition info_set_allocated_name :: "byte list option \<Rightarrow> serverappinfo \<Rightarrow> serverappinfo" where
  "info_set_allocated_name value m =
     (case value of
        Some str \<Rightarrow> (info_set_has_name m)\<lparr>si_name := Some str\<rparr>
      | None \<Rightarrow> (info_clear_has_name m)\<lparr>si_name := None\<rparr>)"

paragraph \<open>\<^verbatim>\<open>ip\<close>\<close>

definition info_has_ip :: "serverappinfo \<Rightarrow> bool" where
  "info_has_ip m = (si_has_bits m AND 0x00000008 \<noteq> 0)"

definition info_set_has_ip :: "serverappinfo \<Rightarrow> serverappinfo" where
  "info_set_has_ip m = m\<lparr>si_has_bits := si_has_bits m OR 0x00000008\<rparr>"

definition info_clear_has_ip :: "serverappinfo \<Rightarrow> serverappinfo" where
  "info_clear_has_ip m = m\<lparr>si_has_bits := si_has_bits m AND NOT 0x00000008\<rparr>"

definition info_clear_ip :: "serverappinfo \<Rightarrow> serverappinfo" where
  "info_clear_ip m = info_clear_has_ip (m\<lparr>si_ip := str_clear (si_ip m)\<rparr>)"

definition info_get_ip :: "serverappinfo \<Rightarrow> byte list" where
  "info_get_ip m = str_get (si_ip m)"

definition info_mutable_ip :: "serverappinfo \<Rightarrow> serverappinfo" where
  "info_mutable_ip m = (info_set_has_ip m)\<lparr>si_ip := str_mutable (si_ip m)\<rparr>"

definition info_set_ip :: "byte list \<Rightarrow> serverappinfo \<Rightarrow> serverappinfo" where
  "info_set_ip value m = (info_mutable_ip m)\<lparr>si_ip := Some value\<rparr>"

definition info_set_ip_chars :: "byte list \<Rightarrow> serverappinfo \<Rightarrow> serverappinfo res" where
  "info_set_ip_chars value m =
     res_bind (c_string value) (\<lambda>str. Inr (info_set_ip str m))"

definition info_set_ip_sized :: "byte list \<Rightarrow> nat \<Rightarrow> serverappinfo \<Rightarrow> serverappinfo res" where
  "info_set_ip_sized value sz m =
     (if sz \<le> length value then Inr (info_set_ip (take sz value) m) else Inl OutOfBounds)"

definition info_release_ip :: "serverappinfo \<Rightarrow> byte list option \<times> serverappinfo" where
  "info_release_ip m = (si_ip m, (info_clear_has_ip m)\<lparr>si_ip := None\<rparr>)"

definition info_set_allocated_ip :: "byte list option \<Rightarrow> serverappinfo \<Rightarrow> serverappinfo" where
  "info_set_allocated_ip value m =
     (case value of
        Some str \<Rightarrow> (info_set_has_ip m)\<lparr>si_ip := Some str\<rparr>
      | None \<Rightarrow> (info_clear_has_ip m)\<lparr>si_ip := None\<rparr>)"

paragraph \<open>\<^verbatim>\<open>port\<close>\<close>

definition info_has_port :: "serverappinfo \<Rightarrow> bool" where
  "info_has_port m = (si_has_bits m AND 0x00000010 \<noteq> 0)"

definition info_set_has_port :: "serverappinfo \<Rightarrow> serverappinfo" where
  "info_set_has_port m = m\<lparr>si_has_bits := si_has_bits m OR 0x00000010\<rparr>"

definition info_clear_has_port :: "serverappinfo \<Rightarrow> serverappinfo" where
  "info_clear_has_port m = m\<lparr>si_has_bits := si_has_bits m AND NOT 0x00000010\<rparr>"

definition info_clear_port :: "serverappinfo \<Rightarrow> serverappinfo" where
  "info_clear_port m = info_clear_has_port (m\<lparr>si_port := 0\<rparr>)"

definition info_get_port :: "serverappinfo \<Rightarrow> u32" where
  "info_get_port m = si_port m"

definition info_set_port :: "u32 \<Rightarrow> serverappinfo \<Rightarrow> serverappinfo" where
  "info_set_port value m = (info_set_has_port m)\<lparr>si_port := value\<rparr>"

paragraph \<open>Whole-message operations\<close>

definition info_Clear :: "serverappinfo \<Rightarrow> serverappinfo" where
  "info_Clear m =
     (let m1 = (if si_has_bits m AND 31 \<noteq> 0
                then m\<lparr>si_id := 0,
                       si_type := 0,
                       si_name := (if info_has_name m then str_clear (si_name m) else si_name m),
                       si_ip := (if info_has_ip m then str_clear (si_ip m) else si_ip m),
                       si_port := 0\<rparr>
                else m)
      in m1\<lparr>si_has_bits := 0, si_unknown := []\<rparr>)"

definition info_class :: "serverappinfo msg_class" where
  "info_class =
     \<lparr>field_table =
        [\<lparr>f_tag = 8, f_read = read_uint32 info_set_id\<rparr>,
         \<lparr>f_tag = 16, f_read = read_uint32 info_set_type\<rparr>,
         \<lparr>f_tag = 26, f_read = read_string info_get_name info_set_name\<rparr>,
         \<lparr>f_tag = 34, f_read = read_string info_get_ip info_set_ip\<rparr>,
         \<lparr>f_tag = 40, f_read = read_uint32 info_set_port\<rparr>],
      get_unknown = si_unknown,
      set_unknown = (\<lambda>u m. m\<lparr>si_unknown := u\<rparr>)\<rparr>"

definition info_SerializeWithCachedSizesToArray :: "serverappinfo \<Rightarrow> byte list" where
  "info_SerializeWithCachedSizesToArray m =
     (if info_has_id m then WriteUInt32ToArray 1 (info_get_id m) else []) @
     (if info_has_type m then WriteUInt32ToArray 2 (info_get_type m) else []) @
     (if info_has_name m then WriteStringToArray 3 (info_get_name m) else []) @
     (if info_has_ip m then WriteStringToArray 4 (info_get_ip m) else []) @
     (if info_has_port m then WriteUInt32ToArray 5 (info_get_port m) else []) @
     (if si_unknown m \<noteq> [] then SerializeUnknownFieldsToArray (si_unknown m) else [])"

definition info_ByteSize :: "serverappinfo \<Rightarrow> int \<times> serverappinfo" where
  "info_ByteSize m =
     (let total_size =
            (if si_has_bits m AND 0xFF \<noteq> 0
             then (if info_has_id m then 1 + UInt32Size (info_get_id m) else 0) +
                  (if info_has_type m then 1 + UInt32Size (info_get_type m) else 0) +
                  (if info_has_name m then 1 + StringSize (info_get_name m) else 0) +
                  (if info_has_ip m then 1 + StringSize (info_get_ip m) else 0) +
                  (if info_has_port m then 1 + UInt32Size (info_get_port m) else 0)
             else 0) +
            (if si_unknown m \<noteq> [] then ComputeUnknownFieldsSize (si_unknown m) else 0)
      in (total_size, m\<lparr>si_cached_size := total_size\<rparr>))"

definition info_merge_fields :: "serverappinfo \<Rightarrow> serverappinfo \<Rightarrow> serverappinfo" where
  "info_merge_fields from m =
     (let m0 = (if si_has_bits from AND 0xFF \<noteq> 0
                then let m1 = (if info_has_id from then info_set_id (info_get_id from) m else m);
                         m2 = (if info_has_type from then info_set_type (info_get_type from) m1 else m1);
                         m3 = (if info_has_name from then info_set_name (info_get_name from) m2 else m2);
                         m4 = (if info_has_ip from then info_set_ip (info_get_ip from) m3 else m3);
                         m5 = (if info_has_port from then info_set_port (info_get_port from) m4 else m4)
                     in m5
                else m)
      in m0\<lparr>si_unknown := si_unknown m0 @ si_unknown from\<rparr>)"

definition info_MergeFrom :: "ptr \<Rightarrow> serverappinfo \<Rightarrow> ptr \<Rightarrow> serverappinfo \<Rightarrow> serverappinfo res" where
  "info_MergeFrom from_ptr from this m =
     (if from_ptr = this then Inl AssertFail else Inr (info_merge_fields from m))"

definition info_CopyFrom :: "ptr \<Rightarrow> serverappinfo \<Rightarrow> ptr \<Rightarrow> serverappinfo \<Rightarrow> serverappinfo res" where
  "info_CopyFrom from_ptr from this m =
     (if from_ptr = this then Inr m else info_MergeFrom from_ptr from this (info_Clear m))"

definition info_Swap :: "serverappinfo \<Rightarrow> serverappinfo \<Rightarrow> serverappinfo \<times> serverappinfo" where
  "info_Swap m other =
     (m\<lparr>si_id := si_id other, si_type := si_type other, si_name := si_name other,
          si_ip := si_ip other, si_port := si_port other, si_has_bits := si_has_bits other,
          si_unknown := si_unknown other, si_cached_size := si_cached_size other\<rparr>,
      other\<lparr>si_id := si_id m, si_type := si_type m, si_name := si_name m,
          si_ip := si_ip m, si_port := si_port m, si_has_bits := si_has_bits m,
          si_unknown := si_unknown m, si_cached_size := si_cached_size m\<rparr>)"

section \<open>\<^verbatim>\<open>ss_register_request\<close>\<close>

record ss_register_request =
  rq_unknown :: "unknown_field list"
  rq_has_bits :: u32
  rq_cached_size :: int
  rq_info :: "serverappinfo option"

definition req_SharedCtor :: ss_register_request where
  "req_SharedCtor =
     \<lparr>rq_unknown = [], rq_has_bits = 0, rq_cached_size = 0,
      rq_info = None\<rparr>"

paragraph \<open>\<^verbatim>\<open>info\<close>\<close>

definition req_has_info :: "ss_register_request \<Rightarrow> bool" where
  "req_has_info m = (rq_has_bits m AND 0x00000001 \<noteq> 0)"

definition req_set_has_info :: "ss_register_request \<Rightarrow> ss_register_request" where
  "req_set_has_info m = m\<lparr>rq_has_bits := rq_has_bits m OR 0x00000001\<rparr>"

definition req_clear_has_info :: "ss_register_request \<Rightarrow> ss_register_request" where
  "req_clear_has_info m = m\<lparr>rq_has_bits := rq_has_bits m AND NOT 0x00000001\<rparr>"

definition req_clear_info :: "ss_register_request \<Rightarrow> ss_register_request" where
  "req_clear_info m = req_clear_has_info (m\<lparr>rq_info := map_option info_Clear (rq_info m)\<rparr>)"

definition req_get_info :: "ss_register_request \<Rightarrow> serverappinfo" where
  "req_get_info m = (case rq_info m of Some x \<Rightarrow> x | None \<Rightarrow> info_SharedCtor)"

definition req_mutable_info :: "ss_register_request \<Rightarrow> ss_register_request" where
  "req_mutable_info m = (req_set_has_info m)\<lparr>rq_info := Some (req_get_info m)\<rparr>"

definition req_release_info :: "ss_register_request \<Rightarrow> serverappinfo option \<times> ss_register_request" where
  "req_release_info m = (rq_info m, (req_clear_has_info m)\<lparr>rq_info := None\<rparr>)"

definition req_set_allocated_info :: "serverappinfo option \<Rightarrow> ss_register_request \<Rightarrow> ss_register_request" where
  "req_set_allocated_info value m =
     (case value of
        Some x \<Rightarrow> (req_set_has_info m)\<lparr>rq_info := Some x\<rparr>
      | None \<Rightarrow> (req_clear_has_info m)\<lparr>rq_info := None\<rparr>)"

paragraph \<open>Whole-message operations\<close>

definition req_Clear :: "ss_register_request \<Rightarrow> ss_register_request" where
  "req_Clear m = m\<lparr>rq_info := (if req_has_info m then map_option info_Clear (rq_info m) else rq_info m), rq_has_bits := 0, rq_unknown := []\<rparr>"

definition req_class :: "ss_register_request msg_class" where
  "req_class =
     \<lparr>field_table =
        [\<lparr>f_tag = 10, f_read = read_message info_class (\<lambda>m. req_get_info (req_mutable_info m))
            (\<lambda>x m. (req_mutable_info m)\<lparr>rq_info := Some x\<rparr>)\<rparr>],
      get_unknown = rq_unknown,
      set_unknown = (\<lambda>u m. m\<lparr>rq_unknown := u\<rparr>)\<rparr>"

definition req_SerializeWithCachedSizesToArray :: "ss_register_request \<Rightarrow> byte list" where
  "req_SerializeWithCachedSizesToArray m =
     (if req_has_info m then WriteMessageNoVirtualToArray 1 (si_cached_size (req_get_info m))
        (info_SerializeWithCachedSizesToArray (req_get_info m)) else []) @
     (if rq_unknown m \<noteq> [] then SerializeUnknownFieldsToArray (rq_unknown m) else [])"

definition req_ByteSize :: "ss_register_request \<Rightarrow> int \<times> ss_register_request" where
  "req_ByteSize m =
     (let total_size =
            (if rq_has_bits m AND 0xFF \<noteq> 0
             then (if req_has_info m then 1 + LengthDelimitedSize (fst (info_ByteSize (req_get_info m))) else 0)
             else 0) +
            (if rq_unknown m \<noteq> [] then ComputeUnknownFieldsSize (rq_unknown m) else 0)
      in (total_size, m\<lparr>rq_cached_size := total_size,
                        rq_info := (if rq_has_bits m AND 0xFF \<noteq> 0 \<and> req_has_info m then map_option (snd \<circ> info_ByteSize) (rq_info m) else rq_info m)\<rparr>))"

definition req_merge_fields :: "ss_register_request \<Rightarrow> ss_register_request \<Rightarrow> ss_register_request" where
  "req_merge_fields from m =
     (let m0 = (if rq_has_bits from AND 0xFF \<noteq> 0
                then let m1 = (if req_has_info from then (req_mutable_info m)\<lparr>rq_info := Some (info_merge_fields (req_get_info from) (req_get_info (req_mutable_info m)))\<rparr> else m)
                     in m1
                else m)
      in m0\<lparr>rq_unknown := rq_unknown m0 @ rq_unknown from\<rparr>)"

definition req_MergeFrom :: "ptr \<Rightarrow> ss_register_request \<Rightarrow> ptr \<Rightarrow> ss_register_request \<Rightarrow> ss_register_request res" where
  "req_MergeFrom from_ptr from this m =
     (if from_ptr = this then Inl AssertFail else Inr (req_merge_fields from m))"

definition req_CopyFrom :: "ptr \<Rightarrow> ss_register_request \<Rightarrow> ptr \<Rightarrow> ss_register_request \<Rightarrow> ss_register_request res" where
  "req_CopyFrom from_ptr from this m =
     (if from_ptr = this then Inr m else req_MergeFrom from_ptr from this (req_Clear m))"

definition req_Swap :: "ss_register_request \<Rightarrow> ss_register_request \<Rightarrow> ss_register_request \<times> ss_register_request" where
  "req_Swap m other =
     (m\<lparr>rq_info := rq_info other, rq_has_bits := rq_has_bits other, rq_unknown := rq_unknown other,
          rq_cached_size := rq_cached_size other\<rparr>,
      other\<lparr>rq_info := rq_info m, rq_has_bits := rq_has_bits m, rq_unknown := rq_unknown m,
          rq_cached_size := rq_cached_size m\<rparr>)"

section \<open>\<^verbatim>\<open>ss_register_return\<close>\<close>

record ss_register_return =
  rt_unknown :: "unknown_field list"
  rt_has_bits :: u32
  rt_cached_size :: int
  rt_result :: "u32"
  rt_info :: "serverappinfo option"

definition ret_SharedCtor :: ss_register_return where
  "ret_SharedCtor =
     \<lparr>rt_unknown = [], rt_has_bits = 0, rt_cached_size = 0,
      rt_result = 0, rt_info = None\<rparr>"

paragraph \<open>\<^verbatim>\<open>result\<close>\<close>

definition ret_has_result :: "ss_register_return \<Rightarrow> bool" where
  "ret_has_result m = (rt_has_bits m AND 0x00000001 \<noteq> 0)"

definition ret_set_has_result :: "ss_register_return \<Rightarrow> ss_register_return" where
  "ret_set_has_result m = m\<lparr>rt_has_bits := rt_has_bits m OR 0x00000001\<rparr>"

definition ret_clear_has_result :: "ss_register_return \<Rightarrow> ss_register_return" where
  "ret_clear_has_result m = m\<lparr>rt_has_bits := rt_has_bits m AND NOT 0x00000001\<rparr>"

definition ret_clear_result :: "ss_register_return \<Rightarrow> ss_register_return" where
  "ret_clear_result m = ret_clear_has_result (m\<lparr>rt_result := 0\<rparr>)"

definition ret_get_result :: "ss_register_return \<Rightarrow> u32" where
  "ret_get_result m = rt_result m"

definition ret_set_result :: "u32 \<Rightarrow> ss_register_return \<Rightarrow> ss_register_return" where
  "ret_set_result value m = (ret_set_has_result m)\<lparr>rt_result := value\<rparr>"

paragraph \<open>\<^verbatim>\<open>info\<close>\<close>

definition ret_has_info :: "ss_register_return \<Rightarrow> bool" where
  "ret_has_info m = (rt_has_bits m AND 0x00000002 \<noteq> 0)"

definition ret_set_has_info :: "ss_register_return \<Rightarrow> ss_register_return" where
  "ret_set_has_info m = m\<lparr>rt_has_bits := rt_has_bits m OR 0x00000002\<rparr>"

definition ret_clear_has_info :: "ss_register_return \<Rightarrow> ss_register_return" where
  "ret_clear_has_info m = m\<lparr>rt_has_bits := rt_has_bits m AND NOT 0x00000002\<rparr>"

definition ret_clear_info :: "ss_register_return \<Rightarrow> ss_register_return" where
  "ret_clear_info m = ret_clear_has_info (m\<lparr>rt_info := map_option info_Clear (rt_info m)\<rparr>)"

definition ret_get_info :: "ss_register_return \<Rightarrow> serverappinfo" where
  "ret_get_info m = (case rt_info m of Some x \<Rightarrow> x | None \<Rightarrow> info_SharedCtor)"

definition ret_mutable_info :: "ss_register_return \<Rightarrow> ss_register_return" where
  "ret_mutable_info m = (ret_set_has_info m)\<lparr>rt_info := Some (ret_get_info m)\<rparr>"

definition ret_release_info :: "ss_register_return \<Rightarrow> serverappinfo option \<times> ss_register_return" where
  "ret_release_info m = (rt_info m, (ret_clear_has_info m)\<lparr>rt_info := None\<rparr>)"

definition ret_set_allocated_info :: "serverappinfo option \<Rightarrow> ss_register_return \<Rightarrow> ss_register_return" where
  "ret_set_allocated_info value m =
     (case value of
        Some x \<Rightarrow> (ret_set_has_info m)\<lparr>rt_info := Some x\<rparr>
      | None \<Rightarrow> (ret_clear_has_info m)\<lparr>rt_info := None\<rparr>)"

paragraph \<open>Whole-message operations\<close>

definition ret_Clear :: "ss_register_return \<Rightarrow> ss_register_return" where
  "ret_Clear m =
     (let m1 = (if rt_has_bits m AND 3 \<noteq> 0
                then m\<lparr>rt_result := 0,
                       rt_info := (if ret_has_info m then map_option info_Clear (rt_info m) else rt_info m)\<rparr>
                else m)
      in m1\<lparr>rt_has_bits := 0, rt_unknown := []\<rparr>)"

definition ret_class :: "ss_register_return msg_class" where
  "ret_class =
     \<lparr>field_table =
        [\<lparr>f_tag = 8, f_read = read_uint32 ret_set_result\<rparr>,
         \<lparr>f_tag = 18, f_read = read_message info_class (\<lambda>m. ret_get_info (ret_mutable_info m))
            (\<lambda>x m. (ret_mutable_info m)\<lparr>rt_info := Some x\<rparr>)\<rparr>],
      get_unknown = rt_unknown,
      set_unknown = (\<lambda>u m. m\<lparr>rt_unknown := u\<rparr>)\<rparr>"

definition ret_SerializeWithCachedSizesToArray :: "ss_register_return \<Rightarrow> byte list" where
  "ret_SerializeWithCachedSizesToArray m =
     (if ret_has_result m then WriteUInt32ToArray 1 (ret_get_result m) else []) @
     (if ret_has_info m then WriteMessageNoVirtualToArray 2 (si_cached_size (ret_get_info m))
        (info_SerializeWithCachedSizesToArray (ret_get_info m)) else []) @
     (if rt_unknown m \<noteq> [] then SerializeUnknownFieldsToArray (rt_unknown m) else [])"

definition ret_ByteSize :: "ss_register_return \<Rightarrow> int \<times> ss_register_return" where
  "ret_ByteSize m =
     (let total_size =
            (if rt_has_bits m AND 0xFF \<noteq> 0
             then (if ret_has_result m then 1 + UInt32Size (ret_get_result m) else 0) +
                  (if ret_has_info m then 1 + LengthDelimitedSize (fst (info_ByteSize (ret_get_info m))) else 0)
             else 0) +
            (if rt_unknown m \<noteq> [] then ComputeUnknownFieldsSize (rt_unknown m) else 0)
      in (total_size, m\<lparr>rt_cached_size := total_size,
                        rt_info := (if rt_has_bits m AND 0xFF \<noteq> 0 \<and> ret_has_info m then map_option (snd \<circ> info_ByteSize) (rt_info m) else rt_info m)\<rparr>))"

definition ret_merge_fields :: "ss_register_return \<Rightarrow> ss_register_return \<Rightarrow> ss_register_return" where
  "ret_merge_fields from m =
     (let m0 = (if rt_has_bits from AND 0xFF \<noteq> 0
                then let m1 = (if ret_has_result from then ret_set_result (ret_get_result from) m else m);
                         m2 = (if ret_has_info from then (ret_mutable_info m1)\<lparr>rt_info := Some (info_merge_fields (ret_get_info from) (ret_get_info (ret_mutable_info m1)))\<rparr> else m1)
                     in m2
                else m)
      in m0\<lparr>rt_unknown := rt_unknown m0 @ rt_unknown from\<rparr>)"

definition ret_MergeFrom :: "ptr \<Rightarrow> ss_register_return \<Rightarrow> ptr \<Rightarrow> ss_register_return \<Rightarrow> ss_register_return res" where
  "ret_MergeFrom from_ptr from this m =
     (if from_ptr = this then Inl AssertFail else Inr (ret_merge_fields from m))"

definition ret_CopyFrom :: "ptr \<Rightarrow> ss_register_return \<Rightarrow> ptr \<Rightarrow> ss_register_return \<Rightarrow> ss_register_return res" where
  "ret_CopyFrom from_ptr from this m =
     (if from_ptr = this then Inr m else ret_MergeFrom from_ptr from this (ret_Clear m))"

definition ret_Swap :: "ss_register_return \<Rightarrow> ss_register_return \<Rightarrow> ss_register_return \<times> ss_register_return" where
  "ret_Swap m other =
     (m\<lparr>rt_result := rt_result other, rt_info := rt_info other, rt_has_bits := rt_has_bits other,
          rt_unknown := rt_unknown other, rt_cached_size := rt_cached_size other\<rparr>,
      other\<lparr>rt_result := rt_result m, rt_info := rt_info m, rt_has_bits := rt_has_bits m,
          rt_unknown := rt_unknown m, rt_cached_size := rt_cached_size m\<rparr>)"

section \<open>Collections of definitions\<close>

lemmas info_bits = info_has_id_def info_has_type_def info_has_name_def info_has_ip_def info_has_port_def
  info_set_has_id_def info_set_has_type_def info_set_has_name_def info_set_has_ip_def info_set_has_port_def
  info_clear_has_id_def info_clear_has_type_def info_clear_has_name_def info_clear_has_ip_def info_clear_has_port_def

lemmas info_fields = info_get_id_def info_get_type_def info_get_name_def info_get_ip_def info_get_port_def
  info_set_id_def info_set_type_def info_set_name_def info_set_ip_def info_set_port_def
  info_mutable_name_def info_mutable_ip_def info_clear_id_def info_clear_type_def info_clear_name_def
  info_clear_ip_def info_clear_port_def

text \<open>The bytes of the tags.\<close>

lemma tag_bytes:
  "WriteTagToArray (MakeTag 1 WIRETYPE_VARINT) = [8]" "WriteTagToArray (MakeTag 2 WIRETYPE_VARINT) = [16]"
  "WriteTagToArray (MakeTag 3 WIRETYPE_VARINT) = [24]" "WriteTagToArray (MakeTag 5 WIRETYPE_VARINT) = [40]"
  "WriteTagToArray (MakeTag 1 WIRETYPE_LENGTH_DELIMITED) = [10]"
  "WriteTagToArray (MakeTag 2 WIRETYPE_LENGTH_DELIMITED) = [18]"
  "WriteTagToArray (MakeTag 3 WIRETYPE_LENGTH_DELIMITED) = [26]"
  "WriteTagToArray (MakeTag 4 WIRETYPE_LENGTH_DELIMITED) = [34]"
  by code_simp+

lemma field_bytes:
  "WriteUInt32ToArray 1 v = 8 # WriteVarint32ToArray v" "WriteUInt32ToArray 2 v = 16 # WriteVarint32ToArray v"
  "WriteUInt32ToArray 3 v = 24 # WriteVarint32ToArray v" "WriteUInt32ToArray 5 v = 40 # WriteVarint32ToArray v"
  "WriteStringToArray 2 str = 18 # WriteStringWithSizeToArray str"
  "WriteStringToArray 3 str = 26 # WriteStringWithSizeToArray str"
  "WriteStringToArray 4 str = 34 # WriteStringWithSizeToArray str"
  "WriteMessageNoVirtualToArray 1 sz bytes = 10 # WriteVarint32ToArray (word_of_int sz) @ bytes"
  "WriteMessageNoVirtualToArray 2 sz bytes = 18 # WriteVarint32ToArray (word_of_int sz) @ bytes"
  by (simp_all only: WriteUInt32ToArray_def WriteStringToArray_def WriteMessageNoVirtualToArray_def tag_bytes
      append_Cons append_Nil)

lemmas field_simps_bytes = field_bytes field_bytes [unfolded One_nat_def]

lemma length_string: "int (length (WriteStringWithSizeToArray str)) = StringSize str"
  by (simp add: StringSize_def WriteStringWithSizeToArray_def)

lemma length_uint32: "int (length (WriteVarint32ToArray v)) = UInt32Size v"
  by (simp add: UInt32Size_def)

lemmas field_lengths = length_string length_uint32 ComputeUnknownFieldsSize_length

section \<open>\<^verbatim>\<open>serverappinfo\<close> as a message class\<close>

definition info_items :: "serverappinfo \<Rightarrow> serverappinfo item list" where
  "info_items m = zip (field_table info_class)
     [if info_has_id m then Some (WriteVarint32ToArray (info_get_id m), info_set_id (info_get_id m)) else None,
      if info_has_type m then Some (WriteVarint32ToArray (info_get_type m), info_set_type (info_get_type m)) else None,
      if info_has_name m then Some (WriteStringWithSizeToArray (info_get_name m), info_set_name (info_get_name m)) else None,
      if info_has_ip m then Some (WriteStringWithSizeToArray (info_get_ip m), info_set_ip (info_get_ip m)) else None,
      if info_has_port m then Some (WriteVarint32ToArray (info_get_port m), info_set_port (info_get_port m)) else None]"

lemma info_class_simps [simp]:
  "map f_tag (field_table info_class) = [8, 16, 26, 34, 40]" "get_unknown info_class = si_unknown"
  "map fst (info_items m) = field_table info_class"
  by (simp_all add: info_class_def info_items_def)

lemma info_consuming: "fl \<in> set (field_table info_class) \<Longrightarrow> consuming (f_read fl)"
  by (auto simp: info_class_def consuming_uint32 consuming_string)

lemma info_after_ByteSize [simp]:
  "info_SerializeWithCachedSizesToArray (snd (info_ByteSize m)) = info_SerializeWithCachedSizesToArray m"
  by (simp add: info_ByteSize_def info_SerializeWithCachedSizesToArray_def Let_def info_bits info_fields)

lemma info_none:
  "si_has_bits m AND 0xFF = 0 \<Longrightarrow>
    \<not> info_has_id m \<and> \<not> info_has_type m \<and> \<not> info_has_name m \<and> \<not> info_has_ip m \<and> \<not> info_has_port m"
  using mask_none(1) [of "si_has_bits m"] by (auto simp: info_bits has_bits)

lemma info_size_is_length:
  "fst (info_ByteSize m) = int (length (info_SerializeWithCachedSizesToArray (snd (info_ByteSize m))))"
  using info_none [of m] unfolding info_after_ByteSize
  by (cases "si_has_bits m AND 0xFF = 0")
    (simp_all add: info_ByteSize_def info_SerializeWithCachedSizesToArray_def Let_def field_simps_bytes
      field_lengths [symmetric])

definition info_plain :: "serverappinfo \<Rightarrow> bool" where
  "info_plain m \<longleftrightarrow> si_unknown m = [] \<and> length (info_SerializeWithCachedSizesToArray m) < 2 ^ 31"

lemma info_plain_bytes: "info_plain m \<Longrightarrow> info_SerializeWithCachedSizesToArray m = items_bytes (info_items m)"
  by (simp add: info_plain_def info_SerializeWithCachedSizesToArray_def info_items_def info_class_def field_simps_bytes)

lemma info_plain_strings:
  assumes "info_plain m"
  shows "info_has_name m \<Longrightarrow> length (info_get_name m) < 2 ^ 31" "info_has_ip m \<Longrightarrow> length (info_get_ip m) < 2 ^ 31"
  using assms
  by (auto simp: info_plain_def info_SerializeWithCachedSizesToArray_def field_simps_bytes WriteStringWithSizeToArray_def)

lemma info_plain_items:
  assumes "info_plain m" and "it \<in> set (info_items m)"
  shows "item_ok d it"
proof -
  have "\<forall>it \<in> set (info_items m). item_ok d it"
    using info_plain_strings [OF assms(1)]
    by (simp add: info_items_def info_class_def item_ok_uint32 item_ok_string del: WriteVarint32ToArray_varint)
  then show ?thesis using assms(2) by blast
qed

lemma info_plain_merge: "info_plain m \<Longrightarrow> items_update (info_items m) m0 = info_merge_fields m m0"
  using info_none [of m]
  by (cases "si_has_bits m AND 0xFF = 0")
    (simp_all add: info_plain_def info_items_def info_class_def info_merge_fields_def Let_def)

interpretation info: pb_message info_class info_Clear info_ByteSize info_SerializeWithCachedSizesToArray
  info_merge_fields info_items info_plain
  by unfold_locales
    (simp_all add: info_consuming info_size_is_length info_plain_bytes info_plain_items info_plain_merge)

lemma info_message_bytes:
  assumes "info_plain m"
  shows "WriteVarint32ToArray (word_of_int (fst (info_ByteSize m))) @ info_SerializeWithCachedSizesToArray m =
      varint (length (items_bytes (info_items m))) @ items_bytes (info_items m)"
    and "length (items_bytes (info_items m)) < 2 ^ 31"
proof -
  show l: "length (items_bytes (info_items m)) < 2 ^ 31"
    using assms info_plain_bytes [OF assms] by (simp add: info_plain_def)
  have "unat (of_nat (length (items_bytes (info_items m))) :: u32) = length (items_bytes (info_items m))"
    using l by (intro unat_of_nat_small) simp
  then show "WriteVarint32ToArray (word_of_int (fst (info_ByteSize m))) @ info_SerializeWithCachedSizesToArray m =
      varint (length (items_bytes (info_items m))) @ items_bytes (info_items m)"
    using info_size_is_length [of m] info_plain_bytes [OF assms] by simp
qed

section \<open>\<^verbatim>\<open>ss_register_request\<close> as a message class\<close>

definition req_items :: "ss_register_request \<Rightarrow> ss_register_request item list" where
  "req_items m = zip (field_table req_class)
     [if req_has_info m
      then Some (varint (length (items_bytes (info_items (req_get_info m)))) @ items_bytes (info_items (req_get_info m)),
                 \<lambda>x. (req_mutable_info x)\<lparr>rq_info :=
                   Some (items_update (info_items (req_get_info m)) (req_get_info (req_mutable_info x)))\<rparr>)
      else None]"

definition req_plain :: "ss_register_request \<Rightarrow> bool" where
  "req_plain m \<longleftrightarrow> rq_unknown m = [] \<and> (req_has_info m \<longrightarrow> info_plain (req_get_info m))"

lemmas req_bits = req_has_info_def req_set_has_info_def req_clear_has_info_def

lemma req_class_simps [simp]:
  "map f_tag (field_table req_class) = [10]" "get_unknown req_class = rq_unknown"
  "map fst (req_items m) = field_table req_class"
  by (simp_all add: req_class_def req_items_def)

lemma req_consuming: "fl \<in> set (field_table req_class) \<Longrightarrow> consuming (f_read fl)"
  by (auto simp: req_class_def consuming_uint32 intro!: consuming_message info_consuming)

lemma req_none: "rq_has_bits m AND 0xFF = 0 \<Longrightarrow> \<not> req_has_info m"
  using mask_none(1) [of "rq_has_bits m"] by (auto simp: req_bits has_bits)

lemma req_info_cached:
  assumes "req_has_info m"
  shows "si_cached_size (req_get_info (snd (req_ByteSize m))) = fst (info_ByteSize (req_get_info m)) \<and>
      info_SerializeWithCachedSizesToArray (req_get_info (snd (req_ByteSize m))) =
      info_SerializeWithCachedSizesToArray (req_get_info m)"
proof -
  have d: "fst (info_ByteSize info_SharedCtor) = 0"
    by (simp add: info_ByteSize_def info_SharedCtor_def)
  have c: "si_cached_size (snd (info_ByteSize x)) = fst (info_ByteSize x)" for x
    by (simp add: info_ByteSize_def Let_def)
  show ?thesis
    using assms req_none [of m] d
    by (cases "rq_info m") (auto simp: req_ByteSize_def req_get_info_def Let_def c info_SharedCtor_def)
qed

lemma req_after_ByteSize:
  "req_SerializeWithCachedSizesToArray (snd (req_ByteSize m)) =
    (if req_has_info m
     then 10 # WriteVarint32ToArray (word_of_int (fst (info_ByteSize (req_get_info m)))) @
       info_SerializeWithCachedSizesToArray (req_get_info m)
     else []) @ SerializeUnknownFieldsToArray (rq_unknown m)"
proof -
  have u: "(if u \<noteq> [] then SerializeUnknownFieldsToArray u else []) = SerializeUnknownFieldsToArray u" for u
    by (simp add: SerializeUnknownFieldsToArray_def)
  have h: "req_has_info (snd (req_ByteSize m)) = req_has_info m" "rq_unknown (snd (req_ByteSize m)) = rq_unknown m"
    by (simp_all add: req_ByteSize_def req_bits Let_def)
  show ?thesis
    unfolding req_SerializeWithCachedSizesToArray_def u h field_bytes using req_info_cached [of m] by simp
qed

lemma req_size_is_length:
  "fst (req_ByteSize m) = int (length (req_SerializeWithCachedSizesToArray (snd (req_ByteSize m))))"
  using req_none [of m] info_size_is_length [of "req_get_info m"] unfolding req_after_ByteSize
  by (cases "rq_has_bits m AND 0xFF = 0")
    (simp_all add: req_ByteSize_def Let_def LengthDelimitedSize_def field_lengths [symmetric]
      ComputeUnknownFieldsSize_length SerializeUnknownFieldsToArray_def)

lemma req_info_bytes:
  assumes "req_plain m" and "req_has_info m"
  shows "WriteVarint32ToArray (word_of_int (fst (info_ByteSize (req_get_info m)))) @
      info_SerializeWithCachedSizesToArray (req_get_info m) =
    varint (length (items_bytes (info_items (req_get_info m)))) @ items_bytes (info_items (req_get_info m))"
    and "length (items_bytes (info_items (req_get_info m))) < 2 ^ 31"
  using assms info_message_bytes [of "req_get_info m"] by (simp_all add: req_plain_def)

lemma req_plain_bytes:
  "req_plain m \<Longrightarrow> req_SerializeWithCachedSizesToArray (snd (req_ByteSize m)) = items_bytes (req_items m)"
  unfolding req_after_ByteSize using req_info_bytes(1) [of m]
  by (simp add: req_plain_def req_items_def req_class_def SerializeUnknownFieldsToArray_def field_simps_bytes)

lemma req_plain_items:
  assumes "req_plain m" and "it \<in> set (req_items m)"
  shows "item_ok 0 it"
proof -
  note msg = item_ok_message [of 10 "info_items (req_get_info m)" info_class 0 "req_has_info m"
      "\<lambda>m. req_get_info (req_mutable_info m)" "\<lambda>x m. (req_mutable_info m)\<lparr>rq_info := Some x\<rparr>"]
  have "\<forall>it \<in> set (req_items m). item_ok 0 it"
    using msg req_info_bytes(2) [OF assms(1)] assms(1) info_plain_items [of "req_get_info m" _ 1]
    unfolding req_items_def req_class_def req_plain_def
    by (simp add: item_ok_uint32 del: WriteVarint32ToArray_varint)
  then show ?thesis using assms(2) by blast
qed

lemma req_plain_merge: "req_plain m \<Longrightarrow> items_update (req_items m) m0 = req_merge_fields m m0"
  using req_none [of m]
  by (cases "rq_has_bits m AND 0xFF = 0")
    (simp_all add: req_plain_def req_items_def req_class_def req_merge_fields_def Let_def info_plain_merge)

interpretation req: pb_message req_class req_Clear req_ByteSize req_SerializeWithCachedSizesToArray
  req_merge_fields req_items req_plain
  by unfold_locales
    (simp_all add: req_consuming req_size_is_length req_plain_bytes req_plain_items req_plain_merge)

section \<open>\<^verbatim>\<open>ss_register_return\<close> as a message class\<close>

definition ret_items :: "ss_register_return \<Rightarrow> ss_register_return item list" where
  "ret_items m = zip (field_table ret_class)
     [if ret_has_result m then Some (WriteVarint32ToArray (ret_get_result m), ret_set_result (ret_get_result m)) else None,
      if ret_has_info m
      then Some (varint (length (items_bytes (info_items (ret_get_info m)))) @ items_bytes (info_items (ret_get_info m)),
                 \<lambda>x. (ret_mutable_info x)\<lparr>rt_info :=
                   Some (items_update (info_items (ret_get_info m)) (ret_get_info (ret_mutable_info x)))\<rparr>)
      else None]"

definition ret_plain :: "ss_register_return \<Rightarrow> bool" where
  "ret_plain m \<longleftrightarrow> rt_unknown m = [] \<and> (ret_has_info m \<longrightarrow> info_plain (ret_get_info m))"

lemmas ret_bits = ret_has_info_def ret_set_has_info_def ret_clear_has_info_def
  ret_has_result_def ret_set_has_result_def ret_clear_has_result_def

lemma ret_class_simps [simp]:
  "map f_tag (field_table ret_class) = [8, 18]" "get_unknown ret_class = rt_unknown"
  "map fst (ret_items m) = field_table ret_class"
  by (simp_all add: ret_class_def ret_items_def)

lemma ret_consuming: "fl \<in> set (field_table ret_class) \<Longrightarrow> consuming (f_read fl)"
  by (auto simp: ret_class_def consuming_uint32 intro!: consuming_message info_consuming)

lemma ret_none: "rt_has_bits m AND 0xFF = 0 \<Longrightarrow> \<not> ret_has_result m \<and> \<not> ret_has_info m"
  using mask_none(1) [of "rt_has_bits m"] by (auto simp: ret_bits has_bits)

lemma ret_info_cached:
  assumes "ret_has_info m"
  shows "si_cached_size (ret_get_info (snd (ret_ByteSize m))) = fst (info_ByteSize (ret_get_info m)) \<and>
      info_SerializeWithCachedSizesToArray (ret_get_info (snd (ret_ByteSize m))) =
      info_SerializeWithCachedSizesToArray (ret_get_info m)"
proof -
  have d: "fst (info_ByteSize info_SharedCtor) = 0"
    by (simp add: info_ByteSize_def info_SharedCtor_def)
  have c: "si_cached_size (snd (info_ByteSize x)) = fst (info_ByteSize x)" for x
    by (simp add: info_ByteSize_def Let_def)
  show ?thesis
    using assms ret_none [of m] d
    by (cases "rt_info m") (auto simp: ret_ByteSize_def ret_get_info_def Let_def c info_SharedCtor_def)
qed

lemma ret_after_ByteSize:
  "ret_SerializeWithCachedSizesToArray (snd (ret_ByteSize m)) =
    (if ret_has_result m then 8 # WriteVarint32ToArray (ret_get_result m) else []) @
    (if ret_has_info m
     then 18 # WriteVarint32ToArray (word_of_int (fst (info_ByteSize (ret_get_info m)))) @
       info_SerializeWithCachedSizesToArray (ret_get_info m)
     else []) @ SerializeUnknownFieldsToArray (rt_unknown m)"
proof -
  have u: "(if u \<noteq> [] then SerializeUnknownFieldsToArray u else []) = SerializeUnknownFieldsToArray u" for u
    by (simp add: SerializeUnknownFieldsToArray_def)
  have h: "ret_has_info (snd (ret_ByteSize m)) = ret_has_info m" "rt_unknown (snd (ret_ByteSize m)) = rt_unknown m"
    "ret_has_result (snd (ret_ByteSize m)) = ret_has_result m" "ret_get_result (snd (ret_ByteSize m)) = ret_get_result m"
    by (simp_all add: ret_ByteSize_def ret_bits ret_get_result_def Let_def)
  show ?thesis
    unfolding ret_SerializeWithCachedSizesToArray_def u h field_bytes using ret_info_cached [of m] by simp
qed

lemma ret_size_is_length:
  "fst (ret_ByteSize m) = int (length (ret_SerializeWithCachedSizesToArray (snd (ret_ByteSize m))))"
  using ret_none [of m] info_size_is_length [of "ret_get_info m"] unfolding ret_after_ByteSize
  by (cases "rt_has_bits m AND 0xFF = 0")
    (simp_all add: ret_ByteSize_def Let_def LengthDelimitedSize_def field_lengths [symmetric]
      ComputeUnknownFieldsSize_length SerializeUnknownFieldsToArray_def)

lemma ret_info_bytes:
  assumes "ret_plain m" and "ret_has_info m"
  shows "WriteVarint32ToArray (word_of_int (fst (info_ByteSize (ret_get_info m)))) @
      info_SerializeWithCachedSizesToArray (ret_get_info m) =
    varint (length (items_bytes (info_items (ret_get_info m)))) @ items_bytes (info_items (ret_get_info m))"
    and "length (items_bytes (info_items (ret_get_info m))) < 2 ^ 31"
  using assms info_message_bytes [of "ret_get_info m"] by (simp_all add: ret_plain_def)

lemma ret_plain_bytes:
  "ret_plain m \<Longrightarrow> ret_SerializeWithCachedSizesToArray (snd (ret_ByteSize m)) = items_bytes (ret_items m)"
  unfolding ret_after_ByteSize using ret_info_bytes(1) [of m]
  by (simp add: ret_plain_def ret_items_def ret_class_def SerializeUnknownFieldsToArray_def field_simps_bytes)

lemma ret_plain_items:
  assumes "ret_plain m" and "it \<in> set (ret_items m)"
  shows "item_ok 0 it"
proof -
  note msg = item_ok_message [of 18 "info_items (ret_get_info m)" info_class 0 "ret_has_info m"
      "\<lambda>m. ret_get_info (ret_mutable_info m)" "\<lambda>x m. (ret_mutable_info m)\<lparr>rt_info := Some x\<rparr>"]
  have "\<forall>it \<in> set (ret_items m). item_ok 0 it"
    using msg ret_info_bytes(2) [OF assms(1)] assms(1) info_plain_items [of "ret_get_info m" _ 1]
    unfolding ret_items_def ret_class_def ret_plain_def
    by (simp add: item_ok_uint32 del: WriteVarint32ToArray_varint)
  then show ?thesis using assms(2) by blast
qed

lemma ret_plain_merge: "ret_plain m \<Longrightarrow> items_update (ret_items m) m0 = ret_merge_fields m m0"
  using ret_none [of m]
  by (cases "rt_has_bits m AND 0xFF = 0")
    (simp_all add: ret_plain_def ret_items_def ret_class_def ret_merge_fields_def Let_def info_plain_merge)

interpretation ret: pb_message ret_class ret_Clear ret_ByteSize ret_SerializeWithCachedSizesToArray
  ret_merge_fields ret_items ret_plain
  by unfold_locales
    (simp_all add: ret_consuming ret_size_is_length ret_plain_bytes ret_plain_items ret_plain_merge)

section \<open>Messages as optional fields\<close>

text \<open>
  The abstract value of a message: one optional value per field.  The invariant
  \<open>info_wf\<close> says that an absent field holds its default, so that the plain getters
  can be used without asking \<^verbatim>\<open>has_...\<close> first.
\<close>

record app_info =
  v_id :: "u32 option"
  v_type :: "u32 option"
  v_name :: "byte list option"
  v_ip :: "byte list option"
  v_port :: "u32 option"

definition app_info_none :: app_info where
  "app_info_none = \<lparr>v_id = None, v_type = None, v_name = None, v_ip = None, v_port = None\<rparr>"

definition present :: "bool \<Rightarrow> 'a \<Rightarrow> 'a option" where
  "present has value = (if has then Some value else None)"

definition override :: "'a option \<Rightarrow> 'a option \<Rightarrow> 'a option" where
  "override new old = (case new of None \<Rightarrow> old | Some x \<Rightarrow> Some x)"

lemma present_simps [simp]: "present True v = Some v" "present False v = None"
  "override None o1 = o1" "override (Some x) o1 = Some x"
  by (simp_all add: present_def override_def)

definition info_view :: "serverappinfo \<Rightarrow> app_info" where
  "info_view m =
     \<lparr>v_id = present (info_has_id m) (info_get_id m), v_type = present (info_has_type m) (info_get_type m),
      v_name = present (info_has_name m) (info_get_name m), v_ip = present (info_has_ip m) (info_get_ip m),
      v_port = present (info_has_port m) (info_get_port m)\<rparr>"

definition app_info_over :: "app_info \<Rightarrow> app_info \<Rightarrow> app_info" where
  "app_info_over new old =
     \<lparr>v_id = override (v_id new) (v_id old), v_type = override (v_type new) (v_type old),
      v_name = override (v_name new) (v_name old), v_ip = override (v_ip new) (v_ip old),
      v_port = override (v_port new) (v_port old)\<rparr>"

definition info_wf :: "serverappinfo \<Rightarrow> bool" where
  "info_wf m \<longleftrightarrow>
     (info_has_id m \<or> info_get_id m = 0) \<and> (info_has_type m \<or> info_get_type m = 0) \<and>
     (info_has_name m \<or> info_get_name m = []) \<and> (info_has_ip m \<or> info_get_ip m = []) \<and>
     (info_has_port m \<or> info_get_port m = 0)"

text \<open>The calls that change a \<^verbatim>\<open>serverappinfo\<close>.\<close>

datatype info_op =
    SetId u32 | ClearId | SetType u32 | ClearType
  | SetName "byte list" | ClearName | ReleaseName | SetAllocatedName "byte list option"
  | SetIp "byte list" | ClearIp | ReleaseIp | SetAllocatedIp "byte list option"
  | SetPort u32 | ClearPort | InfoClear | InfoMerge serverappinfo

fun info_step :: "info_op \<Rightarrow> serverappinfo \<Rightarrow> serverappinfo" where
  "info_step (SetId v) m = info_set_id v m"
| "info_step ClearId m = info_clear_id m"
| "info_step (SetType v) m = info_set_type v m"
| "info_step ClearType m = info_clear_type m"
| "info_step (SetName v) m = info_set_name v m"
| "info_step ClearName m = info_clear_name m"
| "info_step ReleaseName m = snd (info_release_name m)"
| "info_step (SetAllocatedName v) m = info_set_allocated_name v m"
| "info_step (SetIp v) m = info_set_ip v m"
| "info_step ClearIp m = info_clear_ip m"
| "info_step ReleaseIp m = snd (info_release_ip m)"
| "info_step (SetAllocatedIp v) m = info_set_allocated_ip v m"
| "info_step (SetPort v) m = info_set_port v m"
| "info_step ClearPort m = info_clear_port m"
| "info_step InfoClear m = info_Clear m"
| "info_step (InfoMerge from) m = info_merge_fields from m"

fun app_info_step :: "info_op \<Rightarrow> app_info \<Rightarrow> app_info" where
  "app_info_step (SetId v) a = a\<lparr>v_id := Some v\<rparr>"
| "app_info_step ClearId a = a\<lparr>v_id := None\<rparr>"
| "app_info_step (SetType v) a = a\<lparr>v_type := Some v\<rparr>"
| "app_info_step ClearType a = a\<lparr>v_type := None\<rparr>"
| "app_info_step (SetName v) a = a\<lparr>v_name := Some v\<rparr>"
| "app_info_step ClearName a = a\<lparr>v_name := None\<rparr>"
| "app_info_step ReleaseName a = a\<lparr>v_name := None\<rparr>"
| "app_info_step (SetAllocatedName v) a = a\<lparr>v_name := v\<rparr>"
| "app_info_step (SetIp v) a = a\<lparr>v_ip := Some v\<rparr>"
| "app_info_step ClearIp a = a\<lparr>v_ip := None\<rparr>"
| "app_info_step ReleaseIp a = a\<lparr>v_ip := None\<rparr>"
| "app_info_step (SetAllocatedIp v) a = a\<lparr>v_ip := v\<rparr>"
| "app_info_step (SetPort v) a = a\<lparr>v_port := Some v\<rparr>"
| "app_info_step ClearPort a = a\<lparr>v_port := None\<rparr>"
| "app_info_step InfoClear a = app_info_none"
| "app_info_step (InfoMerge from) a = app_info_over (info_view from) a"

lemma info_Clear_view: "info_view (info_Clear m) = app_info_none"
  by (simp add: info_view_def info_Clear_def info_bits Let_def app_info_none_def present_def)

lemma info_Clear_wf: "info_wf m \<Longrightarrow> info_wf (info_Clear m)"
proof -
  assume wf: "info_wf m"
  show ?thesis
  proof (cases "si_has_bits m AND 31 = 0")
    case True
    then have "\<not> info_has_id m" "\<not> info_has_type m" "\<not> info_has_name m" "\<not> info_has_ip m" "\<not> info_has_port m"
      using mask_none(2) [of "si_has_bits m"] by (simp_all add: info_bits has_bits)
    with True wf show ?thesis by (simp add: info_wf_def info_Clear_def info_fields Let_def)
  next
    case False
    with wf show ?thesis by (auto simp: info_wf_def info_Clear_def info_fields Let_def)
  qed
qed

lemma info_set_view [simp]:
  "info_view (info_set_id v m) = (info_view m)\<lparr>v_id := Some v\<rparr>"
  "info_view (info_set_type v m) = (info_view m)\<lparr>v_type := Some v\<rparr>"
  "info_view (info_set_name w m) = (info_view m)\<lparr>v_name := Some w\<rparr>"
  "info_view (info_set_ip w m) = (info_view m)\<lparr>v_ip := Some w\<rparr>"
  "info_view (info_set_port v m) = (info_view m)\<lparr>v_port := Some v\<rparr>"
  by (simp_all add: info_view_def info_fields info_bits has_bits)

lemma info_set_wf [simp]:
  assumes "info_wf m"
  shows "info_wf (info_set_id v m)" "info_wf (info_set_type v m)" "info_wf (info_set_name w m)"
    "info_wf (info_set_ip w m)" "info_wf (info_set_port v m)"
  using assms by (simp_all add: info_wf_def info_fields info_bits has_bits)

lemma info_merge_unfold:
  "info_merge_fields from m =
    (let m1 = (if info_has_id from then info_set_id (info_get_id from) m else m);
         m2 = (if info_has_type from then info_set_type (info_get_type from) m1 else m1);
         m3 = (if info_has_name from then info_set_name (info_get_name from) m2 else m2);
         m4 = (if info_has_ip from then info_set_ip (info_get_ip from) m3 else m3);
         m5 = (if info_has_port from then info_set_port (info_get_port from) m4 else m4)
     in m5\<lparr>si_unknown := si_unknown m5 @ si_unknown from\<rparr>)"
  using info_none [of "from"] by (cases "si_has_bits from AND 0xFF = 0") (simp_all add: info_merge_fields_def Let_def)

lemma info_unknown_frame [simp]:
  "info_view (m\<lparr>si_unknown := u\<rparr>) = info_view m" "info_wf (m\<lparr>si_unknown := u\<rparr>) = info_wf m"
  by (simp_all add: info_view_def info_wf_def info_bits info_fields)

lemma info_merge_view: "info_view (info_merge_fields from m) = app_info_over (info_view from) (info_view m)"
  unfolding info_merge_unfold Let_def info_unknown_frame
  by (simp add: app_info_over_def, simp add: info_view_def present_def)

lemma info_merge_wf: "info_wf m \<Longrightarrow> info_wf (info_merge_fields from m)"
  unfolding info_merge_unfold Let_def info_unknown_frame by simp

lemma info_step_refines: "info_view (info_step op m) = app_info_step op (info_view m)"
  by (cases op)
    (simp_all add: info_Clear_view info_merge_view,
     simp_all add: info_view_def info_fields info_bits has_bits info_release_name_def info_release_ip_def
       info_set_allocated_name_def info_set_allocated_ip_def split: option.split)

lemma info_step_wf: "info_wf m \<Longrightarrow> info_wf (info_step op m)"
  by (cases op)
    (simp_all add: info_Clear_wf info_merge_wf,
     simp_all add: info_wf_def info_fields info_bits has_bits info_release_name_def info_release_ip_def
       info_set_allocated_name_def info_set_allocated_ip_def split: option.split)

lemma info_ctor [simp]: "info_view info_SharedCtor = app_info_none" "info_wf info_SharedCtor"
  by (simp_all add: info_view_def info_SharedCtor_def info_bits app_info_none_def info_wf_def info_fields)

lemmas req_fields = req_get_info_def req_mutable_info_def req_clear_info_def

definition req_view :: "ss_register_request \<Rightarrow> app_info option" where
  "req_view m = present (req_has_info m) (info_view (req_get_info m))"

text \<open>An absent embedded message has no fields left that a later \<^verbatim>\<open>mutable_info()\<close> would revive.\<close>

definition req_wf :: "ss_register_request \<Rightarrow> bool" where
  "req_wf m \<longleftrightarrow> 
     (req_has_info m \<or> info_view (req_get_info m) = app_info_none) \<and> info_wf (req_get_info m)"

lemma req_Clear:
  assumes "req_wf m"
  shows "req_view (req_Clear m) = None" and "req_wf (req_Clear m)"
  using assms
  by (auto simp: req_view_def req_wf_def req_Clear_def req_fields req_bits info_Clear_view info_Clear_wf
      split: option.split)

lemma req_merge_unfold:
  "req_merge_fields from m =
    (let m1 = (if req_has_info from
               then (req_mutable_info m)\<lparr>rq_info := Some (info_merge_fields (req_get_info from) (req_get_info (req_mutable_info m)))\<rparr>
               else m)
     in m1\<lparr>rq_unknown := rq_unknown m1 @ rq_unknown from\<rparr>)"
  using req_none [of "from"]
  by (cases "rq_has_bits from AND 0xFF = 0") (simp_all add: req_merge_fields_def Let_def)

lemma app_info_over_none: "app_info_over a app_info_none = a"
  by (cases a) (simp add: app_info_over_def app_info_none_def override_def split: option.split)

lemma req_merge_into_clear:
  assumes "req_wf m"
  shows "req_view (req_merge_fields from (req_Clear m)) = req_view from"
    and "req_wf (req_merge_fields from (req_Clear m))"
proof -
  have c: "\<not> req_has_info (req_Clear m)" "info_view (req_get_info (req_Clear m)) = app_info_none"
    "info_wf (req_get_info (req_Clear m))"
    using req_Clear [OF assms] by (auto simp: req_view_def req_wf_def present_def split: if_splits)
  show "req_view (req_merge_fields from (req_Clear m)) = req_view from"
    and "req_wf (req_merge_fields from (req_Clear m))"
    using c req_Clear [OF assms] unfolding req_merge_unfold Let_def
    by (auto simp: req_view_def req_wf_def req_fields req_bits has_bits info_merge_view info_merge_wf
        app_info_over_none present_def split: option.splits)
qed

lemmas ret_fields = ret_get_info_def ret_mutable_info_def ret_clear_info_def ret_get_result_def ret_set_result_def ret_clear_result_def

definition ret_view :: "ss_register_return \<Rightarrow> u32 option \<times> app_info option" where
  "ret_view m = (present (ret_has_result m) (ret_get_result m), present (ret_has_info m) (info_view (ret_get_info m)))"

text \<open>An absent embedded message has no fields left that a later \<^verbatim>\<open>mutable_info()\<close> would revive.\<close>

definition ret_wf :: "ss_register_return \<Rightarrow> bool" where
  "ret_wf m \<longleftrightarrow> (ret_has_result m \<or> ret_get_result m = 0) \<and> 
     (ret_has_info m \<or> info_view (ret_get_info m) = app_info_none) \<and> info_wf (ret_get_info m)"

lemma ret_Clear:
  assumes "ret_wf m"
  shows "ret_view (ret_Clear m) = (None, None)" and "ret_wf (ret_Clear m)"
proof -
  have "ret_view (ret_Clear m) = (None, None) \<and> ret_wf (ret_Clear m)"
  proof (cases "rt_has_bits m AND 3 = 0")
    case True
    then have "\<not> ret_has_result m" "\<not> ret_has_info m"
      using mask_none(4) [of "rt_has_bits m"] by (simp_all add: ret_bits has_bits)
    with True assms show ?thesis
      by (simp add: ret_view_def ret_wf_def ret_Clear_def ret_fields ret_bits Let_def)
  next
    case False
    with assms show ?thesis
      by (auto simp: ret_view_def ret_wf_def ret_Clear_def ret_fields ret_bits Let_def info_Clear_view info_Clear_wf
          split: option.split)
  qed
  then show "ret_view (ret_Clear m) = (None, None)" and "ret_wf (ret_Clear m)" by auto
qed

lemma ret_merge_unfold:
  "ret_merge_fields from m =
    (let m1 = (if ret_has_result from then ret_set_result (ret_get_result from) m else m);
         m2 = (if ret_has_info from
               then (ret_mutable_info m1)\<lparr>rt_info := Some (info_merge_fields (ret_get_info from) (ret_get_info (ret_mutable_info m1)))\<rparr>
               else m1)
     in m2\<lparr>rt_unknown := rt_unknown m2 @ rt_unknown from\<rparr>)"
  using ret_none [of "from"]
  by (cases "rt_has_bits from AND 0xFF = 0") (simp_all add: ret_merge_fields_def Let_def)

lemma ret_merge_into_clear:
  assumes "ret_wf m"
  shows "ret_view (ret_merge_fields from (ret_Clear m)) = ret_view from"
    and "ret_wf (ret_merge_fields from (ret_Clear m))"
proof -
  have c: "\<not> ret_has_info (ret_Clear m)" "info_view (ret_get_info (ret_Clear m)) = app_info_none"
    "info_wf (ret_get_info (ret_Clear m))"
    using ret_Clear [OF assms] by (auto simp: ret_view_def ret_wf_def present_def split: if_splits)
  show "ret_view (ret_merge_fields from (ret_Clear m)) = ret_view from"
    and "ret_wf (ret_merge_fields from (ret_Clear m))"
    using c ret_Clear [OF assms] unfolding ret_merge_unfold Let_def
    by (auto simp: ret_view_def ret_wf_def ret_fields ret_bits has_bits info_merge_view info_merge_wf
        app_info_over_none present_def split: option.splits)
qed

section \<open>Any input keeps the invariant\<close>

lemma info_keeps: "keeps info_wf (MergePartialFromCodedStream info_class)"
  by (rule merge_keeps) (auto simp: info_class_def intro!: keeps_uint32 keeps_string)

lemma req_set_info_wf: "req_wf m \<Longrightarrow> info_wf x \<Longrightarrow> req_wf ((req_mutable_info m)\<lparr>rq_info := Some x\<rparr>)"
  by (simp add: req_wf_def req_fields req_bits has_bits)

lemma ret_set_info_wf: "ret_wf m \<Longrightarrow> info_wf x \<Longrightarrow> ret_wf ((ret_mutable_info m)\<lparr>rt_info := Some x\<rparr>)"
  by (simp add: ret_wf_def ret_fields ret_bits has_bits)

lemma ret_set_result_wf: "ret_wf m \<Longrightarrow> ret_wf (ret_set_result v m)"
  by (simp add: ret_wf_def ret_fields ret_bits has_bits)

lemma mutable_info_wf:
  "req_wf m \<Longrightarrow> info_wf (req_get_info (req_mutable_info m))" "ret_wf r \<Longrightarrow> info_wf (ret_get_info (ret_mutable_info r))"
  by (simp_all add: req_wf_def req_fields ret_wf_def ret_fields)

lemma unknown_wf: "req_wf (m\<lparr>rq_unknown := u\<rparr>) = req_wf m" "ret_wf (r\<lparr>rt_unknown := u\<rparr>) = ret_wf r"
  by (simp_all add: req_wf_def req_fields req_bits ret_wf_def ret_fields ret_bits)

lemma req_keeps: "keeps req_wf (MergePartialFromCodedStream req_class)"
  by (rule merge_keeps)
    (auto simp: req_class_def unknown_wf intro!: keeps_message [OF info_keeps] req_set_info_wf mutable_info_wf)

lemma ret_keeps: "keeps ret_wf (MergePartialFromCodedStream ret_class)"
  by (rule merge_keeps)
    (auto simp: ret_class_def unknown_wf intro!: keeps_uint32 keeps_message [OF info_keeps] ret_set_info_wf
      ret_set_result_wf mutable_info_wf)

lemma ParseFromString_keeps:
  assumes "keeps P merge" and "P (clear m)"
  shows "P (snd (ParseFromString clear merge data m))"
  using keepsD [OF assms] by (auto simp: ParseFromString_def split: prod.split)

section \<open>Properties\<close>

text \<open>
  C20: Whatever sequence of setters, clears, releases, adoptions of allocated strings,
  \<^verbatim>\<open>Clear()\<close> and \<^verbatim>\<open>MergeFrom\<close> calls is made on a fresh \<^verbatim>\<open>serverappinfo\<close>, the
  \<^verbatim>\<open>has_...\<close> bits and getters show exactly the optional fields that the calls
  leave, and every absent field reads as its default.
\<close>

theorem info_ops_refine:
  "info_view (fold info_step ops info_SharedCtor) = fold app_info_step ops app_info_none \<and>
   info_wf (fold info_step ops info_SharedCtor)"
proof -
  have "info_wf m \<Longrightarrow> info_view (fold info_step ops m) = fold app_info_step ops (info_view m) \<and> info_wf (fold info_step ops m)"
    for m
    by (induction ops arbitrary: m) (simp_all add: info_step_refines info_step_wf)
  then show ?thesis by simp
qed

text \<open>
  C7: A registration request without unknown fields that is serialised and parsed
  into any well-formed message object, used before or not, gives back the same
  optional fields, including those of the embedded \<^verbatim>\<open>serverappinfo\<close>; the parse
  reports success.
\<close>

theorem register_request_roundtrip:
  assumes "req_wf m0" and "req_plain m"
    and "SerializeToString req_ByteSize req_SerializeWithCachedSizesToArray m = Inr (data, m')"
    and "length data < 64 * 2 ^ 20"
  shows "\<exists>m1. ParseFromString req_Clear (MergePartialFromCodedStream req_class) data m0 = (True, m1) \<and>
    req_view m1 = req_view m \<and> req_wf m1"
  using req.parse_serialised [OF assms(2-4), of m0] req_merge_into_clear [OF assms(1), of m] by simp

text \<open>
  C6: The same for the answer to a registration, whose result code and embedded
  \<^verbatim>\<open>serverappinfo\<close> are both optional.
\<close>

theorem register_return_roundtrip:
  assumes "ret_wf m0" and "ret_plain m"
    and "SerializeToString ret_ByteSize ret_SerializeWithCachedSizesToArray m = Inr (data, m')"
    and "length data < 64 * 2 ^ 20"
  shows "\<exists>m1. ParseFromString ret_Clear (MergePartialFromCodedStream ret_class) data m0 = (True, m1) \<and>
    ret_view m1 = ret_view m \<and> ret_wf m1"
  using ret.parse_serialised [OF assms(2-4), of m0] ret_merge_into_clear [OF assms(1), of m] by simp


section \<open>Witnesses\<close>

definition demo_info :: serverappinfo where
  "demo_info = info_set_port 9000 (info_set_ip [0x31, 0x3A] (info_set_type 3 (info_set_id 300 info_SharedCtor)))"

definition demo_request :: ss_register_request where
  "demo_request = (req_mutable_info req_SharedCtor)\<lparr>rq_info := Some demo_info\<rparr>"

definition demo_return :: ss_register_return where
  "demo_return = (ret_mutable_info (ret_set_result 1 ret_SharedCtor))\<lparr>rt_info := Some demo_info\<rparr>"

lemma ctor_wf [simp]: "req_wf req_SharedCtor" "ret_wf ret_SharedCtor"
  by (simp_all add: req_wf_def req_SharedCtor_def req_bits req_fields ret_wf_def ret_SharedCtor_def ret_bits ret_fields)

lemma demo_plain: "req_plain demo_request" "ret_plain demo_return"
proof -
  have "info_SerializeWithCachedSizesToArray demo_info = [8, 172, 2, 16, 3, 34, 2, 0x31, 0x3A, 40, 168, 70]"
    by code_simp
  moreover have "si_unknown demo_info = []" by code_simp
  ultimately have "info_plain demo_info" by (simp add: info_plain_def)
  then show "req_plain demo_request" "ret_plain demo_return"
    by (simp_all add: req_plain_def demo_request_def req_fields req_bits req_SharedCtor_def
        ret_plain_def demo_return_def ret_fields ret_bits ret_SharedCtor_def)
qed

theorem register_request_roundtrip_witness:
  "\<exists>m1. ParseFromString req_Clear (MergePartialFromCodedStream req_class)
     [10, 12, 8, 172, 2, 16, 3, 34, 2, 0x31, 0x3A, 40, 168, 70] demo_request = (True, m1) \<and>
     req_view m1 = req_view demo_request \<and> req_wf m1"
proof (rule register_request_roundtrip)
  show "req_wf demo_request" by code_simp
  show "req_plain demo_request" by (rule demo_plain)
  show "SerializeToString req_ByteSize req_SerializeWithCachedSizesToArray demo_request =
      Inr ([10, 12, 8, 172, 2, 16, 3, 34, 2, 0x31, 0x3A, 40, 168, 70], snd (req_ByteSize demo_request))"
    by code_simp
qed simp

theorem register_return_roundtrip_witness:
  "\<exists>m1. ParseFromString ret_Clear (MergePartialFromCodedStream ret_class)
     [8, 1, 18, 12, 8, 172, 2, 16, 3, 34, 2, 0x31, 0x3A, 40, 168, 70] ret_SharedCtor = (True, m1) \<and>
     ret_view m1 = ret_view demo_return \<and> ret_wf m1"
proof (rule register_return_roundtrip)
  show "ret_wf ret_SharedCtor" by simp
  show "ret_plain demo_return" by (rule demo_plain)
  show "SerializeToString ret_ByteSize ret_SerializeWithCachedSizesToArray demo_return =
      Inr ([8, 1, 18, 12, 8, 172, 2, 16, 3, 34, 2, 0x31, 0x3A, 40, 168, 70], snd (ret_ByteSize demo_return))"
    by code_simp
qed simp


end
