(* ===== verification/Pb_Login.thy ===== *)
theory Pb_Login
  imports Pb_Server
begin

text \<open>
  The messages of \<^verbatim>\<open>login.proto\<close> as the generated classes of
  \<^verbatim>\<open>src/libs/pb/src/login.pb.h\<close> and \<^verbatim>\<open>login.pb.cc\<close> implement them:
  \<^verbatim>\<open>cs_login_request\<close> (prefix \<open>lreq\<close>: account and password) and
  \<^verbatim>\<open>cs_login_return\<close> (\<open>lret\<close>: result, address and port), modelled like the classes
  of \<open>Pb_Server\<close>, with the same contract, invariant and refinement.
\<close>

section \<open>\<^verbatim>\<open>cs_login_request\<close>\<close>

record cs_login_request =
  lq_unknown :: "unknown_field list"
  lq_has_bits :: u32
  lq_cached_size :: int
  lq_account :: "byte list option"
  lq_password :: "byte list option"

definition lreq_SharedCtor :: cs_login_request where
  "lreq_SharedCtor =
     \<lparr>lq_unknown = [], lq_has_bits = 0, lq_cached_size = 0,
      lq_account = None, lq_password = None\<rparr>"

paragraph \<open>\<^verbatim>\<open>account\<close>\<close>

definition lreq_has_account :: "cs_login_request \<Rightarrow> bool" where
  "lreq_has_account m = (lq_has_bits m AND 0x00000001 \<noteq> 0)"

definition lreq_set_has_account :: "cs_login_request \<Rightarrow> cs_login_request" where
  "lreq_set_has_account m = m\<lparr>lq_has_bits := lq_has_bits m OR 0x00000001\<rparr>"

definition lreq_clear_has_account :: "cs_login_request \<Rightarrow> cs_login_request" where
  "lreq_clear_has_account m = m\<lparr>lq_has_bits := lq_has_bits m AND NOT 0x00000001\<rparr>"

definition lreq_clear_account :: "cs_login_request \<Rightarrow> cs_login_request" where
  "lreq_clear_account m = lreq_clear_has_account (m\<lparr>lq_account := str_clear (lq_account m)\<rparr>)"

definition lreq_get_account :: "cs_login_request \<Rightarrow> byte list" where
  "lreq_get_account m = str_get (lq_account m)"

definition lreq_mutable_account :: "cs_login_request \<Rightarrow> cs_login_request" where
  "lreq_mutable_account m = (lreq_set_has_account m)\<lparr>lq_account := str_mutable (lq_account m)\<rparr>"

definition lreq_set_account :: "byte list \<Rightarrow> cs_login_request \<Rightarrow> cs_login_request" where
  "lreq_set_account value m = (lreq_mutable_account m)\<lparr>lq_account := Some value\<rparr>"

definition lreq_set_account_chars :: "byte list \<Rightarrow> cs_login_request \<Rightarrow> cs_login_request res" where
  "lreq_set_account_chars value m =
     res_bind (c_string value) (\<lambda>str. Inr (lreq_set_account str m))"

definition lreq_set_account_sized :: "byte list \<Rightarrow> nat \<Rightarrow> cs_login_request \<Rightarrow> cs_login_request res" where
  "lreq_set_account_sized value sz m =
     (if sz \<le> length value then Inr (lreq_set_account (take sz value) m) else Inl OutOfBounds)"

definition lreq_release_account :: "cs_login_request \<Rightarrow> byte list option \<times> cs_login_request" where
  "lreq_release_account m = (lq_account m, (lreq_clear_has_account m)\<lparr>lq_account := None\<rparr>)"

definition lreq_set_allocated_account :: "byte list option \<Rightarrow> cs_login_request \<Rightarrow> cs_login_request" where
  "lreq_set_allocated_account value m =
     (case value of
        Some str \<Rightarrow> (lreq_set_has_account m)\<lparr>lq_account := Some str\<rparr>
      | None \<Rightarrow> (lreq_clear_has_account m)\<lparr>lq_account := None\<rparr>)"

paragraph \<open>\<^verbatim>\<open>password\<close>\<close>

definition lreq_has_password :: "cs_login_request \<Rightarrow> bool" where
  "lreq_has_password m = (lq_has_bits m AND 0x00000002 \<noteq> 0)"

definition lreq_set_has_password :: "cs_login_request \<Rightarrow> cs_login_request" where
  "lreq_set_has_password m = m\<lparr>lq_has_bits := lq_has_bits m OR 0x00000002\<rparr>"

definition lreq_clear_has_password :: "cs_login_request \<Rightarrow> cs_login_request" where
  "lreq_clear_has_password m = m\<lparr>lq_has_bits := lq_has_bits m AND NOT 0x00000002\<rparr>"

definition lreq_clear_password :: "cs_login_request \<Rightarrow> cs_login_request" where
  "lreq_clear_password m = lreq_clear_has_password (m\<lparr>lq_password := str_clear (lq_password m)\<rparr>)"

definition lreq_get_password :: "cs_login_request \<Rightarrow> byte list" where
  "lreq_get_password m = str_get (lq_password m)"

definition lreq_mutable_password :: "cs_login_request \<Rightarrow> cs_login_request" where
  "lreq_mutable_password m = (lreq_set_has_password m)\<lparr>lq_password := str_mutable (lq_password m)\<rparr>"

definition lreq_set_password :: "byte list \<Rightarrow> cs_login_request \<Rightarrow> cs_login_request" where
  "lreq_set_password value m = (lreq_mutable_password m)\<lparr>lq_password := Some value\<rparr>"

definition lreq_set_password_chars :: "byte list \<Rightarrow> cs_login_request \<Rightarrow> cs_login_request res" where
  "lreq_set_password_chars value m =
     res_bind (c_string value) (\<lambda>str. Inr (lreq_set_password str m))"

definition lreq_set_password_sized :: "byte list \<Rightarrow> nat \<Rightarrow> cs_login_request \<Rightarrow> cs_login_request res" where
  "lreq_set_password_sized value sz m =
     (if sz \<le> length value then Inr (lreq_set_password (take sz value) m) else Inl OutOfBounds)"

definition lreq_release_password :: "cs_login_request \<Rightarrow> byte list option \<times> cs_login_request" where
  "lreq_release_password m = (lq_password m, (lreq_clear_has_password m)\<lparr>lq_password := None\<rparr>)"

definition lreq_set_allocated_password :: "byte list option \<Rightarrow> cs_login_request \<Rightarrow> cs_login_request" where
  "lreq_set_allocated_password value m =
     (case value of
        Some str \<Rightarrow> (lreq_set_has_password m)\<lparr>lq_password := Some str\<rparr>
      | None \<Rightarrow> (lreq_clear_has_password m)\<lparr>lq_password := None\<rparr>)"

paragraph \<open>Whole-message operations\<close>

definition lreq_Clear :: "cs_login_request \<Rightarrow> cs_login_request" where
  "lreq_Clear m =
     (let m1 = (if lq_has_bits m AND 3 \<noteq> 0
                then m\<lparr>lq_account := (if lreq_has_account m then str_clear (lq_account m) else lq_account m),
                       lq_password := (if lreq_has_password m then str_clear (lq_password m) else lq_password m)\<rparr>
                else m)
      in m1\<lparr>lq_has_bits := 0, lq_unknown := []\<rparr>)"

definition lreq_class :: "cs_login_request msg_class" where
  "lreq_class =
     \<lparr>field_table =
        [\<lparr>f_tag = 18, f_read = read_string lreq_get_account lreq_set_account\<rparr>,
         \<lparr>f_tag = 26, f_read = read_string lreq_get_password lreq_set_password\<rparr>],
      get_unknown = lq_unknown,
      set_unknown = (\<lambda>u m. m\<lparr>lq_unknown := u\<rparr>)\<rparr>"

definition lreq_SerializeWithCachedSizesToArray :: "cs_login_request \<Rightarrow> byte list" where
  "lreq_SerializeWithCachedSizesToArray m =
     (if lreq_has_account m then WriteStringToArray 2 (lreq_get_account m) else []) @
     (if lreq_has_password m then WriteStringToArray 3 (lreq_get_password m) else []) @
     (if lq_unknown m \<noteq> [] then SerializeUnknownFieldsToArray (lq_unknown m) else [])"

definition lreq_ByteSize :: "cs_login_request \<Rightarrow> int \<times> cs_login_request" where
  "lreq_ByteSize m =
     (let total_size =
            (if lq_has_bits m AND 0xFF \<noteq> 0
             then (if lreq_has_account m then 1 + StringSize (lreq_get_account m) else 0) +
                  (if lreq_has_password m then 1 + StringSize (lreq_get_password m) else 0)
             else 0) +
            (if lq_unknown m \<noteq> [] then ComputeUnknownFieldsSize (lq_unknown m) else 0)
      in (total_size, m\<lparr>lq_cached_size := total_size\<rparr>))"

definition lreq_merge_fields :: "cs_login_request \<Rightarrow> cs_login_request \<Rightarrow> cs_login_request" where
  "lreq_merge_fields from m =
     (let m0 = (if lq_has_bits from AND 0xFF \<noteq> 0
                then let m1 = (if lreq_has_account from then lreq_set_account (lreq_get_account from) m else m);
                         m2 = (if lreq_has_password from then lreq_set_password (lreq_get_password from) m1 else m1)
                     in m2
                else m)
      in m0\<lparr>lq_unknown := lq_unknown m0 @ lq_unknown from\<rparr>)"

definition lreq_MergeFrom :: "ptr \<Rightarrow> cs_login_request \<Rightarrow> ptr \<Rightarrow> cs_login_request \<Rightarrow> cs_login_request res" where
  "lreq_MergeFrom from_ptr from this m =
     (if from_ptr = this then Inl AssertFail else Inr (lreq_merge_fields from m))"

definition lreq_CopyFrom :: "ptr \<Rightarrow> cs_login_request \<Rightarrow> ptr \<Rightarrow> cs_login_request \<Rightarrow> cs_login_request res" where
  "lreq_CopyFrom from_ptr from this m =
     (if from_ptr = this then Inr m else lreq_MergeFrom from_ptr from this (lreq_Clear m))"

definition lreq_Swap :: "cs_login_request \<Rightarrow> cs_login_request \<Rightarrow> cs_login_request \<times> cs_login_request" where
  "lreq_Swap m other =
     (m\<lparr>lq_account := lq_account other, lq_password := lq_password other, lq_has_bits := lq_has_bits other,
          lq_unknown := lq_unknown other, lq_cached_size := lq_cached_size other\<rparr>,
      other\<lparr>lq_account := lq_account m, lq_password := lq_password m, lq_has_bits := lq_has_bits m,
          lq_unknown := lq_unknown m, lq_cached_size := lq_cached_size m\<rparr>)"

section \<open>\<^verbatim>\<open>cs_login_return\<close>\<close>

record cs_login_return =
  lt_unknown :: "unknown_field list"
  lt_has_bits :: u32
  lt_cached_size :: int
  lt_result :: "u32"
  lt_ip :: "byte list option"
  lt_port :: "u32"

definition lret_SharedCtor :: cs_login_return where
  "lret_SharedCtor =
     \<lparr>lt_unknown = [], lt_has_bits = 0, lt_cached_size = 0,
      lt_result = 0, lt_ip = None, lt_port = 0\<rparr>"

paragraph \<open>\<^verbatim>\<open>result\<close>\<close>

definition lret_has_result :: "cs_login_return \<Rightarrow> bool" where
  "lret_has_result m = (lt_has_bits m AND 0x00000001 \<noteq> 0)"

definition lret_set_has_result :: "cs_login_return \<Rightarrow> cs_login_return" where
  "lret_set_has_result m = m\<lparr>lt_has_bits := lt_has_bits m OR 0x00000001\<rparr>"

definition lret_clear_has_result :: "cs_login_return \<Rightarrow> cs_login_return" where
  "lret_clear_has_result m = m\<lparr>lt_has_bits := lt_has_bits m AND NOT 0x00000001\<rparr>"

definition lret_clear_result :: "cs_login_return \<Rightarrow> cs_login_return" where
  "lret_clear_result m = lret_clear_has_result (m\<lparr>lt_result := 0\<rparr>)"

definition lret_get_result :: "cs_login_return \<Rightarrow> u32" where
  "lret_get_result m = lt_result m"

definition lret_set_result :: "u32 \<Rightarrow> cs_login_return \<Rightarrow> cs_login_return" where
  "lret_set_result value m = (lret_set_has_result m)\<lparr>lt_result := value\<rparr>"

paragraph \<open>\<^verbatim>\<open>ip\<close>\<close>

definition lret_has_ip :: "cs_login_return \<Rightarrow> bool" where
  "lret_has_ip m = (lt_has_bits m AND 0x00000002 \<noteq> 0)"

definition lret_set_has_ip :: "cs_login_return \<Rightarrow> cs_login_return" where
  "lret_set_has_ip m = m\<lparr>lt_has_bits := lt_has_bits m OR 0x00000002\<rparr>"

definition lret_clear_has_ip :: "cs_login_return \<Rightarrow> cs_login_return" where
  "lret_clear_has_ip m = m\<lparr>lt_has_bits := lt_has_bits m AND NOT 0x00000002\<rparr>"

definition lret_clear_ip :: "cs_login_return \<Rightarrow> cs_login_return" where
  "lret_clear_ip m = lret_clear_has_ip (m\<lparr>lt_ip := str_clear (lt_ip m)\<rparr>)"

definition lret_get_ip :: "cs_login_return \<Rightarrow> byte list" where
  "lret_get_ip m = str_get (lt_ip m)"

definition lret_mutable_ip :: "cs_login_return \<Rightarrow> cs_login_return" where
  "lret_mutable_ip m = (lret_set_has_ip m)\<lparr>lt_ip := str_mutable (lt_ip m)\<rparr>"

definition lret_set_ip :: "byte list \<Rightarrow> cs_login_return \<Rightarrow> cs_login_return" where
  "lret_set_ip value m = (lret_mutable_ip m)\<lparr>lt_ip := Some value\<rparr>"

definition lret_set_ip_chars :: "byte list \<Rightarrow> cs_login_return \<Rightarrow> cs_login_return res" where
  "lret_set_ip_chars value m =
     res_bind (c_string value) (\<lambda>str. Inr (lret_set_ip str m))"

definition lret_set_ip_sized :: "byte list \<Rightarrow> nat \<Rightarrow> cs_login_return \<Rightarrow> cs_login_return res" where
  "lret_set_ip_sized value sz m =
     (if sz \<le> length value then Inr (lret_set_ip (take sz value) m) else Inl OutOfBounds)"

definition lret_release_ip :: "cs_login_return \<Rightarrow> byte list option \<times> cs_login_return" where
  "lret_release_ip m = (lt_ip m, (lret_clear_has_ip m)\<lparr>lt_ip := None\<rparr>)"

definition lret_set_allocated_ip :: "byte list option \<Rightarrow> cs_login_return \<Rightarrow> cs_login_return" where
  "lret_set_allocated_ip value m =
     (case value of
        Some str \<Rightarrow> (lret_set_has_ip m)\<lparr>lt_ip := Some str\<rparr>
      | None \<Rightarrow> (lret_clear_has_ip m)\<lparr>lt_ip := None\<rparr>)"

paragraph \<open>\<^verbatim>\<open>port\<close>\<close>

definition lret_has_port :: "cs_login_return \<Rightarrow> bool" where
  "lret_has_port m = (lt_has_bits m AND 0x00000004 \<noteq> 0)"

definition lret_set_has_port :: "cs_login_return \<Rightarrow> cs_login_return" where
  "lret_set_has_port m = m\<lparr>lt_has_bits := lt_has_bits m OR 0x00000004\<rparr>"

definition lret_clear_has_port :: "cs_login_return \<Rightarrow> cs_login_return" where
  "lret_clear_has_port m = m\<lparr>lt_has_bits := lt_has_bits m AND NOT 0x00000004\<rparr>"

definition lret_clear_port :: "cs_login_return \<Rightarrow> cs_login_return" where
  "lret_clear_port m = lret_clear_has_port (m\<lparr>lt_port := 0\<rparr>)"

definition lret_get_port :: "cs_login_return \<Rightarrow> u32" where
  "lret_get_port m = lt_port m"

definition lret_set_port :: "u32 \<Rightarrow> cs_login_return \<Rightarrow> cs_login_return" where
  "lret_set_port value m = (lret_set_has_port m)\<lparr>lt_port := value\<rparr>"

paragraph \<open>Whole-message operations\<close>

definition lret_Clear :: "cs_login_return \<Rightarrow> cs_login_return" where
  "lret_Clear m =
     (let m1 = (if lt_has_bits m AND 7 \<noteq> 0
                then m\<lparr>lt_result := 0,
                       lt_ip := (if lret_has_ip m then str_clear (lt_ip m) else lt_ip m),
                       lt_port := 0\<rparr>
                else m)
      in m1\<lparr>lt_has_bits := 0, lt_unknown := []\<rparr>)"

definition lret_class :: "cs_login_return msg_class" where
  "lret_class =
     \<lparr>field_table =
        [\<lparr>f_tag = 8, f_read = read_uint32 lret_set_result\<rparr>,
         \<lparr>f_tag = 18, f_read = read_string lret_get_ip lret_set_ip\<rparr>,
         \<lparr>f_tag = 24, f_read = read_uint32 lret_set_port\<rparr>],
      get_unknown = lt_unknown,
      set_unknown = (\<lambda>u m. m\<lparr>lt_unknown := u\<rparr>)\<rparr>"

definition lret_SerializeWithCachedSizesToArray :: "cs_login_return \<Rightarrow> byte list" where
  "lret_SerializeWithCachedSizesToArray m =
     (if lret_has_result m then WriteUInt32ToArray 1 (lret_get_result m) else []) @
     (if lret_has_ip m then WriteStringToArray 2 (lret_get_ip m) else []) @
     (if lret_has_port m then WriteUInt32ToArray 3 (lret_get_port m) else []) @
     (if lt_unknown m \<noteq> [] then SerializeUnknownFieldsToArray (lt_unknown m) else [])"

definition lret_ByteSize :: "cs_login_return \<Rightarrow> int \<times> cs_login_return" where
  "lret_ByteSize m =
     (let total_size =
            (if lt_has_bits m AND 0xFF \<noteq> 0
             then (if lret_has_result m then 1 + UInt32Size (lret_get_result m) else 0) +
                  (if lret_has_ip m then 1 + StringSize (lret_get_ip m) else 0) +
                  (if lret_has_port m then 1 + UInt32Size (lret_get_port m) else 0)
             else 0) +
            (if lt_unknown m \<noteq> [] then ComputeUnknownFieldsSize (lt_unknown m) else 0)
      in (total_size, m\<lparr>lt_cached_size := total_size\<rparr>))"

definition lret_merge_fields :: "cs_login_return \<Rightarrow> cs_login_return \<Rightarrow> cs_login_return" where
  "lret_merge_fields from m =
     (let m0 = (if lt_has_bits from AND 0xFF \<noteq> 0
                then let m1 = (if lret_has_result from then lret_set_result (lret_get_result from) m else m);
                         m2 = (if lret_has_ip from then lret_set_ip (lret_get_ip from) m1 else m1);
                         m3 = (if lret_has_port from then lret_set_port (lret_get_port from) m2 else m2)
                     in m3
                else m)
      in m0\<lparr>lt_unknown := lt_unknown m0 @ lt_unknown from\<rparr>)"

definition lret_MergeFrom :: "ptr \<Rightarrow> cs_login_return \<Rightarrow> ptr \<Rightarrow> cs_login_return \<Rightarrow> cs_login_return res" where
  "lret_MergeFrom from_ptr from this m =
     (if from_ptr = this then Inl AssertFail else Inr (lret_merge_fields from m))"

definition lret_CopyFrom :: "ptr \<Rightarrow> cs_login_return \<Rightarrow> ptr \<Rightarrow> cs_login_return \<Rightarrow> cs_login_return res" where
  "lret_CopyFrom from_ptr from this m =
     (if from_ptr = this then Inr m else lret_MergeFrom from_ptr from this (lret_Clear m))"

definition lret_Swap :: "cs_login_return \<Rightarrow> cs_login_return \<Rightarrow> cs_login_return \<times> cs_login_return" where
  "lret_Swap m other =
     (m\<lparr>lt_result := lt_result other, lt_ip := lt_ip other, lt_port := lt_port other,
          lt_has_bits := lt_has_bits other, lt_unknown := lt_unknown other, lt_cached_size := lt_cached_size other\<rparr>,
      other\<lparr>lt_result := lt_result m, lt_ip := lt_ip m, lt_port := lt_port m,
          lt_has_bits := lt_has_bits m, lt_unknown := lt_unknown m, lt_cached_size := lt_cached_size m\<rparr>)"

section \<open>\<^verbatim>\<open>cs_login_request\<close> as a message class\<close>

lemmas lreq_bits = lreq_has_account_def lreq_set_has_account_def lreq_clear_has_account_def
  lreq_has_password_def lreq_set_has_password_def lreq_clear_has_password_def

lemmas lreq_fields = lreq_get_account_def lreq_set_account_def lreq_clear_account_def lreq_mutable_account_def
  lreq_get_password_def lreq_set_password_def lreq_clear_password_def lreq_mutable_password_def

definition lreq_items :: "cs_login_request \<Rightarrow> cs_login_request item list" where
  "lreq_items m = zip (field_table lreq_class)
     [if lreq_has_account m then Some (WriteStringWithSizeToArray (lreq_get_account m), lreq_set_account (lreq_get_account m)) else None,
      if lreq_has_password m then Some (WriteStringWithSizeToArray (lreq_get_password m), lreq_set_password (lreq_get_password m)) else None]"

definition lreq_plain :: "cs_login_request \<Rightarrow> bool" where
  "lreq_plain m \<longleftrightarrow> lq_unknown m = [] \<and> length (lreq_SerializeWithCachedSizesToArray m) < 2 ^ 31"

lemma lreq_class_simps [simp]:
  "map f_tag (field_table lreq_class) = [18, 26]" "get_unknown lreq_class = lq_unknown"
  "map fst (lreq_items m) = field_table lreq_class"
  by (simp_all add: lreq_class_def lreq_items_def)

lemma lreq_consuming: "fl \<in> set (field_table lreq_class) \<Longrightarrow> consuming (f_read fl)"
  by (auto simp: lreq_class_def consuming_uint32 consuming_string)

lemma lreq_after_ByteSize [simp]:
  "lreq_SerializeWithCachedSizesToArray (snd (lreq_ByteSize m)) = lreq_SerializeWithCachedSizesToArray m"
  by (simp add: lreq_ByteSize_def lreq_SerializeWithCachedSizesToArray_def Let_def lreq_bits lreq_fields)

lemma lreq_none: "lq_has_bits m AND 0xFF = 0 \<Longrightarrow> \<not> lreq_has_account m \<and> \<not> lreq_has_password m"
  using mask_none(1) [of "lq_has_bits m"] by (auto simp: lreq_bits has_bits)

lemma lreq_size_is_length:
  "fst (lreq_ByteSize m) = int (length (lreq_SerializeWithCachedSizesToArray (snd (lreq_ByteSize m))))"
  using lreq_none [of m] unfolding lreq_after_ByteSize
  by (cases "lq_has_bits m AND 0xFF = 0")
    (simp_all add: lreq_ByteSize_def lreq_SerializeWithCachedSizesToArray_def Let_def field_simps_bytes
      field_lengths [symmetric])

lemma lreq_plain_bytes: "lreq_plain m \<Longrightarrow> lreq_SerializeWithCachedSizesToArray m = items_bytes (lreq_items m)"
  by (simp add: lreq_plain_def lreq_SerializeWithCachedSizesToArray_def lreq_items_def lreq_class_def field_simps_bytes)

lemma lreq_plain_strings:
  assumes "lreq_plain m"
  shows "lreq_has_account m \<Longrightarrow> length (lreq_get_account m) < 2 ^ 31" "lreq_has_password m \<Longrightarrow> length (lreq_get_password m) < 2 ^ 31"
  using assms
  by (auto simp: lreq_plain_def lreq_SerializeWithCachedSizesToArray_def field_simps_bytes WriteStringWithSizeToArray_def)

lemma lreq_plain_items:
  assumes "lreq_plain m" and "it \<in> set (lreq_items m)"
  shows "item_ok d it"
proof -
  have "\<forall>it \<in> set (lreq_items m). item_ok d it"
    using lreq_plain_strings [OF assms(1)]
    by (simp add: lreq_items_def lreq_class_def item_ok_uint32 item_ok_string del: WriteVarint32ToArray_varint)
  then show ?thesis using assms(2) by blast
qed

lemma lreq_plain_merge: "lreq_plain m \<Longrightarrow> items_update (lreq_items m) m0 = lreq_merge_fields m m0"
  using lreq_none [of m]
  by (cases "lq_has_bits m AND 0xFF = 0")
    (simp_all add: lreq_plain_def lreq_items_def lreq_class_def lreq_merge_fields_def Let_def)

interpretation lreq: pb_message lreq_class lreq_Clear lreq_ByteSize lreq_SerializeWithCachedSizesToArray
  lreq_merge_fields lreq_items lreq_plain
  by unfold_locales
    (simp_all add: lreq_consuming lreq_size_is_length lreq_plain_bytes lreq_plain_items lreq_plain_merge)

section \<open>\<^verbatim>\<open>cs_login_request\<close> as optional fields\<close>

record login_data =
  q_account :: "byte list option"
  q_password :: "byte list option"

definition login_data_none :: login_data where
  "login_data_none = \<lparr>q_account = None, q_password = None\<rparr>"

definition login_data_over :: "login_data \<Rightarrow> login_data \<Rightarrow> login_data" where
  "login_data_over new old =
     \<lparr>q_account = override (q_account new) (q_account old),
      q_password = override (q_password new) (q_password old)\<rparr>"

definition lreq_view :: "cs_login_request \<Rightarrow> login_data" where
  "lreq_view m =
     \<lparr>q_account = present (lreq_has_account m) (lreq_get_account m),
      q_password = present (lreq_has_password m) (lreq_get_password m)\<rparr>"

definition lreq_wf :: "cs_login_request \<Rightarrow> bool" where
  "lreq_wf m \<longleftrightarrow>
     (lreq_has_account m \<or> lreq_get_account m = []) \<and>
     (lreq_has_password m \<or> lreq_get_password m = [])"

datatype lreq_op =
    LqSetAccount "byte list" | LqClearAccount | LqReleaseAccount | LqSetAllocatedAccount "byte list option"
  | LqSetPassword "byte list" | LqClearPassword | LqReleasePassword | LqSetAllocatedPassword "byte list option"
  | LqReset | LqMerge cs_login_request

fun lreq_step :: "lreq_op \<Rightarrow> cs_login_request \<Rightarrow> cs_login_request" where
  "lreq_step (LqSetAccount v) m = lreq_set_account v m"
| "lreq_step LqClearAccount m = lreq_clear_account m"
| "lreq_step LqReleaseAccount m = snd (lreq_release_account m)"
| "lreq_step (LqSetAllocatedAccount v) m = lreq_set_allocated_account v m"
| "lreq_step (LqSetPassword v) m = lreq_set_password v m"
| "lreq_step LqClearPassword m = lreq_clear_password m"
| "lreq_step LqReleasePassword m = snd (lreq_release_password m)"
| "lreq_step (LqSetAllocatedPassword v) m = lreq_set_allocated_password v m"
| "lreq_step LqReset m = lreq_Clear m"
| "lreq_step (LqMerge from) m = lreq_merge_fields from m"

fun login_data_step :: "lreq_op \<Rightarrow> login_data \<Rightarrow> login_data" where
  "login_data_step (LqSetAccount v) a = a\<lparr>q_account := Some v\<rparr>"
| "login_data_step LqClearAccount a = a\<lparr>q_account := None\<rparr>"
| "login_data_step LqReleaseAccount a = a\<lparr>q_account := None\<rparr>"
| "login_data_step (LqSetAllocatedAccount v) a = a\<lparr>q_account := v\<rparr>"
| "login_data_step (LqSetPassword v) a = a\<lparr>q_password := Some v\<rparr>"
| "login_data_step LqClearPassword a = a\<lparr>q_password := None\<rparr>"
| "login_data_step LqReleasePassword a = a\<lparr>q_password := None\<rparr>"
| "login_data_step (LqSetAllocatedPassword v) a = a\<lparr>q_password := v\<rparr>"
| "login_data_step LqReset a = login_data_none"
| "login_data_step (LqMerge from) a = login_data_over (lreq_view from) a"

lemma lreq_Clear_view: "lreq_view (lreq_Clear m) = login_data_none"
  by (simp add: lreq_view_def lreq_Clear_def lreq_bits Let_def login_data_none_def present_def)

lemma lreq_Clear_wf: "lreq_wf m \<Longrightarrow> lreq_wf (lreq_Clear m)"
proof -
  assume wf: "lreq_wf m"
  show ?thesis
  proof (cases "lq_has_bits m AND 3 = 0")
    case True
    then have "\<not> lreq_has_account m" "\<not> lreq_has_password m"
      using mask_none(4) [of "lq_has_bits m"] by (simp_all add: lreq_bits has_bits)
    with True wf show ?thesis by (simp add: lreq_wf_def lreq_Clear_def lreq_fields Let_def)
  next
    case False
    with wf show ?thesis by (auto simp: lreq_wf_def lreq_Clear_def lreq_fields Let_def)
  qed
qed

lemma lreq_set_view [simp]:
  "lreq_view (lreq_set_account w m) = (lreq_view m)\<lparr>q_account := Some w\<rparr>"
  "lreq_view (lreq_set_password w m) = (lreq_view m)\<lparr>q_password := Some w\<rparr>"
  by (simp_all add: lreq_view_def lreq_fields lreq_bits has_bits)

lemma lreq_set_wf [simp]:
  assumes "lreq_wf m"
  shows "lreq_wf (lreq_set_account w m)" "lreq_wf (lreq_set_password w m)"
  using assms by (simp_all add: lreq_wf_def lreq_fields lreq_bits has_bits)

lemma lreq_merge_unfold:
  "lreq_merge_fields from m =
    (let m1 = (if lreq_has_account from then lreq_set_account (lreq_get_account from) m else m);
         m2 = (if lreq_has_password from then lreq_set_password (lreq_get_password from) m1 else m1)
     in m2\<lparr>lq_unknown := lq_unknown m2 @ lq_unknown from\<rparr>)"
  using lreq_none [of "from"] by (cases "lq_has_bits from AND 0xFF = 0") (simp_all add: lreq_merge_fields_def Let_def)

lemma lreq_unknown_frame [simp]:
  "lreq_view (m\<lparr>lq_unknown := u\<rparr>) = lreq_view m" "lreq_wf (m\<lparr>lq_unknown := u\<rparr>) = lreq_wf m"
  by (simp_all add: lreq_view_def lreq_wf_def lreq_bits lreq_fields)

lemma lreq_merge_view: "lreq_view (lreq_merge_fields from m) = login_data_over (lreq_view from) (lreq_view m)"
  unfolding lreq_merge_unfold Let_def lreq_unknown_frame
  by (simp add: login_data_over_def, simp add: lreq_view_def present_def)

lemma lreq_merge_wf: "lreq_wf m \<Longrightarrow> lreq_wf (lreq_merge_fields from m)"
  unfolding lreq_merge_unfold Let_def lreq_unknown_frame by simp

lemma lreq_step_refines: "lreq_view (lreq_step op m) = login_data_step op (lreq_view m)"
  by (cases op)
    (simp_all add: lreq_Clear_view lreq_merge_view,
     simp_all add: lreq_view_def lreq_fields lreq_bits has_bits lreq_release_account_def lreq_set_allocated_account_def lreq_release_password_def lreq_set_allocated_password_def split: option.split)

lemma lreq_step_wf: "lreq_wf m \<Longrightarrow> lreq_wf (lreq_step op m)"
  by (cases op)
    (simp_all add: lreq_Clear_wf lreq_merge_wf,
     simp_all add: lreq_wf_def lreq_fields lreq_bits has_bits lreq_release_account_def lreq_set_allocated_account_def lreq_release_password_def lreq_set_allocated_password_def split: option.split)

lemma lreq_merge_into_clear: "lreq_view (lreq_merge_fields from (lreq_Clear m)) = lreq_view from"
  unfolding lreq_merge_view lreq_Clear_view
  by (simp add: login_data_over_def login_data_none_def lreq_view_def present_def)

lemma lreq_keeps: "keeps lreq_wf (MergePartialFromCodedStream lreq_class)"
  by (rule merge_keeps) (auto simp: lreq_class_def intro!: keeps_uint32 keeps_string)

section \<open>\<^verbatim>\<open>cs_login_return\<close> as a message class\<close>

lemmas lret_bits = lret_has_result_def lret_set_has_result_def lret_clear_has_result_def
  lret_has_ip_def lret_set_has_ip_def lret_clear_has_ip_def
  lret_has_port_def lret_set_has_port_def lret_clear_has_port_def

lemmas lret_fields = lret_get_result_def lret_set_result_def lret_clear_result_def
  lret_get_ip_def lret_set_ip_def lret_clear_ip_def lret_mutable_ip_def
  lret_get_port_def lret_set_port_def lret_clear_port_def

definition lret_items :: "cs_login_return \<Rightarrow> cs_login_return item list" where
  "lret_items m = zip (field_table lret_class)
     [if lret_has_result m then Some (WriteVarint32ToArray (lret_get_result m), lret_set_result (lret_get_result m)) else None,
      if lret_has_ip m then Some (WriteStringWithSizeToArray (lret_get_ip m), lret_set_ip (lret_get_ip m)) else None,
      if lret_has_port m then Some (WriteVarint32ToArray (lret_get_port m), lret_set_port (lret_get_port m)) else None]"

definition lret_plain :: "cs_login_return \<Rightarrow> bool" where
  "lret_plain m \<longleftrightarrow> lt_unknown m = [] \<and> length (lret_SerializeWithCachedSizesToArray m) < 2 ^ 31"

lemma lret_class_simps [simp]:
  "map f_tag (field_table lret_class) = [8, 18, 24]" "get_unknown lret_class = lt_unknown"
  "map fst (lret_items m) = field_table lret_class"
  by (simp_all add: lret_class_def lret_items_def)

lemma lret_consuming: "fl \<in> set (field_table lret_class) \<Longrightarrow> consuming (f_read fl)"
  by (auto simp: lret_class_def consuming_uint32 consuming_string)

lemma lret_after_ByteSize [simp]:
  "lret_SerializeWithCachedSizesToArray (snd (lret_ByteSize m)) = lret_SerializeWithCachedSizesToArray m"
  by (simp add: lret_ByteSize_def lret_SerializeWithCachedSizesToArray_def Let_def lret_bits lret_fields)

lemma lret_none: "lt_has_bits m AND 0xFF = 0 \<Longrightarrow> \<not> lret_has_result m \<and> \<not> lret_has_ip m \<and> \<not> lret_has_port m"
  using mask_none(1) [of "lt_has_bits m"] by (auto simp: lret_bits has_bits)

lemma lret_size_is_length:
  "fst (lret_ByteSize m) = int (length (lret_SerializeWithCachedSizesToArray (snd (lret_ByteSize m))))"
  using lret_none [of m] unfolding lret_after_ByteSize
  by (cases "lt_has_bits m AND 0xFF = 0")
    (simp_all add: lret_ByteSize_def lret_SerializeWithCachedSizesToArray_def Let_def field_simps_bytes
      field_lengths [symmetric])

lemma lret_plain_bytes: "lret_plain m \<Longrightarrow> lret_SerializeWithCachedSizesToArray m = items_bytes (lret_items m)"
  by (simp add: lret_plain_def lret_SerializeWithCachedSizesToArray_def lret_items_def lret_class_def field_simps_bytes)

lemma lret_plain_strings:
  assumes "lret_plain m"
  shows "lret_has_ip m \<Longrightarrow> length (lret_get_ip m) < 2 ^ 31"
  using assms
  by (auto simp: lret_plain_def lret_SerializeWithCachedSizesToArray_def field_simps_bytes WriteStringWithSizeToArray_def)

lemma lret_plain_items:
  assumes "lret_plain m" and "it \<in> set (lret_items m)"
  shows "item_ok d it"
proof -
  have "\<forall>it \<in> set (lret_items m). item_ok d it"
    using lret_plain_strings [OF assms(1)]
    by (simp add: lret_items_def lret_class_def item_ok_uint32 item_ok_string del: WriteVarint32ToArray_varint)
  then show ?thesis using assms(2) by blast
qed

lemma lret_plain_merge: "lret_plain m \<Longrightarrow> items_update (lret_items m) m0 = lret_merge_fields m m0"
  using lret_none [of m]
  by (cases "lt_has_bits m AND 0xFF = 0")
    (simp_all add: lret_plain_def lret_items_def lret_class_def lret_merge_fields_def Let_def)

interpretation lret: pb_message lret_class lret_Clear lret_ByteSize lret_SerializeWithCachedSizesToArray
  lret_merge_fields lret_items lret_plain
  by unfold_locales
    (simp_all add: lret_consuming lret_size_is_length lret_plain_bytes lret_plain_items lret_plain_merge)

section \<open>\<^verbatim>\<open>cs_login_return\<close> as optional fields\<close>

record login_answer =
  r_result :: "u32 option"
  r_ip :: "byte list option"
  r_port :: "u32 option"

definition login_answer_none :: login_answer where
  "login_answer_none = \<lparr>r_result = None, r_ip = None, r_port = None\<rparr>"

definition login_answer_over :: "login_answer \<Rightarrow> login_answer \<Rightarrow> login_answer" where
  "login_answer_over new old =
     \<lparr>r_result = override (r_result new) (r_result old),
      r_ip = override (r_ip new) (r_ip old),
      r_port = override (r_port new) (r_port old)\<rparr>"

definition lret_view :: "cs_login_return \<Rightarrow> login_answer" where
  "lret_view m =
     \<lparr>r_result = present (lret_has_result m) (lret_get_result m),
      r_ip = present (lret_has_ip m) (lret_get_ip m),
      r_port = present (lret_has_port m) (lret_get_port m)\<rparr>"

definition lret_wf :: "cs_login_return \<Rightarrow> bool" where
  "lret_wf m \<longleftrightarrow>
     (lret_has_result m \<or> lret_get_result m = 0) \<and>
     (lret_has_ip m \<or> lret_get_ip m = []) \<and>
     (lret_has_port m \<or> lret_get_port m = 0)"

datatype lret_op =
    LtSetResult u32 | LtClearResult
  | LtSetIp "byte list" | LtClearIp | LtReleaseIp | LtSetAllocatedIp "byte list option"
  | LtSetPort u32 | LtClearPort
  | LtReset | LtMerge cs_login_return

fun lret_step :: "lret_op \<Rightarrow> cs_login_return \<Rightarrow> cs_login_return" where
  "lret_step (LtSetResult v) m = lret_set_result v m"
| "lret_step LtClearResult m = lret_clear_result m"
| "lret_step (LtSetIp v) m = lret_set_ip v m"
| "lret_step LtClearIp m = lret_clear_ip m"
| "lret_step LtReleaseIp m = snd (lret_release_ip m)"
| "lret_step (LtSetAllocatedIp v) m = lret_set_allocated_ip v m"
| "lret_step (LtSetPort v) m = lret_set_port v m"
| "lret_step LtClearPort m = lret_clear_port m"
| "lret_step LtReset m = lret_Clear m"
| "lret_step (LtMerge from) m = lret_merge_fields from m"

fun login_answer_step :: "lret_op \<Rightarrow> login_answer \<Rightarrow> login_answer" where
  "login_answer_step (LtSetResult v) a = a\<lparr>r_result := Some v\<rparr>"
| "login_answer_step LtClearResult a = a\<lparr>r_result := None\<rparr>"
| "login_answer_step (LtSetIp v) a = a\<lparr>r_ip := Some v\<rparr>"
| "login_answer_step LtClearIp a = a\<lparr>r_ip := None\<rparr>"
| "login_answer_step LtReleaseIp a = a\<lparr>r_ip := None\<rparr>"
| "login_answer_step (LtSetAllocatedIp v) a = a\<lparr>r_ip := v\<rparr>"
| "login_answer_step (LtSetPort v) a = a\<lparr>r_port := Some v\<rparr>"
| "login_answer_step LtClearPort a = a\<lparr>r_port := None\<rparr>"
| "login_answer_step LtReset a = login_answer_none"
| "login_answer_step (LtMerge from) a = login_answer_over (lret_view from) a"

lemma lret_Clear_view: "lret_view (lret_Clear m) = login_answer_none"
  by (simp add: lret_view_def lret_Clear_def lret_bits Let_def login_answer_none_def present_def)

lemma lret_Clear_wf: "lret_wf m \<Longrightarrow> lret_wf (lret_Clear m)"
proof -
  assume wf: "lret_wf m"
  show ?thesis
  proof (cases "lt_has_bits m AND 7 = 0")
    case True
    then have "\<not> lret_has_result m" "\<not> lret_has_ip m" "\<not> lret_has_port m"
      using mask_none(3) [of "lt_has_bits m"] by (simp_all add: lret_bits has_bits)
    with True wf show ?thesis by (simp add: lret_wf_def lret_Clear_def lret_fields Let_def)
  next
    case False
    with wf show ?thesis by (auto simp: lret_wf_def lret_Clear_def lret_fields Let_def)
  qed
qed

lemma lret_set_view [simp]:
  "lret_view (lret_set_result v m) = (lret_view m)\<lparr>r_result := Some v\<rparr>"
  "lret_view (lret_set_ip w m) = (lret_view m)\<lparr>r_ip := Some w\<rparr>"
  "lret_view (lret_set_port v m) = (lret_view m)\<lparr>r_port := Some v\<rparr>"
  by (simp_all add: lret_view_def lret_fields lret_bits has_bits)

lemma lret_set_wf [simp]:
  assumes "lret_wf m"
  shows "lret_wf (lret_set_result v m)" "lret_wf (lret_set_ip w m)" "lret_wf (lret_set_port v m)"
  using assms by (simp_all add: lret_wf_def lret_fields lret_bits has_bits)

lemma lret_merge_unfold:
  "lret_merge_fields from m =
    (let m1 = (if lret_has_result from then lret_set_result (lret_get_result from) m else m);
         m2 = (if lret_has_ip from then lret_set_ip (lret_get_ip from) m1 else m1);
         m3 = (if lret_has_port from then lret_set_port (lret_get_port from) m2 else m2)
     in m3\<lparr>lt_unknown := lt_unknown m3 @ lt_unknown from\<rparr>)"
  using lret_none [of "from"] by (cases "lt_has_bits from AND 0xFF = 0") (simp_all add: lret_merge_fields_def Let_def)

lemma lret_unknown_frame [simp]:
  "lret_view (m\<lparr>lt_unknown := u\<rparr>) = lret_view m" "lret_wf (m\<lparr>lt_unknown := u\<rparr>) = lret_wf m"
  by (simp_all add: lret_view_def lret_wf_def lret_bits lret_fields)

lemma lret_merge_view: "lret_view (lret_merge_fields from m) = login_answer_over (lret_view from) (lret_view m)"
  unfolding lret_merge_unfold Let_def lret_unknown_frame
  by (simp add: login_answer_over_def, simp add: lret_view_def present_def)

lemma lret_merge_wf: "lret_wf m \<Longrightarrow> lret_wf (lret_merge_fields from m)"
  unfolding lret_merge_unfold Let_def lret_unknown_frame by simp

lemma lret_step_refines: "lret_view (lret_step op m) = login_answer_step op (lret_view m)"
  by (cases op)
    (simp_all add: lret_Clear_view lret_merge_view,
     simp_all add: lret_view_def lret_fields lret_bits has_bits lret_release_ip_def lret_set_allocated_ip_def split: option.split)

lemma lret_step_wf: "lret_wf m \<Longrightarrow> lret_wf (lret_step op m)"
  by (cases op)
    (simp_all add: lret_Clear_wf lret_merge_wf,
     simp_all add: lret_wf_def lret_fields lret_bits has_bits lret_release_ip_def lret_set_allocated_ip_def split: option.split)

lemma lret_merge_into_clear: "lret_view (lret_merge_fields from (lret_Clear m)) = lret_view from"
  unfolding lret_merge_view lret_Clear_view
  by (simp add: login_answer_over_def login_answer_none_def lret_view_def present_def)

lemma lret_keeps: "keeps lret_wf (MergePartialFromCodedStream lret_class)"
  by (rule merge_keeps) (auto simp: lret_class_def intro!: keeps_uint32 keeps_string)

section \<open>Properties\<close>

lemma login_ctor [simp]:
  "lreq_view lreq_SharedCtor = login_data_none" "lreq_wf lreq_SharedCtor"
  "lret_view lret_SharedCtor = login_answer_none" "lret_wf lret_SharedCtor"
  by (simp_all add: lreq_view_def lreq_SharedCtor_def lreq_bits login_data_none_def lreq_wf_def lreq_fields
      lret_view_def lret_SharedCtor_def lret_bits login_answer_none_def lret_wf_def lret_fields)

text \<open>
  C21: Any sequence of calls on fresh login messages leaves exactly the optional
  fields that the calls say, and every absent field reads as its default.
\<close>

theorem login_ops_refine:
  "lreq_view (fold lreq_step qs lreq_SharedCtor) = fold login_data_step qs login_data_none \<and>
   lreq_wf (fold lreq_step qs lreq_SharedCtor) \<and>
   lret_view (fold lret_step rs lret_SharedCtor) = fold login_answer_step rs login_answer_none \<and>
   lret_wf (fold lret_step rs lret_SharedCtor)"
proof -
  have "lreq_wf m \<Longrightarrow> lreq_view (fold lreq_step qs m) = fold login_data_step qs (lreq_view m) \<and> lreq_wf (fold lreq_step qs m)"
    for m by (induction qs arbitrary: m) (simp_all add: lreq_step_refines lreq_step_wf)
  moreover have "lret_wf m \<Longrightarrow> lret_view (fold lret_step rs m) = fold login_answer_step rs (lret_view m) \<and> lret_wf (fold lret_step rs m)"
    for m by (induction rs arbitrary: m) (simp_all add: lret_step_refines lret_step_wf)
  ultimately show ?thesis by simp
qed

text \<open>
  C19: Login requests and answers without unknown fields survive serialisation and
  parsing into any message object, whatever it held before.
\<close>

theorem login_roundtrip:
  assumes "lreq_plain q" and "SerializeToString lreq_ByteSize lreq_SerializeWithCachedSizesToArray q = Inr (qdata, q')"
    and "length qdata < 64 * 2 ^ 20"
    and "lret_plain r" and "SerializeToString lret_ByteSize lret_SerializeWithCachedSizesToArray r = Inr (rdata, r')"
    and "length rdata < 64 * 2 ^ 20"
  shows "\<exists>q1 r1. ParseFromString lreq_Clear (MergePartialFromCodedStream lreq_class) qdata q0 = (True, q1) \<and>
    lreq_view q1 = lreq_view q \<and>
    ParseFromString lret_Clear (MergePartialFromCodedStream lret_class) rdata r0 = (True, r1) \<and>
    lret_view r1 = lret_view r"
  using lreq.parse_serialised [OF assms(1-3), of q0] lret.parse_serialised [OF assms(4-6), of r0]
  by (simp add: lreq_merge_into_clear lret_merge_into_clear)

definition demo_login :: cs_login_request where
  "demo_login = lreq_set_password [0x70] (lreq_set_account [0x61, 0x62] lreq_SharedCtor)"

definition demo_answer :: cs_login_return where
  "demo_answer = lret_set_port 8000 (lret_set_result 0 lret_SharedCtor)"

theorem login_roundtrip_witness:
  "\<exists>q1 r1. ParseFromString lreq_Clear (MergePartialFromCodedStream lreq_class) [18, 2, 0x61, 0x62, 26, 1, 0x70] demo_login = (True, q1) \<and>
    lreq_view q1 = lreq_view demo_login \<and>
    ParseFromString lret_Clear (MergePartialFromCodedStream lret_class) [8, 0, 24, 192, 62] lret_SharedCtor = (True, r1) \<and>
    lret_view r1 = lret_view demo_answer"
proof (rule login_roundtrip)
  show sq: "SerializeToString lreq_ByteSize lreq_SerializeWithCachedSizesToArray demo_login =
      Inr ([18, 2, 0x61, 0x62, 26, 1, 0x70], snd (lreq_ByteSize demo_login))" by code_simp
  show sr: "SerializeToString lret_ByteSize lret_SerializeWithCachedSizesToArray demo_answer =
      Inr ([8, 0, 24, 192, 62], snd (lret_ByteSize demo_answer))" by code_simp
  show "lreq_plain demo_login"
    using sq by (simp add: lreq.serialize_total lreq_plain_def) code_simp
  show "lret_plain demo_answer"
    using sr by (simp add: lret.serialize_total lret_plain_def) code_simp
qed simp_all

end
