(* ===== verification/Coded_Output.thy ===== *)
theory Coded_Output
  imports Wire_Format
begin

text \<open>
  \<^verbatim>\<open>CodedOutputStream\<close> of \<^verbatim>\<open>io/coded_stream.h\<close> and \<^verbatim>\<open>io/coded_stream.cc\<close>, and the stream
  writers of \<^verbatim>\<open>wire_format_lite.cc\<close> and \<^verbatim>\<open>wire_format.cc\<close>.  The underlying
  \<^verbatim>\<open>ZeroCopyOutputStream\<close> is the list of the buffer sizes that its \<^verbatim>\<open>Next\<close> still
  hands out; \<^verbatim>\<open>Next\<close> fails when the list is empty.  \<open>out\<close> holds the bytes stored so
  far, over all buffers.  Aliasing is off, as the constructor leaves it.

  Shown here: however the buffers are cut, each writer stores what one raw write
  of the bytes of its array counterpart stores.
\<close>

section \<open>The stream\<close>

record cos =
  out :: "byte list"
  buffer_size :: nat
  next_sizes :: "nat list"
  total_bytes :: int
  had_error :: bool

definition cos_Advance :: "nat \<Rightarrow> cos \<Rightarrow> cos" where
  "cos_Advance amount s = s\<lparr>buffer_size := buffer_size s - amount\<rparr>"

definition Refresh :: "cos \<Rightarrow> bool \<times> cos" where
  "Refresh s =
     (case next_sizes s of
        n # ns \<Rightarrow> (True, s\<lparr>buffer_size := n, next_sizes := ns, total_bytes := total_bytes s + int n\<rparr>)
      | [] \<Rightarrow> (False, s\<lparr>buffer_size := 0, had_error := True\<rparr>))"

definition CodedOutputStream :: "nat list \<Rightarrow> cos" where
  "CodedOutputStream sizes =
     (snd (Refresh \<lparr>out = [], buffer_size = 0, next_sizes = sizes, total_bytes = 0, had_error = False\<rparr>))
       \<lparr>had_error := False\<rparr>"

definition ByteCount :: "cos \<Rightarrow> int" where
  "ByteCount s = total_bytes s - int (buffer_size s)"

function WriteRaw :: "byte list \<Rightarrow> cos \<Rightarrow> cos" where
  "WriteRaw data s =
     (if buffer_size s < length data
      then let s1 = s\<lparr>out := out s @ take (buffer_size s) data\<rparr> in
           case Refresh s1 of
             (False, s2) \<Rightarrow> s2
           | (True, s2) \<Rightarrow> WriteRaw (drop (buffer_size s) data) s2
      else cos_Advance (length data) (s\<lparr>out := out s @ data\<rparr>))"
  by pat_completeness auto

termination
  by (relation "measure (\<lambda>(data, s). length (next_sizes s))") (auto simp: Refresh_def split: list.splits)

declare WriteRaw.simps [simp del] WriteVarintSlow.simps [simp del]

definition kMaxVarint32Bytes :: nat where
  "kMaxVarint32Bytes = 5"

text \<open>A fast path stores at \<^verbatim>\<open>buffer_\<close> and advances.\<close>

definition store :: "byte list \<Rightarrow> cos \<Rightarrow> cos" where
  "store bytes s = cos_Advance (length bytes) (s\<lparr>out := out s @ bytes\<rparr>)"

definition WriteVarint32 :: "u32 \<Rightarrow> cos \<Rightarrow> cos" where
  "WriteVarint32 value s =
     (if kMaxVarint32Bytes \<le> buffer_size s then store (WriteVarint32FallbackToArrayInline value) s
      else WriteRaw (WriteVarintSlow value) s)"

definition WriteVarint64 :: "u64 \<Rightarrow> cos \<Rightarrow> cos" where
  "WriteVarint64 value s =
     (if kMaxVarintBytes \<le> buffer_size s then store (WriteVarint64ToArrayInline value) s
      else WriteRaw (WriteVarintSlow value) s)"

definition WriteLittleEndian32 :: "u32 \<Rightarrow> cos \<Rightarrow> cos" where
  "WriteLittleEndian32 value s =
     (if 4 \<le> buffer_size s then store (bytes32 value) s else WriteRaw (bytes32 value) s)"

definition WriteLittleEndian64 :: "u64 \<Rightarrow> cos \<Rightarrow> cos" where
  "WriteLittleEndian64 value s =
     (if 8 \<le> buffer_size s then store (bytes64 value) s else WriteRaw (bytes64 value) s)"

definition WriteTag :: "u32 \<Rightarrow> cos \<Rightarrow> cos" where
  "WriteTag value s = WriteVarint32 value s"

definition GetDirectBufferForNBytesAndAdvance :: "int \<Rightarrow> cos \<Rightarrow> cos option" where
  "GetDirectBufferForNBytesAndAdvance sz s =
     (if int (buffer_size s) < sz then None else Some (cos_Advance (nat sz) s))"

section \<open>Fields\<close>

definition kint32max :: nat where
  "kint32max = 0x7FFFFFFF"

definition WriteUInt32 :: "nat \<Rightarrow> u32 \<Rightarrow> cos \<Rightarrow> cos" where
  "WriteUInt32 field_number value s = WriteVarint32 value (WriteTag (MakeTag field_number WIRETYPE_VARINT) s)"

definition WriteStringMaybeAliased :: "nat \<Rightarrow> byte list \<Rightarrow> cos \<Rightarrow> cos res" where
  "WriteStringMaybeAliased field_number value s =
     (let s1 = WriteTag (MakeTag field_number WIRETYPE_LENGTH_DELIMITED) s in
      if kint32max < length value then Inl AssertFail
      else Inr (WriteRaw value (WriteVarint32 (of_nat (length value)) s1)))"

text \<open>
  \<^verbatim>\<open>WriteMessageMaybeToArray\<close>: the cached size, the array serialiser's bytes and the
  stream serialiser of the embedded message.
\<close>

definition WriteMessageMaybeToArray :: "nat \<Rightarrow> int \<Rightarrow> byte list \<Rightarrow> (cos \<Rightarrow> cos res) \<Rightarrow> cos \<Rightarrow> cos res" where
  "WriteMessageMaybeToArray field_number cached_size array_bytes serialize s =
     (let s1 = WriteTag (MakeTag field_number WIRETYPE_LENGTH_DELIMITED) s;
          s2 = WriteVarint32 (word_of_int cached_size) s1
      in case GetDirectBufferForNBytesAndAdvance cached_size s2 of
           Some s3 \<Rightarrow> Inr (s3\<lparr>out := out s3 @ array_bytes\<rparr>)
         | None \<Rightarrow> serialize s2)"

fun WriteUnknownField :: "unknown_field \<Rightarrow> cos \<Rightarrow> cos" where
  "WriteUnknownField (UVarint number v) s =
     WriteVarint64 v (WriteVarint32 (MakeTag number WIRETYPE_VARINT) s)"
| "WriteUnknownField (UFixed32 number v) s =
     WriteLittleEndian32 v (WriteVarint32 (MakeTag number WIRETYPE_FIXED32) s)"
| "WriteUnknownField (UFixed64 number v) s =
     WriteLittleEndian64 v (WriteVarint32 (MakeTag number WIRETYPE_FIXED64) s)"
| "WriteUnknownField (ULengthDelimited number str) s =
     WriteRaw str (WriteVarint32 (of_nat (length str))
       (WriteVarint32 (MakeTag number WIRETYPE_LENGTH_DELIMITED) s))"
| "WriteUnknownField (UGroup number g) s =
     WriteVarint32 (MakeTag number WIRETYPE_END_GROUP)
       (fold WriteUnknownField g (WriteVarint32 (MakeTag number WIRETYPE_START_GROUP) s))"

definition SerializeUnknownFields :: "unknown_field list \<Rightarrow> cos \<Rightarrow> cos" where
  "SerializeUnknownFields u s = fold WriteUnknownField u s"

section \<open>Raw writes compose\<close>

lemma WriteRaw_fits: "length data \<le> buffer_size s \<Longrightarrow> WriteRaw data s = store data s"
  by (simp add: WriteRaw.simps store_def)

lemma WriteRaw_Nil [simp]: "WriteRaw [] s = s"
  by (simp add: WriteRaw_fits store_def cos_Advance_def)

lemma WriteRaw_next:
  "buffer_size s < length data \<Longrightarrow> next_sizes s = n # ns \<Longrightarrow>
    WriteRaw data s = WriteRaw (drop (buffer_size s) data)
      (s\<lparr>out := out s @ take (buffer_size s) data, buffer_size := n, next_sizes := ns, total_bytes := total_bytes s + int n\<rparr>)"
  by (subst WriteRaw.simps) (simp add: Refresh_def)

lemma WriteRaw_fail:
  "buffer_size s < length data \<Longrightarrow> next_sizes s = [] \<Longrightarrow>
    WriteRaw data s = s\<lparr>out := out s @ take (buffer_size s) data, buffer_size := 0, had_error := True\<rparr>"
  by (subst WriteRaw.simps) (simp add: Refresh_def)

lemma WriteRaw_append: "WriteRaw (xs @ ys) s = WriteRaw ys (WriteRaw xs s)"
proof (induction "length (next_sizes s)" arbitrary: s xs)
  case 0
  then have ns: "next_sizes s = []" by simp
  show ?case
  proof (cases "length xs \<le> buffer_size s")
    case True
    then show ?thesis
      using ns WriteRaw_fail [of s "xs @ ys"] WriteRaw_fail [of "store xs s" ys] WriteRaw_fits [of "xs @ ys" s]
        WriteRaw_fits [of ys "store xs s"]
      by (cases "length (xs @ ys) \<le> buffer_size s") (auto simp: WriteRaw_fits store_def cos_Advance_def)
  next
    case False
    then show ?thesis
      using ns WriteRaw_fail [of s "xs @ ys"] WriteRaw_fail [of s xs] by (cases ys) (auto simp: WriteRaw_fail)
  qed
next
  case (Suc k)
  then obtain n ns where ns: "next_sizes s = n # ns" by (cases "next_sizes s") auto
  show ?case
  proof (cases "length xs \<le> buffer_size s")
    case True
    let ?s = "store xs s"
    show ?thesis
    proof (cases "length (xs @ ys) \<le> buffer_size s")
      case True
      then show ?thesis by (simp add: WriteRaw_fits store_def cos_Advance_def)
    next
      case False
      then have big: "buffer_size s < length (xs @ ys)" "buffer_size ?s < length ys"
        using True by (auto simp: store_def cos_Advance_def)
      have "next_sizes ?s = n # ns" using ns by (simp add: store_def cos_Advance_def)
      then show ?thesis
        using True WriteRaw_next [OF big(1) ns] WriteRaw_next [OF big(2)] WriteRaw_fits [OF True]
        by (simp add: store_def cos_Advance_def)
    qed
  next
    case False
    then have "buffer_size s < length xs" "buffer_size s < length (xs @ ys)" by auto
    then show ?thesis
      using WriteRaw_next [OF _ ns, of xs] WriteRaw_next [OF _ ns, of "xs @ ys"] Suc ns by simp
  qed
qed

section \<open>Every writer is a raw write\<close>

lemma length_varint32: "length (varint (unat (v :: u32))) \<le> 5"
proof -
  have "unat v < 2 ^ 32" using unsigned_less [of v, where 'a = nat] by simp
  then have "unat v < 2 ^ (7 * Suc 4)" by simp
  then show ?thesis using length_varint_le [of "unat v" 4] by simp
qed

lemma WriteVarint32_raw: "WriteVarint32 v s = WriteRaw (varint (unat v)) s"
  using length_varint32 [of v]
  by (simp add: WriteVarint32_def kMaxVarint32Bytes_def WriteVarint32FallbackToArrayInline_varint
      WriteVarintSlow_varint WriteRaw_fits)

lemma WriteVarint64_raw: "WriteVarint64 v s = WriteRaw (varint (unat v)) s"
proof -
  have "unat v < 2 ^ 64" using unsigned_less [of v, where 'a = nat] by simp
  then have "length (varint (unat v)) \<le> 10" by (rule length_varint64)
  then show ?thesis
    by (simp add: WriteVarint64_def kMaxVarintBytes_def WriteVarint64ToArrayInline_varint
        WriteVarintSlow_varint WriteRaw_fits)
qed

lemma WriteLittleEndian_raw:
  "WriteLittleEndian32 v s = WriteRaw (bytes32 v) s" "WriteLittleEndian64 w s = WriteRaw (bytes64 w) s"
  by (simp_all add: WriteLittleEndian32_def WriteLittleEndian64_def WriteRaw_fits codec_simps)

lemma WriteUInt32_raw: "WriteUInt32 n v s = WriteRaw (WriteUInt32ToArray n v) s"
  by (simp add: WriteUInt32_def WriteTag_def WriteVarint32_raw WriteUInt32ToArray_def WriteRaw_append)

lemma WriteStringMaybeAliased_raw:
  "length v < 2 ^ 31 \<Longrightarrow> WriteStringMaybeAliased n v s = Inr (WriteRaw (WriteStringToArray n v) s)"
  by (simp add: WriteStringMaybeAliased_def WriteTag_def WriteVarint32_raw WriteStringToArray_def
      WriteStringWithSizeToArray_def WriteRaw_append Let_def kint32max_def)

lemma WriteMessageMaybeToArray_raw:
  assumes "cached_size = int (length bytes)" and "\<And>s. serialize s = Inr (WriteRaw bytes s)"
  shows "WriteMessageMaybeToArray n cached_size bytes serialize s =
    Inr (WriteRaw (WriteMessageNoVirtualToArray n cached_size bytes) s)"
proof -
  let ?s = "WriteVarint32 (word_of_int cached_size) (WriteTag (MakeTag n WIRETYPE_LENGTH_DELIMITED) s)"
  have "WriteMessageMaybeToArray n cached_size bytes serialize s = Inr (WriteRaw bytes ?s)"
    using assms WriteRaw_fits [of bytes ?s]
    by (simp add: WriteMessageMaybeToArray_def GetDirectBufferForNBytesAndAdvance_def store_def cos_Advance_def Let_def)
  then show ?thesis
    by (simp add: WriteMessageNoVirtualToArray_def WriteTag_def WriteVarint32_raw WriteRaw_append)
qed

lemma fold_raw:
  "(\<And>x s. x \<in> set xs \<Longrightarrow> w x s = WriteRaw (b x) s) \<Longrightarrow> fold w xs s = WriteRaw (concat (map b xs)) s"
  by (induction xs arbitrary: s) (simp_all add: WriteRaw_append)

lemma WriteUnknownField_raw: "WriteUnknownField x s = WriteRaw (SerializeUnknownField x) s"
proof (induction x arbitrary: s)
  case (UGroup number g)
  then show ?case using fold_raw [of g WriteUnknownField SerializeUnknownField]
    by (simp add: WriteVarint32_raw WriteRaw_append)
qed (simp_all add: WriteVarint32_raw WriteVarint64_raw WriteLittleEndian_raw WriteRaw_append
    WriteVarint64ToArrayInline_varint WriteStringWithSizeToArray_def)

lemma SerializeUnknownFields_raw: "SerializeUnknownFields u s = WriteRaw (SerializeUnknownFieldsToArray u) s"
  unfolding SerializeUnknownFields_def SerializeUnknownFieldsToArray_def
  by (rule fold_raw) (rule WriteUnknownField_raw)

lemmas writers_raw = WriteUInt32_raw WriteStringMaybeAliased_raw SerializeUnknownFields_raw

section \<open>What a raw write does\<close>

definition capacity :: "cos \<Rightarrow> nat" where
  "capacity s = buffer_size s + sum_list (next_sizes s)"

lemma WriteRaw_enough:
  "length data \<le> capacity s \<Longrightarrow>
    out (WriteRaw data s) = out s @ data \<and> had_error (WriteRaw data s) = had_error s \<and>
    capacity (WriteRaw data s) = capacity s - length data \<and>
    ByteCount (WriteRaw data s) = ByteCount s + int (length data)"
proof (induction "length (next_sizes s)" arbitrary: s data)
  case 0
  then show ?case by (simp add: capacity_def WriteRaw_fits store_def cos_Advance_def ByteCount_def)
next
  case (Suc k)
  then obtain n ns where ns: "next_sizes s = n # ns" by (cases "next_sizes s") auto
  let ?s = "s\<lparr>out := out s @ take (buffer_size s) data, buffer_size := n, next_sizes := ns, total_bytes := total_bytes s + int n\<rparr>"
  show ?case
  proof (cases "length data \<le> buffer_size s")
    case True
    then show ?thesis by (simp add: capacity_def WriteRaw_fits store_def cos_Advance_def ByteCount_def)
  next
    case False
    then have "WriteRaw data s = WriteRaw (drop (buffer_size s) data) ?s"
      using WriteRaw_next [OF _ ns] by simp
    moreover have "length (drop (buffer_size s) data) \<le> capacity ?s"
      using Suc.prems ns by (simp add: capacity_def)
    ultimately show ?thesis
      using Suc.hyps(1) [of ?s "drop (buffer_size s) data"] Suc.hyps(2) False ns Suc.prems
      by (simp add: capacity_def ByteCount_def)
  qed
qed

lemma WriteRaw_short:
  "capacity s < length data \<Longrightarrow>
    out (WriteRaw data s) = out s @ take (capacity s) data \<and> had_error (WriteRaw data s)"
proof (induction "length (next_sizes s)" arbitrary: s data)
  case 0
  then show ?case by (simp add: capacity_def WriteRaw_fail)
next
  case (Suc k)
  then obtain n ns where ns: "next_sizes s = n # ns" by (cases "next_sizes s") auto
  let ?s = "s\<lparr>out := out s @ take (buffer_size s) data, buffer_size := n, next_sizes := ns, total_bytes := total_bytes s + int n\<rparr>"
  have "WriteRaw data s = WriteRaw (drop (buffer_size s) data) ?s"
    using WriteRaw_next [OF _ ns, of data] Suc.prems by (simp add: capacity_def)
  then show ?case
    using Suc.hyps(1) [of ?s "drop (buffer_size s) data"] Suc.hyps(2) Suc.prems ns
    by (simp add: capacity_def take_add)
qed

end
