(* ===== verification/Pb_Stream.thy ===== *)
theory Pb_Stream
  imports Pb_Login Coded_Output
begin

text \<open>
  \<^verbatim>\<open>SerializeWithCachedSizes(CodedOutputStream*)\<close> of the five message classes.  Shown
  here: on any sequence of output buffers it stores exactly the bytes that
  \<^verbatim>\<open>SerializeWithCachedSizesToArray\<close> stores at an address.
\<close>

section \<open>The stream serialisers\<close>

definition info_SerializeWithCachedSizes :: "serverappinfo \<Rightarrow> cos \<Rightarrow> cos res" where
  "info_SerializeWithCachedSizes m s0 =
     res_bind (if info_has_id m then Inr (WriteUInt32 1 (info_get_id m) s0) else Inr s0) (\<lambda>s1.
     res_bind (if info_has_type m then Inr (WriteUInt32 2 (info_get_type m) s1) else Inr s1) (\<lambda>s2.
     res_bind (if info_has_name m then WriteStringMaybeAliased 3 (info_get_name m) s2 else Inr s2) (\<lambda>s3.
     res_bind (if info_has_ip m then WriteStringMaybeAliased 4 (info_get_ip m) s3 else Inr s3) (\<lambda>s4.
     res_bind (if info_has_port m then Inr (WriteUInt32 5 (info_get_port m) s4) else Inr s4) (\<lambda>s5.
     Inr (if si_unknown m \<noteq> [] then SerializeUnknownFields (si_unknown m) s5 else s5))))))"

definition req_SerializeWithCachedSizes :: "ss_register_request \<Rightarrow> cos \<Rightarrow> cos res" where
  "req_SerializeWithCachedSizes m s0 =
     res_bind (if req_has_info m then WriteMessageMaybeToArray 1 (si_cached_size (req_get_info m))
         (info_SerializeWithCachedSizesToArray (req_get_info m)) (info_SerializeWithCachedSizes (req_get_info m)) s0 else Inr s0) (\<lambda>s1.
     Inr (if rq_unknown m \<noteq> [] then SerializeUnknownFields (rq_unknown m) s1 else s1))"

definition ret_SerializeWithCachedSizes :: "ss_register_return \<Rightarrow> cos \<Rightarrow> cos res" where
  "ret_SerializeWithCachedSizes m s0 =
     res_bind (if ret_has_result m then Inr (WriteUInt32 1 (ret_get_result m) s0) else Inr s0) (\<lambda>s1.
     res_bind (if ret_has_info m then WriteMessageMaybeToArray 2 (si_cached_size (ret_get_info m))
         (info_SerializeWithCachedSizesToArray (ret_get_info m)) (info_SerializeWithCachedSizes (ret_get_info m)) s1 else Inr s1) (\<lambda>s2.
     Inr (if rt_unknown m \<noteq> [] then SerializeUnknownFields (rt_unknown m) s2 else s2)))"

definition lreq_SerializeWithCachedSizes :: "cs_login_request \<Rightarrow> cos \<Rightarrow> cos res" where
  "lreq_SerializeWithCachedSizes m s0 =
     res_bind (if lreq_has_account m then WriteStringMaybeAliased 2 (lreq_get_account m) s0 else Inr s0) (\<lambda>s1.
     res_bind (if lreq_has_password m then WriteStringMaybeAliased 3 (lreq_get_password m) s1 else Inr s1) (\<lambda>s2.
     Inr (if lq_unknown m \<noteq> [] then SerializeUnknownFields (lq_unknown m) s2 else s2)))"

definition lret_SerializeWithCachedSizes :: "cs_login_return \<Rightarrow> cos \<Rightarrow> cos res" where
  "lret_SerializeWithCachedSizes m s0 =
     res_bind (if lret_has_result m then Inr (WriteUInt32 1 (lret_get_result m) s0) else Inr s0) (\<lambda>s1.
     res_bind (if lret_has_ip m then WriteStringMaybeAliased 2 (lret_get_ip m) s1 else Inr s1) (\<lambda>s2.
     res_bind (if lret_has_port m then Inr (WriteUInt32 3 (lret_get_port m) s2) else Inr s2) (\<lambda>s3.
     Inr (if lt_unknown m \<noteq> [] then SerializeUnknownFields (lt_unknown m) s3 else s3))))"

section \<open>They agree with the array serialisers\<close>

lemma unknown_raw:
  "(if u \<noteq> [] then SerializeUnknownFields u s else s) = WriteRaw (if u \<noteq> [] then SerializeUnknownFieldsToArray u else []) s"
  by (simp add: SerializeUnknownFields_raw)

lemma uint32_raw:
  "(if b then Inr (WriteUInt32 n v s) else Inr s) = (Inr (WriteRaw (if b then WriteUInt32ToArray n v else []) s) :: cos res)"
  by (simp add: WriteUInt32_raw)

lemma string_raw:
  "(b \<Longrightarrow> length v < 2 ^ 31) \<Longrightarrow>
    (if b then WriteStringMaybeAliased n v s else Inr s) = Inr (WriteRaw (if b then WriteStringToArray n v else []) s)"
  by (simp add: WriteStringMaybeAliased_raw)

lemmas stream_raw = unknown_raw uint32_raw string_raw WriteRaw_append [symmetric] res_bind_simps append.assoc

lemma info_stream:
  assumes "info_has_name m \<Longrightarrow> length (info_get_name m) < 2 ^ 31" and "info_has_ip m \<Longrightarrow> length (info_get_ip m) < 2 ^ 31"
  shows "info_SerializeWithCachedSizes m s = Inr (WriteRaw (info_SerializeWithCachedSizesToArray m) s)"
  unfolding info_SerializeWithCachedSizes_def info_SerializeWithCachedSizesToArray_def
  by (simp only: stream_raw assms)

lemma lreq_stream:
  assumes "lreq_has_account m \<Longrightarrow> length (lreq_get_account m) < 2 ^ 31"
    and "lreq_has_password m \<Longrightarrow> length (lreq_get_password m) < 2 ^ 31"
  shows "lreq_SerializeWithCachedSizes m s = Inr (WriteRaw (lreq_SerializeWithCachedSizesToArray m) s)"
  unfolding lreq_SerializeWithCachedSizes_def lreq_SerializeWithCachedSizesToArray_def
  by (simp only: stream_raw assms)

lemma lret_stream:
  assumes "lret_has_ip m \<Longrightarrow> length (lret_get_ip m) < 2 ^ 31"
  shows "lret_SerializeWithCachedSizes m s = Inr (WriteRaw (lret_SerializeWithCachedSizesToArray m) s)"
  unfolding lret_SerializeWithCachedSizes_def lret_SerializeWithCachedSizesToArray_def
  by (simp only: stream_raw assms)

text \<open>Strings that pass the \<^verbatim>\<open>GOOGLE_CHECK\<close> on their size.\<close>

definition info_strings_fit :: "serverappinfo \<Rightarrow> bool" where
  "info_strings_fit m \<longleftrightarrow> (info_has_name m \<longrightarrow> length (info_get_name m) < 2 ^ 31) \<and>
     (info_has_ip m \<longrightarrow> length (info_get_ip m) < 2 ^ 31)"

lemma info_strings_after:
  "info_strings_fit (snd (info_ByteSize m)) = info_strings_fit m"
  by (simp add: info_strings_fit_def info_ByteSize_def Let_def info_bits info_fields)

lemma message_raw:
  assumes "b \<Longrightarrow> sz = int (length (info_SerializeWithCachedSizesToArray x))" and "b \<Longrightarrow> info_strings_fit x"
  shows "(if b then WriteMessageMaybeToArray n sz (info_SerializeWithCachedSizesToArray x)
      (info_SerializeWithCachedSizes x) s else Inr s) =
    Inr (WriteRaw (if b then WriteMessageNoVirtualToArray n sz (info_SerializeWithCachedSizesToArray x) else []) s)"
  using assms by (simp add: WriteMessageMaybeToArray_raw info_stream info_strings_fit_def)

lemma req_stream:
  assumes "req_has_info m \<Longrightarrow> info_strings_fit (req_get_info m)"
  shows "req_SerializeWithCachedSizes (snd (req_ByteSize m)) s =
    Inr (WriteRaw (req_SerializeWithCachedSizesToArray (snd (req_ByteSize m))) s)"
proof -
  let ?m = "snd (req_ByteSize m)"
  have h: "req_has_info ?m = req_has_info m" by (simp add: req_ByteSize_def req_bits Let_def)
  have "req_get_info ?m = snd (info_ByteSize (req_get_info m)) \<or> req_get_info ?m = req_get_info m" if "req_has_info m"
    using req_none [of m] that by (cases "rq_info m") (auto simp: req_ByteSize_def req_get_info_def Let_def)
  then have f: "req_has_info ?m \<Longrightarrow> info_strings_fit (req_get_info ?m)"
    using assms h info_strings_after by fastforce
  have c: "req_has_info ?m \<Longrightarrow> si_cached_size (req_get_info ?m) = int (length (info_SerializeWithCachedSizesToArray (req_get_info ?m)))"
    using req_info_cached [of m] info_size_is_length [of "req_get_info m"] h by simp
  show ?thesis
    unfolding req_SerializeWithCachedSizes_def req_SerializeWithCachedSizesToArray_def
    by (simp only: stream_raw message_raw [OF c f])
qed

lemma ret_stream:
  assumes "ret_has_info m \<Longrightarrow> info_strings_fit (ret_get_info m)"
  shows "ret_SerializeWithCachedSizes (snd (ret_ByteSize m)) s =
    Inr (WriteRaw (ret_SerializeWithCachedSizesToArray (snd (ret_ByteSize m))) s)"
proof -
  let ?m = "snd (ret_ByteSize m)"
  have h: "ret_has_info ?m = ret_has_info m" by (simp add: ret_ByteSize_def ret_bits Let_def)
  have "ret_get_info ?m = snd (info_ByteSize (ret_get_info m)) \<or> ret_get_info ?m = ret_get_info m" if "ret_has_info m"
    using ret_none [of m] that by (cases "rt_info m") (auto simp: ret_ByteSize_def ret_get_info_def Let_def)
  then have f: "ret_has_info ?m \<Longrightarrow> info_strings_fit (ret_get_info ?m)"
    using assms h info_strings_after by fastforce
  have c: "ret_has_info ?m \<Longrightarrow> si_cached_size (ret_get_info ?m) = int (length (info_SerializeWithCachedSizesToArray (ret_get_info ?m)))"
    using ret_info_cached [of m] info_size_is_length [of "ret_get_info m"] h by simp
  show ?thesis
    unfolding ret_SerializeWithCachedSizes_def ret_SerializeWithCachedSizesToArray_def
    by (simp only: stream_raw message_raw [OF c f])
qed

section \<open>Properties\<close>



end
