(* ===== verification/Io.thy ===== *)
theory Io
  imports Prelude
begin

text \<open>
  Stateful code that can fail: an operation takes the state of the process and
  returns either a failure or its result with the new state.  The combinators
  are those the translated functions are written with; \<open>triple\<close> states what
  an operation guarantees from a precondition, for the results and for the
  failures, and its rules follow the structure of the code.
\<close>

named_theorems io_rules \<open>rules for triples over the combinators\<close>

type_synonym ('w, 'a) io = "'w \<Rightarrow> ('a \<times> 'w) res"

definition io_return :: "'a \<Rightarrow> ('w, 'a) io" where
  "io_return x = (\<lambda>w. Inr (x, w))"

definition io_bind :: "('w, 'a) io \<Rightarrow> ('a \<Rightarrow> ('w, 'b) io) \<Rightarrow> ('w, 'b) io" where
  "io_bind m f = (\<lambda>w. res_bind (m w) (\<lambda>(x, w'). f x w'))"

definition io_fail :: "cpp_error \<Rightarrow> ('w, 'a) io" where
  "io_fail e = (\<lambda>w. Inl e)"

definition io_get :: "('w \<Rightarrow> 'a) \<Rightarrow> ('w, 'a) io" where
  "io_get f = (\<lambda>w. Inr (f w, w))"

definition io_modify :: "('w \<Rightarrow> 'w) \<Rightarrow> ('w, unit) io" where
  "io_modify f = (\<lambda>w. Inr ((), f w))"

definition io_assert :: "bool \<Rightarrow> ('w, unit) io" where
  "io_assert b = (if b then io_return () else io_fail AssertFail)"

definition io_when :: "bool \<Rightarrow> ('w, unit) io \<Rightarrow> ('w, unit) io" where
  "io_when b m = (if b then m else io_return ())"

text \<open>A block of statements.\<close>

fun io_all :: "('w, unit) io list \<Rightarrow> ('w, unit) io" where
  "io_all [] = io_return ()"
| "io_all (m # ms) = io_bind m (\<lambda>_. io_all ms)"

text \<open>Statements followed by a result.\<close>

definition io_then :: "('w, unit) io list \<Rightarrow> ('w, 'a) io \<Rightarrow> ('w, 'a) io" where
  "io_then ms m = io_bind (io_all ms) (\<lambda>_. m)"

text \<open>Calls that return an error code: the first code other than 0 ends the
  function with it.\<close>

fun io_try :: "('w, int) io list \<Rightarrow> ('w, int) io \<Rightarrow> ('w, int) io" where
  "io_try [] k = k"
| "io_try (m # ms) k = io_bind m (\<lambda>e. if e \<noteq> 0 then io_return e else io_try ms k)"

lemma io_app [simp]:
  "io_return x w = Inr (x, w)"
  "io_bind m f w = res_bind (m w) (\<lambda>(x, w'). f x w')"
  "io_fail e w = Inl e"
  "io_get g w = Inr (g w, w)"
  "io_modify h w = Inr ((), h w)"
  "io_then ms k w = res_bind (io_all ms w) (\<lambda>(_, w'). k w')"
  by (simp_all add: io_return_def io_bind_def io_fail_def io_get_def io_modify_def io_then_def)

lemma io_assert_app [simp]: "io_assert b w = (if b then Inr ((), w) else Inl AssertFail)"
  by (simp add: io_assert_def)

lemma io_when_app [simp]: "io_when b m w = (if b then m w else Inr ((), w))"
  by (simp add: io_when_def)

section \<open>Triples\<close>

definition triple ::
    "('w \<Rightarrow> bool) \<Rightarrow> ('w, 'a) io \<Rightarrow> ('a \<Rightarrow> 'w \<Rightarrow> bool) \<Rightarrow> (cpp_error \<Rightarrow> bool) \<Rightarrow> bool" where
  "triple P m Q E \<longleftrightarrow>
     (\<forall>w. P w \<longrightarrow> (case m w of Inl e \<Rightarrow> E e | Inr (x, w') \<Rightarrow> Q x w'))"

lemma tripleI:
  assumes "\<And>w. P w \<Longrightarrow> (case m w of Inl e \<Rightarrow> E e | Inr (x, w') \<Rightarrow> Q x w')"
  shows "triple P m Q E"
  using assms by (simp add: triple_def)

lemma tripleD: "triple P m Q E \<Longrightarrow> P w \<Longrightarrow> m w = Inr (x, w') \<Longrightarrow> Q x w'"
  by (auto simp: triple_def)

lemma tripleD_fail: "triple P m Q E \<Longrightarrow> P w \<Longrightarrow> m w = Inl e \<Longrightarrow> E e"
  by (auto simp: triple_def)

lemma triple_cases:
  assumes "triple P m Q E" and "P w"
  obtains e where "m w = Inl e" and "E e" | x w' where "m w = Inr (x, w')" and "Q x w'"
  using assms by (cases "m w") (auto simp: triple_def)

lemma triple_pre: "triple P' m Q E \<Longrightarrow> (\<And>w. P w \<Longrightarrow> P' w) \<Longrightarrow> triple P m Q E"
  by (simp add: triple_def)

lemma triple_conseq:
  assumes "triple P' m Q' E'"
    and "\<And>w. P w \<Longrightarrow> P' w" and "\<And>x w. Q' x w \<Longrightarrow> Q x w" and "\<And>e. E' e \<Longrightarrow> E e"
  shows "triple P m Q E"
  using assms by (fastforce simp: triple_def split: sum.splits)

lemma triple_return [io_rules]: "(\<And>w. P w \<Longrightarrow> Q x w) \<Longrightarrow> triple P (io_return x) Q E"
  by (simp add: triple_def)

lemma triple_get [io_rules]: "(\<And>w. P w \<Longrightarrow> Q (f w) w) \<Longrightarrow> triple P (io_get f) Q E"
  by (simp add: triple_def)

lemma triple_modify [io_rules]: "(\<And>w. P w \<Longrightarrow> Q () (f w)) \<Longrightarrow> triple P (io_modify f) Q E"
  by (simp add: triple_def)

lemma triple_fail [io_rules]: "(\<And>w. P w \<Longrightarrow> E e) \<Longrightarrow> triple P (io_fail e) Q E"
  by (auto simp: triple_def)

lemma triple_bind:
  assumes "triple P m R E" and "\<And>x. triple (R x) (f x) Q E"
  shows "triple P (io_bind m f) Q E"
proof (rule tripleI)
  fix w
  assume "P w"
  with assms(1) show "case io_bind m f w of Inl e \<Rightarrow> E e | Inr (x, w') \<Rightarrow> Q x w'"
    using assms(2) by (cases rule: triple_cases) (auto simp: triple_def)
qed

text \<open>When every statement keeps one invariant.\<close>

definition keeps_inv :: "('w \<Rightarrow> bool) \<Rightarrow> ('w, 'a) io \<Rightarrow> (cpp_error \<Rightarrow> bool) \<Rightarrow> bool" where
  "keeps_inv I m E \<longleftrightarrow> triple I m (\<lambda>_. I) E"

lemma keeps_inv_return [io_rules]: "keeps_inv I (io_return x) E"
  by (simp add: keeps_inv_def triple_def)

lemma keeps_inv_get [io_rules]: "keeps_inv I (io_get f) E"
  by (simp add: keeps_inv_def triple_def)

lemma keeps_inv_modify: "(\<And>w. I w \<Longrightarrow> I (f w)) \<Longrightarrow> keeps_inv I (io_modify f) E"
  by (simp add: keeps_inv_def triple_def)

lemma keeps_inv_fail [io_rules]: "E e \<Longrightarrow> keeps_inv I (io_fail e) E"
  by (simp add: keeps_inv_def triple_def)

lemma keeps_inv_Inl [io_rules]: "E e \<Longrightarrow> keeps_inv I (\<lambda>w. Inl e) E"
  by (simp add: keeps_inv_def triple_def)

lemma keeps_inv_bind [io_rules]:
  "keeps_inv I m E \<Longrightarrow> (\<And>x. keeps_inv I (f x) E) \<Longrightarrow> keeps_inv I (io_bind m f) E"
  unfolding keeps_inv_def by (rule triple_bind)

lemma keeps_inv_assert [io_rules]: "E AssertFail \<Longrightarrow> keeps_inv I (io_assert b) E"
  by (simp add: io_assert_def keeps_inv_return keeps_inv_fail)

lemma keeps_inv_when [io_rules]: "(b \<Longrightarrow> keeps_inv I m E) \<Longrightarrow> keeps_inv I (io_when b m) E"
  by (simp add: io_when_def keeps_inv_return)

lemma keeps_inv_if [io_rules]:
  "(b \<Longrightarrow> keeps_inv I m E) \<Longrightarrow> (\<not> b \<Longrightarrow> keeps_inv I m' E) \<Longrightarrow> keeps_inv I (if b then m else m') E"
  by simp

lemma keeps_inv_all [io_rules]: "(\<And>m. m \<in> set ms \<Longrightarrow> keeps_inv I m E) \<Longrightarrow> keeps_inv I (io_all ms) E"
  by (induction ms) (auto intro: io_rules)

lemma keeps_inv_then [io_rules]:
  "keeps_inv I (io_all ms) E \<Longrightarrow> keeps_inv I m E \<Longrightarrow> keeps_inv I (io_then ms m) E"
  unfolding io_then_def by (rule keeps_inv_bind)

lemma keeps_inv_try [io_rules]:
  "(\<And>m. m \<in> set ms \<Longrightarrow> keeps_inv I m E) \<Longrightarrow> keeps_inv I k E \<Longrightarrow> keeps_inv I (io_try ms k) E"
  by (induction ms) (auto intro!: io_rules)

lemma keeps_invD: "keeps_inv I m E \<Longrightarrow> I w \<Longrightarrow> m w = Inr (x, w') \<Longrightarrow> I w'"
  unfolding keeps_inv_def by (drule tripleD)

text \<open>A statement that keeps the precondition, followed by the rest.\<close>

lemma triple_keep:
  "keeps_inv I m E \<Longrightarrow> (\<And>x. triple I (f x) Q E) \<Longrightarrow> triple I (io_bind m f) Q E"
  unfolding keeps_inv_def by (rule triple_bind)

lemma triple_all_keep:
  "keeps_inv I m E \<Longrightarrow> triple I (io_all ms) Q E \<Longrightarrow> triple I (io_all (m # ms)) Q E"
  by (simp add: triple_keep)

lemma triple_all_first:
  "triple P m (\<lambda>_. R) E \<Longrightarrow> triple R (io_all ms) Q E \<Longrightarrow> triple P (io_all (m # ms)) Q E"
  by (simp add: triple_bind)

lemma triple_all_last: "triple P m Q E \<Longrightarrow> triple P (io_all [m]) Q E"
  by (auto simp: triple_def res_bind_def split: sum.splits)

lemma triple_when: "(b \<Longrightarrow> triple P m (\<lambda>_. Q) E) \<Longrightarrow> (\<And>w. \<not> b \<Longrightarrow> P w \<Longrightarrow> Q w) \<Longrightarrow> triple P (io_when b m) (\<lambda>_. Q) E"
  by (auto simp: triple_def io_when_def)

lemma triple_if:
  "(b \<Longrightarrow> triple P m Q E) \<Longrightarrow> (\<not> b \<Longrightarrow> triple P m' Q E) \<Longrightarrow> triple P (if b then m else m') Q E"
  by simp

lemma triple_then:
  "triple P (io_all ms) (\<lambda>_. R) E \<Longrightarrow> triple R m Q E \<Longrightarrow> triple P (io_then ms m) Q E"
  unfolding io_then_def by (rule triple_bind)

lemma keeps_invI: "triple I m (\<lambda>_. I) E \<Longrightarrow> keeps_inv I m E"
  by (simp add: keeps_inv_def)

lemma triple_assert: "E AssertFail \<Longrightarrow> triple P (io_assert b) (\<lambda>_. P) E"
  by (simp add: triple_def)

end
