(* ===== verification/Uv_Base.thy ===== *)
theory Uv_Base
  imports Io
begin

text \<open>
  The state of the process that libuv works on, for its Windows implementation
  (\<^verbatim>\<open>3rd/libuv-v1.19.2\<close>): the TCP and UDP handles, the event loop with its
  queues, the requests in flight, and the blocks of the C heap.  A handle is
  embedded in an object of the network library, so its key is the address of
  that object; freeing the object removes the handle.

  Windows itself is not part of the program.  Its answers are the argument
  \<open>sys\<close> of the state: the n-th system call of a run gets the answer \<open>sys n\<close>.
  Nothing is assumed about them except that an error code is not negative and
  that only requests in flight complete.  \<open>sent\<close> records the data handed to it.

  Not represented are the features the program never turns on: sockets shared
  with other processes or imported from them (the only users of
  \<^verbatim>\<open>UV_HANDLE_EMULATE_IOCP\<close>), \<^verbatim>\<open>uv_tcp_simultaneous_accepts\<close>, shutdown requests,
  and handles other than TCP and UDP.
\<close>

section \<open>Error codes\<close>

abbreviation (input) UV_EOF :: int where "UV_EOF \<equiv> - 4095"
abbreviation (input) UV_UNKNOWN :: int where "UV_UNKNOWN \<equiv> - 4094"
abbreviation (input) UV_EALREADY :: int where "UV_EALREADY \<equiv> - 4084"
abbreviation (input) UV_EBUSY :: int where "UV_EBUSY \<equiv> - 4082"
abbreviation (input) UV_ECANCELED :: int where "UV_ECANCELED \<equiv> - 4081"
abbreviation (input) UV_ECONNABORTED :: int where "UV_ECONNABORTED \<equiv> - 4079"
abbreviation (input) UV_ECONNRESET :: int where "UV_ECONNRESET \<equiv> - 4077"
abbreviation (input) UV_EINVAL :: int where "UV_EINVAL \<equiv> - 4071"
abbreviation (input) UV_ENOBUFS :: int where "UV_ENOBUFS \<equiv> - 4060"
abbreviation (input) UV_ENOTCONN :: int where "UV_ENOTCONN \<equiv> - 4053"
abbreviation (input) UV_EPIPE :: int where "UV_EPIPE \<equiv> - 4047"
abbreviation (input) UV_EAFNOSUPPORT :: int where "UV_EAFNOSUPPORT \<equiv> - 4089"
abbreviation (input) UV_ENOSPC :: int where "UV_ENOSPC \<equiv> - 4055"

abbreviation (input) WSAEWOULDBLOCK :: nat where "WSAEWOULDBLOCK \<equiv> 10035"
abbreviation (input) WSAEALREADY :: nat where "WSAEALREADY \<equiv> 10037"
abbreviation (input) WSAEMSGSIZE :: nat where "WSAEMSGSIZE \<equiv> 10040"
abbreviation (input) WSAEAFNOSUPPORT :: nat where "WSAEAFNOSUPPORT \<equiv> 10047"
abbreviation (input) WSAEADDRINUSE :: nat where "WSAEADDRINUSE \<equiv> 10048"
abbreviation (input) WSAENETRESET :: nat where "WSAENETRESET \<equiv> 10052"
abbreviation (input) WSAECONNABORTED :: nat where "WSAECONNABORTED \<equiv> 10053"
abbreviation (input) WSAECONNRESET :: nat where "WSAECONNRESET \<equiv> 10054"
abbreviation (input) WSAEISCONN :: nat where "WSAEISCONN \<equiv> 10056"
abbreviation (input) WSAENOTCONN :: nat where "WSAENOTCONN \<equiv> 10057"
abbreviation (input) ERROR_INVALID_FUNCTION :: nat where "ERROR_INVALID_FUNCTION \<equiv> 1"
abbreviation (input) WAIT_TIMEOUT :: nat where "WAIT_TIMEOUT \<equiv> 258"
abbreviation (input) ERROR_IO_PENDING :: nat where "ERROR_IO_PENDING \<equiv> 997"
abbreviation (input) ERROR_INVALID_PARAMETER :: nat where "ERROR_INVALID_PARAMETER \<equiv> 87"

definition sys_error_table :: "(int \<times> int) list" where
  "sys_error_table =
     [(998, - 4092), (10013, - 4092), (740, - 4092), (1227, - 4091), (10048, - 4091),
      (10049, - 4090), (10047, - 4089), (10035, - 4088), (10037, - 4084), (1004, - 4083),
      (6, - 4083), (33, - 4082), (231, - 4082), (32, - 4082), (995, - 4081), (10004, - 4081),
      (1113, - 4080), (1236, - 4079), (10053, - 4079), (1225, - 4078), (10061, - 4078),
      (64, - 4077), (10054, - 4077), (183, - 4075), (80, - 4075), (111, - 4074),
      (10014, - 4074), (1232, - 4073), (10065, - 4073), (122, - 4071), (13, - 4071),
      (87, - 4071), (1464, - 4071), (10022, - 4071), (10046, - 4071), (10044, - 4071),
      (1102, - 4070), (1111, - 4070), (23, - 4070), (1166, - 4070), (1165, - 4070),
      (1393, - 4070), (1129, - 4070), (1101, - 4070), (31, - 4070), (1106, - 4070),
      (1117, - 4070), (1104, - 4070), (205, - 4070), (110, - 4070), (1103, - 4070),
      (156, - 4070), (10056, - 4069), (1921, - 4067), (4, - 4066), (10024, - 4066),
      (10040, - 4065), (206, - 4064), (1231, - 4062), (10051, - 4062), (10055, - 4060),
      (161, - 4058), (267, - 4058), (2, - 4058), (123, - 4058), (15, - 4058), (4392, - 4058),
      (126, - 4058), (3, - 4058), (11001, - 4058), (11004, - 4058), (8, - 4057), (14, - 4057),
      (82, - 4055), (112, - 4055), (277, - 4055), (1100, - 4055), (39, - 4055), (2250, - 4053),
      (10057, - 4053), (145, - 4051), (10038, - 4050), (50, - 4049), (109, - 4095), (5, - 4048),
      (1314, - 4048), (230, - 4047), (232, - 4047), (233, - 4047), (10058, - 4047),
      (10043, - 4045), (19, - 4043), (121, - 4039), (10060, - 4039), (17, - 4037), (1, - 4068),
      (208, - 4093)]"

definition uv_translate_sys_error :: "int \<Rightarrow> int" where
  "uv_translate_sys_error sys_errno =
     (if sys_errno \<le> 0 then sys_errno
      else case map_of sys_error_table sys_errno of None \<Rightarrow> UV_UNKNOWN | Some e \<Rightarrow> e)"

lemma table_negative: "map_of sys_error_table e = Some r \<Longrightarrow> r < 0"
  by (drule map_of_SomeD) (auto simp: sys_error_table_def)

lemma uv_translate_sys_error_nonpos: "uv_translate_sys_error e \<le> 0"
  by (auto simp: uv_translate_sys_error_def dest: table_negative split: option.splits)

lemma uv_translate_sys_error_zero [simp]: "uv_translate_sys_error e = 0 \<longleftrightarrow> e = 0"
  by (auto simp: uv_translate_sys_error_def dest: table_negative split: option.splits)

section \<open>The state\<close>

datatype uv_handle_type = UV_UNKNOWN_HANDLE | UV_TCP | UV_UDP

text \<open>The functions the network library passes to libuv.\<close>

datatype alloc_cb = On_alloc_head | On_alloc_body | On_alloc_buffer
datatype read_cb = On_receive_head | On_receive_body
datatype close_cb = Session_on_close | Tcp_on_close | Udp_on_close

text \<open>\<^verbatim>\<open>uv_buf_t\<close>: length and base address.\<close>

record uv_buf =
  buf_base :: ptr
  buf_len :: nat

definition uv_buf_init :: "ptr \<Rightarrow> nat \<Rightarrow> uv_buf" where
  "uv_buf_init b n = \<lparr>buf_base = b, buf_len = n\<rparr>"

text \<open>
  A handle: the fields of \<^verbatim>\<open>uv_tcp_t\<close> and \<^verbatim>\<open>uv_udp_t\<close>, its flag bits as booleans,
  \<^verbatim>\<open>INVALID_SOCKET\<close> as \<open>None\<close>, an unset callback as \<open>None\<close> or \<open>False\<close>.
  \<open>accept_sockets\<close> holds the socket of each accept request (the list is empty
  while \<^verbatim>\<open>accept_reqs\<close> is null) and \<open>pending_accepts\<close> the indices on that list.
\<close>

record uv_handle =
  h_type :: uv_handle_type
  f_closing :: bool
  f_closed :: bool
  f_endgame_queued :: bool
  f_active :: bool
  f_ref :: bool
  f_reading :: bool
  f_bound :: bool
  f_listening :: bool
  f_connection :: bool
  f_readable :: bool
  f_writable :: bool
  f_read_pending :: bool
  f_sync_bypass :: bool
  f_zero_read :: bool
  f_ipv6 :: bool
  f_nodelay :: bool
  f_keepalive :: bool
  f_socket_closed :: bool
  h_data :: ptr
  h_socket :: "nat option"
  reqs_pending :: nat
  activecnt :: int
  write_queue_size :: nat
  write_reqs_pending :: nat
  send_queue_count :: nat
  delayed_error :: int
  func_acceptex :: bool
  func_connectex :: bool
  accept_sockets :: "nat option list"
  pending_accepts :: "nat list"
  alloc_cb :: "alloc_cb option"
  read_cb :: "read_cb option"
  connection_cb :: bool
  close_cb :: "close_cb option"

definition zero_handle :: uv_handle where
  "zero_handle =
     \<lparr>h_type = UV_UNKNOWN_HANDLE, f_closing = False, f_closed = False, f_endgame_queued = False,
      f_active = False, f_ref = False, f_reading = False, f_bound = False, f_listening = False,
      f_connection = False, f_readable = False, f_writable = False, f_read_pending = False,
      f_sync_bypass = False, f_zero_read = False, f_ipv6 = False, f_nodelay = False,
      f_keepalive = False, f_socket_closed = False, h_data = 0, h_socket = None, reqs_pending = 0,
      activecnt = 0, write_queue_size = 0, write_reqs_pending = 0, send_queue_count = 0,
      delayed_error = 0, func_acceptex = False, func_connectex = False, accept_sockets = [],
      pending_accepts = [], alloc_cb = None, read_cb = None, connection_cb = False, close_cb = None\<rparr>"

text \<open>
  A request object, named by the object it is embedded in: the read or receive
  request and the accept requests of a handle, the write request of a session,
  the send request of the UDP server, and the connect request of the service.
\<close>

datatype request =
    ReadReq ptr
  | WriteReq ptr
  | AcceptReq ptr nat
  | ConnectReq
  | RecvReq ptr
  | SendReq ptr

text \<open>Status (a Winsock code, 0 for success), bytes transferred, bytes queued,
  and the handle a write or connect request was started on.\<close>

record req_state =
  r_status :: nat
  r_bytes :: nat
  r_queued :: nat
  r_handle :: ptr

text \<open>The answer of a system call: \<open>a_err\<close> is 0 or the error code,
  \<open>a_value\<close> a new socket or a byte count, \<open>a_data\<close> bytes received, \<open>a_addr\<close> a socket
  address, \<open>a_flag\<close> a yes/no answer, \<open>a_done\<close> the completed requests with status and byte count.\<close>

record answer =
  a_err :: nat
  a_value :: nat
  a_data :: "byte list"
  a_addr :: "byte list"
  a_flag :: bool
  a_done :: "(request \<times> nat \<times> nat) list"

record uv =
  handles :: "ptr \<Rightarrow> uv_handle option"
  blocks :: "ptr \<Rightarrow> byte list option"
  next_ptr :: ptr
  junk :: "ptr \<Rightarrow> nat \<Rightarrow> byte"
  active_handles :: int
  active_reqs :: "request list"
  handle_queue :: "ptr list"
  active_tcp_streams :: int
  active_udp_streams :: int
  pending_reqs :: "request list"
  endgame_handles :: "ptr list"
  reqs :: "request \<Rightarrow> req_state"
  kernel :: "request list"
  sent :: "(nat option \<times> byte list) list"
  sys :: "nat \<Rightarrow> answer"
  calls :: nat

definition sys_call :: "('a uv_scheme, answer) io" where
  "sys_call = (\<lambda>w. Inr (sys w (calls w), w\<lparr>calls := Suc (calls w)\<rparr>))"

text \<open>A call whose result the code ignores.\<close>

definition sys_ignore :: "('a uv_scheme, unit) io" where
  "sys_ignore = io_bind sys_call (\<lambda>_. io_return ())"

text \<open>A call of which only the error code matters.\<close>

definition sys_code :: "('a uv_scheme, int) io" where
  "sys_code = io_bind sys_call (\<lambda>a. io_return (int (a_err a)))"

section \<open>Objects and blocks\<close>

text \<open>Accessing an address: null, never allocated, freed.\<close>

definition bad_access :: "ptr \<Rightarrow> 'a uv_scheme \<Rightarrow> cpp_error" where
  "bad_access p w = (if p = 0 then NullDeref else if p < next_ptr w then UseAfterFree else OutOfBounds)"

definition get_handle :: "ptr \<Rightarrow> ('a uv_scheme, uv_handle) io" where
  "get_handle p = (\<lambda>w. case handles w p of None \<Rightarrow> Inl (bad_access p w) | Some h \<Rightarrow> Inr (h, w))"

definition upd_handle :: "ptr \<Rightarrow> (uv_handle \<Rightarrow> uv_handle) \<Rightarrow> ('a uv_scheme, unit) io" where
  "upd_handle p f =
     io_bind (get_handle p) (\<lambda>h. io_modify (\<lambda>w. w\<lparr>handles := (handles w)(p \<mapsto> f h)\<rparr>))"

text \<open>\<^verbatim>\<open>malloc\<close>, which is taken to succeed, as the program takes it to.\<close>

definition malloc :: "nat \<Rightarrow> ('a uv_scheme, ptr) io" where
  "malloc n = (\<lambda>w. let p = next_ptr w in
     Inr (p, w\<lparr>blocks := (blocks w)(p \<mapsto> map (junk w p) [0..<n]), next_ptr := Suc p\<rparr>))"

text \<open>\<^verbatim>\<open>free\<close> of a null pointer does nothing; only blocks may be freed.\<close>

definition mem_free :: "ptr \<Rightarrow> ('a uv_scheme, unit) io" where
  "mem_free p = (\<lambda>w. if p = 0 then Inr ((), w)
     else if blocks w p = None then Inl InvalidFree
     else Inr ((), w\<lparr>blocks := (blocks w)(p := None)\<rparr>))"

definition mem_block :: "ptr \<Rightarrow> ('a uv_scheme, byte list) io" where
  "mem_block p = (\<lambda>w. case blocks w p of None \<Rightarrow> Inl (bad_access p w) | Some b \<Rightarrow> Inr (b, w))"

definition mem_read :: "ptr \<Rightarrow> nat \<Rightarrow> nat \<Rightarrow> ('a uv_scheme, byte list) io" where
  "mem_read p i n = io_bind (mem_block p)
     (\<lambda>b. if i + n \<le> length b then io_return (subrange b i n) else io_fail OutOfBounds)"

definition mem_write :: "ptr \<Rightarrow> byte list \<Rightarrow> ('a uv_scheme, unit) io" where
  "mem_write p xs = io_bind (mem_block p)
     (\<lambda>b. if length xs \<le> length b then io_modify (\<lambda>w. w\<lparr>blocks := (blocks w)(p \<mapsto> blit b 0 xs)\<rparr>)
          else io_fail OutOfBounds)"

definition mem_zero :: "ptr \<Rightarrow> nat \<Rightarrow> ('a uv_scheme, unit) io" where
  "mem_zero p n = (if n = 0 then io_return () else mem_write p (replicate n 0))"

text \<open>\<^verbatim>\<open>realloc\<close> to a larger size: the block grows in place or moves, as the
  allocator decides.\<close>

definition mem_realloc :: "ptr \<Rightarrow> nat \<Rightarrow> ('a uv_scheme, ptr) io" where
  "mem_realloc p n = io_bind (mem_block p) (\<lambda>b. io_bind sys_call (\<lambda>a.
     if a_flag a
     then io_then [io_modify (\<lambda>w. w\<lparr>blocks := (blocks w)(p \<mapsto> take n (b @ map (junk w p) [length b..<n]))\<rparr>)]
            (io_return p)
     else io_bind (malloc n) (\<lambda>q. io_then [mem_write q (take n b), mem_free p] (io_return q))))"

section \<open>Handles and the loop\<close>

definition uv__active_handle_add :: "('a uv_scheme, unit) io" where
  "uv__active_handle_add = io_modify (\<lambda>w. w\<lparr>active_handles := active_handles w + 1\<rparr>)"

definition uv__active_handle_rm :: "('a uv_scheme, unit) io" where
  "uv__active_handle_rm = io_modify (\<lambda>w. w\<lparr>active_handles := active_handles w - 1\<rparr>)"

definition uv__handle_start :: "ptr \<Rightarrow> ('a uv_scheme, unit) io" where
  "uv__handle_start p = io_bind (get_handle p) (\<lambda>h. io_all
     [io_assert (\<not> f_closing h),
      io_when (\<not> f_active h) (io_all
        [upd_handle p (f_active_update (\<lambda>_. True)),
         io_when (f_ref h) uv__active_handle_add])])"

definition uv__handle_stop :: "ptr \<Rightarrow> ('a uv_scheme, unit) io" where
  "uv__handle_stop p = io_bind (get_handle p) (\<lambda>h. io_all
     [io_assert (\<not> f_closing h),
      io_when (f_active h) (io_all
        [upd_handle p (f_active_update (\<lambda>_. False)),
         io_when (f_ref h) uv__active_handle_rm])])"

definition DECREASE_ACTIVE_COUNT :: "ptr \<Rightarrow> ('a uv_scheme, unit) io" where
  "DECREASE_ACTIVE_COUNT p = io_bind (get_handle p) (\<lambda>h. io_all
     [upd_handle p (\<lambda>h. h\<lparr>activecnt := activecnt h - 1\<rparr>),
      io_when (activecnt h - 1 = 0 \<and> \<not> f_closing h) (uv__handle_stop p),
      io_assert (0 \<le> activecnt h - 1)])"

definition INCREASE_ACTIVE_COUNT :: "ptr \<Rightarrow> ('a uv_scheme, unit) io" where
  "INCREASE_ACTIVE_COUNT p = io_bind (get_handle p) (\<lambda>h. io_all
     [upd_handle p (\<lambda>h. h\<lparr>activecnt := activecnt h + 1\<rparr>),
      io_when (activecnt h = 0) (uv__handle_start p),
      io_assert (0 < activecnt h + 1)])"

definition uv_want_endgame :: "ptr \<Rightarrow> ('a uv_scheme, unit) io" where
  "uv_want_endgame p = io_bind (get_handle p) (\<lambda>h.
     io_when (\<not> f_endgame_queued h) (io_all
       [upd_handle p (f_endgame_queued_update (\<lambda>_. True)),
        io_modify (\<lambda>w. w\<lparr>endgame_handles := p # endgame_handles w\<rparr>)]))"

definition DECREASE_PENDING_REQ_COUNT :: "ptr \<Rightarrow> ('a uv_scheme, unit) io" where
  "DECREASE_PENDING_REQ_COUNT p = io_bind (get_handle p) (\<lambda>h. io_all
     [io_assert (0 < reqs_pending h),
      upd_handle p (\<lambda>h. h\<lparr>reqs_pending := reqs_pending h - 1\<rparr>),
      io_when (f_closing h \<and> reqs_pending h - 1 = 0) (uv_want_endgame p)])"

definition uv__handle_closing :: "ptr \<Rightarrow> ('a uv_scheme, unit) io" where
  "uv__handle_closing p = io_bind (get_handle p) (\<lambda>h. io_all
     [io_assert (\<not> f_closing h),
      io_when (\<not> (f_active h \<and> f_ref h)) uv__active_handle_add,
      upd_handle p (\<lambda>h. h\<lparr>f_closing := True, f_active := False\<rparr>)])"

definition uv__handle_init :: "ptr \<Rightarrow> uv_handle_type \<Rightarrow> ('a uv_scheme, unit) io" where
  "uv__handle_init p t = io_all
     [upd_handle p (\<lambda>h. h\<lparr>h_type := t,
        f_closing := False, f_closed := False, f_endgame_queued := False, f_active := False,
        f_ref := True, f_reading := False, f_bound := False, f_listening := False,
        f_connection := False, f_readable := False, f_writable := False, f_read_pending := False,
        f_sync_bypass := False, f_zero_read := False, f_ipv6 := False, f_nodelay := False,
        f_keepalive := False, f_socket_closed := False\<rparr>),
      io_modify (\<lambda>w. w\<lparr>handle_queue := handle_queue w @ [p]\<rparr>)]"

section \<open>Requests\<close>

text \<open>The object a request is embedded in; the connect request is a member of
  the service.\<close>

fun req_owner :: "request \<Rightarrow> ptr option" where
  "req_owner (ReadReq p) = Some p"
| "req_owner (WriteReq p) = Some p"
| "req_owner (AcceptReq p i) = Some p"
| "req_owner ConnectReq = None"
| "req_owner (RecvReq p) = Some p"
| "req_owner (SendReq p) = Some p"

definition touch_req :: "request \<Rightarrow> ('a uv_scheme, unit) io" where
  "touch_req r = (case req_owner r of None \<Rightarrow> io_return ()
     | Some p \<Rightarrow> io_bind (get_handle p) (\<lambda>_. io_return ()))"

definition upd_req :: "request \<Rightarrow> (req_state \<Rightarrow> req_state) \<Rightarrow> ('a uv_scheme, unit) io" where
  "upd_req r f = io_all [touch_req r, io_modify (\<lambda>w. w\<lparr>reqs := (reqs w)(r := f (reqs w r))\<rparr>)]"

definition uv_insert_pending_req :: "request \<Rightarrow> ('a uv_scheme, unit) io" where
  "uv_insert_pending_req r = io_bind (io_get pending_reqs) (\<lambda>q. io_all
     [touch_req r,
      io_assert (r \<notin> set q),
      io_modify (\<lambda>w. w\<lparr>pending_reqs := pending_reqs w @ [r]\<rparr>)])"

text \<open>The request is now with the kernel, which completes it through the
  completion port.\<close>

definition kernel_queue :: "request \<Rightarrow> ('a uv_scheme, unit) io" where
  "kernel_queue r = io_modify (\<lambda>w. w\<lparr>kernel := kernel w @ [r]\<rparr>)"

definition REGISTER_HANDLE_REQ :: "ptr \<Rightarrow> request \<Rightarrow> ('a uv_scheme, unit) io" where
  "REGISTER_HANDLE_REQ p r = io_all
     [INCREASE_ACTIVE_COUNT p, io_modify (\<lambda>w. w\<lparr>active_reqs := active_reqs w @ [r]\<rparr>)]"

definition UNREGISTER_HANDLE_REQ :: "ptr \<Rightarrow> request \<Rightarrow> ('a uv_scheme, unit) io" where
  "UNREGISTER_HANDLE_REQ p r = io_bind (io_get active_reqs) (\<lambda>q. io_all
     [DECREASE_ACTIVE_COUNT p,
      io_assert (q \<noteq> []),
      io_modify (\<lambda>w. w\<lparr>active_reqs := remove1 r (active_reqs w)\<rparr>)])"

text \<open>A request of a handle gets underway: counted, and placed on the loop's
  queue or with the kernel.\<close>

definition count_req :: "ptr \<Rightarrow> ('a uv_scheme, unit) io" where
  "count_req p = upd_handle p (\<lambda>h. h\<lparr>reqs_pending := Suc (reqs_pending h)\<rparr>)"

end
