(* ===== verification/Uv_Inet.thy ===== *)
theory Uv_Inet
  imports Uv_Base
begin

text \<open>
  Addresses (\<^verbatim>\<open>libuv/src/inet.c\<close> and \<^verbatim>\<open>uv-common.c\<close>): parsing of IPv4 and IPv6
  address strings, printing of IPv4 addresses, and the socket address
  structures built from them.  A string is the list of its bytes, a socket
  address the list of the bytes of its structure.
\<close>

abbreviation (input) chr_dot :: byte where "chr_dot \<equiv> 0x2E"
abbreviation (input) chr_colon :: byte where "chr_colon \<equiv> 0x3A"
abbreviation (input) chr_percent :: byte where "chr_percent \<equiv> 0x25"

text \<open>The characters before the terminating zero.\<close>

definition c_str :: "byte list \<Rightarrow> byte list" where
  "c_str s = takeWhile (\<lambda>c. c \<noteq> 0) s"

section \<open>IPv4\<close>

text \<open>\<^verbatim>\<open>strchr(digits, ch)\<close>.\<close>

definition digit :: "byte \<Rightarrow> nat option" where
  "digit c = (if 0x30 \<le> c \<and> c \<le> 0x39 then Some (unat (c - 0x30)) else None)"

text \<open>The loop of \<^verbatim>\<open>inet_pton4\<close>; \<open>tmp\<close> holds the octets before \<^verbatim>\<open>*tp\<close>, which is
  \<open>cur\<close>.\<close>

fun pton4_loop :: "byte list \<Rightarrow> bool \<Rightarrow> nat \<Rightarrow> byte list \<Rightarrow> nat \<Rightarrow> byte list option" where
  "pton4_loop [] saw_digit octets tmp cur = (if octets < 4 then None else Some (tmp @ [of_nat cur]))"
| "pton4_loop (ch # src) saw_digit octets tmp cur =
     (case digit ch of
        Some d \<Rightarrow>
          (let nw = cur * 10 + d in
           if saw_digit \<and> cur = 0 then None
           else if 255 < nw then None
           else if \<not> saw_digit then
             (if 4 < Suc octets then None else pton4_loop src True (Suc octets) tmp nw)
           else pton4_loop src True octets tmp nw)
      | None \<Rightarrow>
          (if ch = chr_dot \<and> saw_digit then
             (if octets = 4 then None else pton4_loop src False octets (tmp @ [of_nat cur]) 0)
           else None))"

definition inet_pton4 :: "byte list \<Rightarrow> byte list option" where
  "inet_pton4 src = pton4_loop src False 0 [] 0"

text \<open>\<^verbatim>\<open>%u\<close> of an octet.\<close>

definition dec_chars :: "nat \<Rightarrow> byte list" where
  "dec_chars n =
     (if n < 10 then [of_nat (0x30 + n)]
      else if n < 100 then [of_nat (0x30 + n div 10), of_nat (0x30 + n mod 10)]
      else [of_nat (0x30 + n div 100), of_nat (0x30 + n div 10 mod 10), of_nat (0x30 + n mod 10)])"

definition inet_ntop4 :: "byte list \<Rightarrow> nat \<Rightarrow> int \<times> byte list" where
  "inet_ntop4 src sz =
     (let tmp = dec_chars (unat (src ! 0)) @ [chr_dot] @ dec_chars (unat (src ! 1)) @ [chr_dot] @
                dec_chars (unat (src ! 2)) @ [chr_dot] @ dec_chars (unat (src ! 3))
      in if sz \<le> length tmp then (UV_ENOSPC, []) else (0, tmp))"

section \<open>IPv6\<close>

definition xdigit :: "byte \<Rightarrow> nat option" where
  "xdigit c =
     (if 0x30 \<le> c \<and> c \<le> 0x39 then Some (unat (c - 0x30))
      else if 0x61 \<le> c \<and> c \<le> 0x66 then Some (10 + unat (c - 0x61))
      else if 0x41 \<le> c \<and> c \<le> 0x46 then Some (10 + unat (c - 0x41))
      else None)"

definition group_bytes :: "u32 \<Rightarrow> byte list" where
  "group_bytes val = [ucast (drop_bit 8 val), ucast val]"

text \<open>What follows the loop of \<^verbatim>\<open>inet_pton6\<close>: the last group, and the zeros that
  \<^verbatim>\<open>::\<close> stands for.\<close>

definition pton6_finish :: "nat \<Rightarrow> u32 \<Rightarrow> byte list \<Rightarrow> nat option \<Rightarrow> byte list option" where
  "pton6_finish seen_xdigits val tmp colonp =
     (if seen_xdigits \<noteq> 0 \<and> 16 < length tmp + 2 then None
      else
        let tmp1 = (if seen_xdigits \<noteq> 0 then tmp @ group_bytes val else tmp) in
        case colonp of
          Some c \<Rightarrow>
            (if length tmp1 = 16 then None
             else Some (take c tmp1 @ replicate (16 - length tmp1) 0 @ drop c tmp1))
        | None \<Rightarrow> (if length tmp1 \<noteq> 16 then None else Some tmp1))"

fun pton6_loop ::
    "byte list \<Rightarrow> byte list \<Rightarrow> nat \<Rightarrow> u32 \<Rightarrow> byte list \<Rightarrow> nat option \<Rightarrow> byte list option" where
  "pton6_loop [] curtok seen_xdigits val tmp colonp = pton6_finish seen_xdigits val tmp colonp"
| "pton6_loop (ch # src) curtok seen_xdigits val tmp colonp =
     (case xdigit ch of
        Some d \<Rightarrow>
          (if 4 < Suc seen_xdigits then None
           else pton6_loop src curtok (Suc seen_xdigits) (push_bit 4 val OR of_nat d) tmp colonp)
      | None \<Rightarrow>
          (if ch = chr_colon then
             (if seen_xdigits = 0 then
                (if colonp \<noteq> None then None else pton6_loop src src 0 val tmp (Some (length tmp)))
              else if src = [] then None
              else if 16 < length tmp + 2 then None
              else pton6_loop src src 0 0 (tmp @ group_bytes val) colonp)
           else if ch = chr_dot \<and> length tmp + 4 \<le> 16 then
             (case inet_pton4 curtok of
                Some v4 \<Rightarrow> pton6_finish 0 val (tmp @ v4) colonp
              | None \<Rightarrow> None)
           else None))"

definition inet_pton6 :: "byte list \<Rightarrow> byte list option" where
  "inet_pton6 src =
     (case src of
        c # rest \<Rightarrow>
          (if c = chr_colon
           then (case rest of
                   c' # _ \<Rightarrow> if c' \<noteq> chr_colon then None else pton6_loop rest rest 0 0 [] None
                 | [] \<Rightarrow> None)
           else pton6_loop src src 0 0 [] None)
      | [] \<Rightarrow> pton6_loop [] [] 0 0 [] None)"

section \<open>Socket addresses\<close>

abbreviation (input) AF_INET :: nat where "AF_INET \<equiv> 2"
abbreviation (input) AF_INET6 :: nat where "AF_INET6 \<equiv> 23"

text \<open>The result of a parser as a return code, and the bytes it stores.\<close>

definition pton_result :: "nat \<Rightarrow> byte list option \<Rightarrow> int \<times> byte list" where
  "pton_result n r = (case r of None \<Rightarrow> (UV_EINVAL, replicate n 0) | Some b \<Rightarrow> (0, b))"

definition uv_inet_pton :: "nat \<Rightarrow> byte list \<Rightarrow> int \<times> byte list" where
  "uv_inet_pton af src =
     (if af = AF_INET then pton_result 4 (inet_pton4 src)
      else if af = AF_INET6 then
        (if chr_percent \<in> set src
         then let s = takeWhile (\<lambda>c. c \<noteq> chr_percent) src in
              if 45 < length s then (UV_EINVAL, replicate 16 0) else pton_result 16 (inet_pton6 s)
         else pton_result 16 (inet_pton6 src))
      else (UV_EAFNOSUPPORT, []))"

text \<open>\<^verbatim>\<open>htons\<close>: the bytes of a port in memory.\<close>

definition port_bytes :: "int \<Rightarrow> byte list" where
  "port_bytes port = (let p = of_int port :: u16 in [ucast (drop_bit 8 p), ucast p])"

definition uv_ip4_addr :: "byte list \<Rightarrow> int \<Rightarrow> int \<times> byte list" where
  "uv_ip4_addr ip port =
     (let (r, a) = uv_inet_pton AF_INET (c_str ip)
      in (r, le_bytes 2 AF_INET @ port_bytes port @ a @ replicate 8 0))"

text \<open>\<^verbatim>\<open>atoi\<close>: blanks, a sign, digits.\<close>

fun atoi_digits :: "byte list \<Rightarrow> int \<Rightarrow> int" where
  "atoi_digits [] v = v"
| "atoi_digits (c # cs) v = (case digit c of None \<Rightarrow> v | Some d \<Rightarrow> atoi_digits cs (v * 10 + int d))"

definition atoi :: "byte list \<Rightarrow> int" where
  "atoi s =
     (case dropWhile (\<lambda>c. c = 0x20 \<or> (9 \<le> c \<and> c \<le> 13)) s of
        [] \<Rightarrow> 0
      | c # cs \<Rightarrow> if c = 0x2D then - atoi_digits cs 0
                  else if c = 0x2B then atoi_digits cs 0
                  else atoi_digits (c # cs) 0)"

definition uv_ip6_addr :: "byte list \<Rightarrow> int \<Rightarrow> int \<times> byte list" where
  "uv_ip6_addr ip port =
     (let s = c_str ip;
          zoned = (chr_percent \<in> set s);
          part = (if zoned then take 39 (takeWhile (\<lambda>c. c \<noteq> chr_percent) s) else s);
          scope = (if zoned then atoi (tl (dropWhile (\<lambda>c. c \<noteq> chr_percent) s)) else 0);
          (r, a) = uv_inet_pton AF_INET6 part
      in (r, le_bytes 2 AF_INET6 @ port_bytes port @ replicate 4 0 @ a @
             le_bytes 4 (unat (of_int scope :: u32))))"

text \<open>Reading the members of a socket address from its bytes.\<close>

definition sa_family :: "byte list \<Rightarrow> nat" where
  "sa_family a = le_val (subrange a 0 2)"

definition sin_port :: "byte list \<Rightarrow> nat" where
  "sin_port a = le_val (subrange a 2 2)"

definition sin_addr :: "byte list \<Rightarrow> nat" where
  "sin_addr a = le_val (subrange a 4 4)"

definition sin6_addr_low :: "byte list \<Rightarrow> nat" where
  "sin6_addr_low a = le_val (subrange a 8 4)"

section \<open>The accepted IPv4 strings\<close>

definition dotted :: "byte list \<Rightarrow> byte list" where
  "dotted b = dec_chars (unat (b ! 0)) @ [chr_dot] @ dec_chars (unat (b ! 1)) @ [chr_dot] @
     dec_chars (unat (b ! 2)) @ [chr_dot] @ dec_chars (unat (b ! 3))"

lemma digit_chr: "d < 10 \<Longrightarrow> digit (of_nat (0x30 + d)) = Some d"
proof -
  assume "d < 10"
  then have "d \<in> {0, 1, 2, 3, 4, 5, 6, 7, 8, 9}" by auto
  then show ?thesis by (auto simp: digit_def)
qed

lemma digit_SomeD:
  assumes "digit c = Some d"
  shows "d < 10 \<and> c = of_nat (0x30 + d)"
proof -
  have range: "0x30 \<le> c" "c \<le> 0x39" and d: "d = unat (c - 0x30)"
    using assms by (auto simp: digit_def split: if_splits)
  have d': "d = unat c - 48" using range(1) d by (simp add: unat_sub word_le_nat_alt)
  have le: "48 \<le> unat c" "unat c \<le> 57" using range by (simp_all add: word_le_nat_alt)
  have "of_nat (0x30 + d) = (of_nat (unat c) :: byte)" using d' le by simp
  then show ?thesis using d' le by simp
qed

lemma digit_dot: "digit chr_dot = None"
  by (simp add: digit_def)

lemma dec_split: "n div 100 = n div 10 div (10 :: nat)"
  by (simp add: div_mult2_eq [symmetric])

lemma dec_chars_step:
  assumes "cur \<noteq> 0" and "cur * 10 + d \<le> 255" and "d < 10"
  shows "dec_chars (cur * 10 + d) = dec_chars cur @ [of_nat (0x30 + d)]"
proof -
  have dm: "(cur * 10 + d) div 10 = cur" "(cur * 10 + d) mod 10 = d" using assms(3) by simp_all
  have "cur < 26" using assms(2) by simp
  moreover have "cur < 10 \<Longrightarrow> cur * 10 + d < 100" using assms(3) by simp
  moreover have "\<not> cur * 10 + d < 10" using assms(1) by simp
  ultimately show ?thesis unfolding dec_chars_def dec_split dm by auto
qed

lemma pton4_digit:
  assumes "d < 10" and "saw \<Longrightarrow> cur \<noteq> 0" and "cur * 10 + d \<le> 255"
  shows "pton4_loop (of_nat (0x30 + d) # rest) saw octets tmp cur =
    (if saw then pton4_loop rest True octets tmp (cur * 10 + d)
     else if 4 \<le> octets then None else pton4_loop rest True (Suc octets) tmp (cur * 10 + d))"
  using assms by (cases saw) (auto simp: digit_chr Let_def simp del: of_nat_add)

lemma pton4_dec_chars:
  assumes "n < 256"
  shows "pton4_loop (dec_chars n @ rest) False octets tmp 0 =
    (if 4 \<le> octets then None else pton4_loop rest True (Suc octets) tmp n)"
proof -
  consider "n < 10" | "10 \<le> n" "n < 100" | "100 \<le> n" by linarith
  then show ?thesis
  proof cases
    case 1
    then show ?thesis by (simp add: dec_chars_def pton4_digit del: of_nat_add pton4_loop.simps)
  next
    case 2
    then have "n div 10 < 10" "n div 10 \<noteq> 0" "n div 10 * 10 + n mod 10 = n" by auto
    then show ?thesis using 2
      by (simp add: dec_chars_def pton4_digit del: of_nat_add pton4_loop.simps div_mult_mod_eq)
  next
    case 3
    have q: "n div 100 < 10" "n div 100 \<noteq> 0" using assms 3 by auto
    have m: "n div 100 * 10 + n div 10 mod 10 = n div 10" by (simp add: dec_split)
    have "n div 10 \<noteq> 0" "n div 10 * 10 + n mod 10 = n" using 3 by auto
    then show ?thesis using 3 q m assms
      by (simp add: dec_chars_def pton4_digit del: of_nat_add pton4_loop.simps div_mult_mod_eq)
  qed
qed

lemma pton4_dot:
  "pton4_loop (chr_dot # rest) True octets tmp cur =
    (if octets = 4 then None else pton4_loop rest False octets (tmp @ [of_nat cur]) 0)"
  by (simp add: digit_dot)

lemma pton4_dotted: "length b = 4 \<Longrightarrow> inet_pton4 (dotted b) = Some b"
proof -
  assume len: "length b = 4"
  have lt: "unat (x :: byte) < 256" for x using unsigned_less [of x, where 'a = nat] by simp
  from len obtain a0 a1 a2 a3 where b: "b = [a0, a1, a2, a3]"
    by (auto simp: length_Suc_conv numeral_eq_Suc)
  have "pton4_loop (dec_chars (unat a3)) False 3 [a0, a1, a2] 0 = Some b"
    using pton4_dec_chars [OF lt, of a3 "[]" 3] by (simp add: b)
  then show ?thesis
    by (simp add: inet_pton4_def dotted_def b pton4_dec_chars lt pton4_dot numeral_3_eq_3
        del: pton4_loop.simps(2))
qed

text \<open>Within a number: the rest of its digits, then a dot or the end.\<close>

lemma pton4_number:
  assumes "pton4_loop s True octets tmp cur = Some b" and "cur \<le> 255"
  shows "\<exists>n ds s'. s = ds @ s' \<and> n \<le> 255 \<and> dec_chars n = dec_chars cur @ ds \<and>
    (s' = [] \<and> 4 \<le> octets \<and> b = tmp @ [of_nat n] \<or>
     (\<exists>t. s' = chr_dot # t \<and> octets \<noteq> 4 \<and> pton4_loop t False octets (tmp @ [of_nat n]) 0 = Some b))"
  using assms
proof (induction s arbitrary: cur)
  case Nil
  then show ?case by (auto split: if_splits)
next
  case (Cons c s)
  show ?case
  proof (cases "digit c")
    case None
    then have "c = chr_dot" "octets \<noteq> 4" "pton4_loop s False octets (tmp @ [of_nat cur]) 0 = Some b"
      using Cons.prems(1) by (auto split: if_splits)
    then have "c # s = [] @ chr_dot # s \<and> cur \<le> 255 \<and> dec_chars cur = dec_chars cur @ [] \<and>
        octets \<noteq> 4 \<and> pton4_loop s False octets (tmp @ [of_nat cur]) 0 = Some b"
      using Cons.prems(2) by simp
    then show ?thesis by blast
  next
    case (Some d)
    then have c: "d < 10" "c = of_nat (0x30 + d)" using digit_SomeD by blast+
    have cur: "cur \<noteq> 0" "cur * 10 + d \<le> 255"
      and run: "pton4_loop s True octets tmp (cur * 10 + d) = Some b"
      using Cons.prems(1) Some by (auto simp: Let_def split: if_splits)
    obtain n ds s' where "s = ds @ s'" "n \<le> 255" "dec_chars n = dec_chars (cur * 10 + d) @ ds"
      "s' = [] \<and> 4 \<le> octets \<and> b = tmp @ [of_nat n] \<or>
       (\<exists>t. s' = chr_dot # t \<and> octets \<noteq> 4 \<and> pton4_loop t False octets (tmp @ [of_nat n]) 0 = Some b)"
      using Cons.IH [OF run cur(2)] by blast
    then have "c # s = (c # ds) @ s' \<and> n \<le> 255 \<and> dec_chars n = dec_chars cur @ c # ds \<and>
      (s' = [] \<and> 4 \<le> octets \<and> b = tmp @ [of_nat n] \<or>
       (\<exists>t. s' = chr_dot # t \<and> octets \<noteq> 4 \<and> pton4_loop t False octets (tmp @ [of_nat n]) 0 = Some b))"
      by (simp add: dec_chars_step [OF cur c(1)] c(2))
    then show ?thesis by blast
  qed
qed

text \<open>At the start of a number.\<close>

lemma pton4_start:
  assumes "pton4_loop s False octets tmp 0 = Some b" and "octets < 4"
  shows "\<exists>n s'. s = dec_chars n @ s' \<and> n \<le> 255 \<and>
    (s' = [] \<and> 4 \<le> Suc octets \<and> b = tmp @ [of_nat n] \<or>
     (\<exists>t. s' = chr_dot # t \<and> Suc octets \<noteq> 4 \<and>
       pton4_loop t False (Suc octets) (tmp @ [of_nat n]) 0 = Some b))"
proof (cases s)
  case Nil
  then show ?thesis using assms by simp
next
  case (Cons c t)
  then obtain d where d: "digit c = Some d" and run: "pton4_loop t True (Suc octets) tmp d = Some b"
    using assms by (auto simp: Let_def split: option.splits if_splits)
  have c: "d < 10" "c = of_nat (0x30 + d)" using digit_SomeD [OF d] by auto
  have dc: "dec_chars d = [c]" using c by (simp add: dec_chars_def)
  have "d \<le> 255" using c(1) by simp
  from pton4_number [OF run this] obtain n ds s' where "t = ds @ s'" "n \<le> 255"
    "dec_chars n = dec_chars d @ ds" and rest: "s' = [] \<and> 4 \<le> Suc octets \<and> b = tmp @ [of_nat n] \<or>
     (\<exists>t. s' = chr_dot # t \<and> Suc octets \<noteq> 4 \<and>
       pton4_loop t False (Suc octets) (tmp @ [of_nat n]) 0 = Some b)"
    by blast
  then have "s = dec_chars n @ s' \<and> n \<le> 255" using Cons dc by simp
  then show ?thesis using rest by blast
qed

lemma pton4_sound:
  assumes "inet_pton4 s = Some b"
  shows "length b = 4 \<and> s = dotted b"
proof -
  have u: "n \<le> 255 \<Longrightarrow> unat (of_nat n :: byte) = n" for n by (simp add: unat_of_nat)
  obtain n0 t0 where 0: "s = dec_chars n0 @ chr_dot # t0" "n0 \<le> 255"
    "pton4_loop t0 False 1 [of_nat n0] 0 = Some b"
    using pton4_start [of s 0 "[]" b] assms by (auto simp: inet_pton4_def)
  obtain n1 t1 where 1: "t0 = dec_chars n1 @ chr_dot # t1" "n1 \<le> 255"
    "pton4_loop t1 False 2 [of_nat n0, of_nat n1] 0 = Some b"
    using pton4_start [OF 0(3)] by (auto simp: numeral_2_eq_2)
  obtain n2 t2 where 2: "t1 = dec_chars n2 @ chr_dot # t2" "n2 \<le> 255"
    "pton4_loop t2 False 3 [of_nat n0, of_nat n1, of_nat n2] 0 = Some b"
    using pton4_start [OF 1(3)] by (auto simp: numeral_3_eq_3)
  obtain n3 where 3: "t2 = dec_chars n3" "n3 \<le> 255" "b = [of_nat n0, of_nat n1, of_nat n2, of_nat n3]"
    using pton4_start [OF 2(3)] by auto
  show ?thesis using 0 1 2 3 by (simp add: dotted_def u)
qed

lemma inet_pton4_iff: "inet_pton4 s = Some b \<longleftrightarrow> length b = 4 \<and> s = dotted b"
  using pton4_sound pton4_dotted by blast

section \<open>IPv4 and IPv6 strings are disjoint\<close>

lemma pton6_needs_colon:
  assumes "chr_colon \<notin> set s" and "length tmp \<le> 2"
  shows "pton6_loop s curtok seen val tmp None = None"
  using assms
  by (induction s arbitrary: seen val)
    (auto simp: pton6_finish_def group_bytes_def inet_pton4_iff split: option.splits)

lemma inet_pton6_colon: "inet_pton6 s \<noteq> None \<Longrightarrow> chr_colon \<in> set s"
  by (rule ccontr)
    (auto simp: inet_pton6_def pton6_needs_colon simp del: pton6_loop.simps split: list.splits if_splits)

lemma digit_not_colon: "d < 10 \<Longrightarrow> of_nat (0x30 + d) \<noteq> chr_colon"
  using digit_chr [of d] by (auto simp: digit_def simp del: of_nat_add)

lemma dec_chars_no_colon: "n \<le> 255 \<Longrightarrow> chr_colon \<notin> set (dec_chars n)"
  using digit_not_colon [of "n div 100"] digit_not_colon [of "n div 10"] digit_not_colon [of "n mod 10"]
    digit_not_colon [of "n div 10 mod 10"] digit_not_colon [of n]
  by (auto simp: dec_chars_def simp del: of_nat_add)

lemma inet_pton4_no_colon: "inet_pton4 s \<noteq> None \<Longrightarrow> chr_colon \<notin> set s"
proof -
  assume "inet_pton4 s \<noteq> None"
  then obtain b where "s = dotted b" by (auto simp: inet_pton4_iff)
  moreover have "unat (x :: byte) \<le> 255" for x using unsigned_less [of x, where 'a = nat] by simp
  ultimately show ?thesis by (auto simp: dotted_def dest: dec_chars_no_colon [THEN notE, rotated])
qed

lemma uv_ip_addr_disjoint:
  assumes "fst (uv_ip4_addr ip port) = 0"
  shows "fst (uv_ip6_addr ip port') \<noteq> 0"
proof -
  have "inet_pton4 (c_str ip) \<noteq> None"
    using assms by (auto simp: uv_ip4_addr_def uv_inet_pton_def pton_result_def split: option.splits)
  then have "chr_colon \<notin> set (c_str ip)" by (rule inet_pton4_no_colon)
  then have "inet_pton6 s = None" if "set s \<subseteq> set (c_str ip)" for s using inet_pton6_colon that by blast
  moreover have "set (take 39 (takeWhile P (c_str ip))) \<subseteq> set (c_str ip)"
    "set (takeWhile Q (take 39 (takeWhile P (c_str ip)))) \<subseteq> set (c_str ip)" for P Q
    by (auto dest!: in_set_takeD set_takeWhileD)
  ultimately show ?thesis
    by (auto simp: uv_ip6_addr_def uv_inet_pton_def pton_result_def Let_def)
qed

section \<open>Properties\<close>

lemma length_dec_chars: "length (dec_chars n) \<le> 3"
  by (simp add: dec_chars_def)

lemma inet_ntop4_dotted: "inet_ntop4 b 16 = (0, dotted b)"
  using length_dec_chars [of "unat (b ! 0)"] length_dec_chars [of "unat (b ! 1)"]
    length_dec_chars [of "unat (b ! 2)"] length_dec_chars [of "unat (b ! 3)"]
  by (simp add: inet_ntop4_def dotted_def Let_def)

text \<open>
  C37: Parsing and printing IPv4 addresses are inverse to each other: the parser accepts
  a string as the address \<open>b\<close> exactly if \<open>b\<close> has four bytes and the printer, given
  the buffer of 16 characters that every address fits into, prints \<open>b\<close> as that
  string.  So leading zeros, missing or extra numbers, numbers above 255 and
  trailing characters are all refused.
\<close>

theorem ipv4_text_roundtrip:
  "inet_pton4 s = Some b \<longleftrightarrow> length b = 4 \<and> inet_ntop4 b 16 = (0, s)"
  by (auto simp: inet_pton4_iff inet_ntop4_dotted)

end
