(* ===== verification/Uv_Tcp.thy ===== *)
theory Uv_Tcp
  imports Uv_Inet
begin

text \<open>
  TCP handles: \<^verbatim>\<open>libuv/src/win/tcp.c\<close>, function by function.  The functions that
  call back into the network library take the table of its callbacks as an
  argument.  The thresholds for preallocated read buffers are the constant 0
  in the source, so every read request is a zero-byte read and the branches
  for preallocated buffers are never taken; they are left out.
\<close>

section \<open>The callbacks\<close>

record 'w callbacks =
  cb_alloc :: "alloc_cb \<Rightarrow> ptr \<Rightarrow> ('w, uv_buf) io"
  cb_read :: "read_cb \<Rightarrow> ptr \<Rightarrow> int \<Rightarrow> uv_buf \<Rightarrow> ('w, unit) io"
  cb_connection :: "ptr \<Rightarrow> int \<Rightarrow> ('w, unit) io"
  cb_write :: "ptr \<Rightarrow> int \<Rightarrow> ('w, unit) io"
  cb_connect :: "int \<Rightarrow> ('w, unit) io"
  cb_close :: "close_cb \<Rightarrow> ptr \<Rightarrow> ('w, unit) io"
  cb_recv :: "ptr \<Rightarrow> int \<Rightarrow> uv_buf \<Rightarrow> byte list \<Rightarrow> ('w, unit) io"
  cb_send :: "ptr \<Rightarrow> int \<Rightarrow> ('w, unit) io"

definition call_alloc :: "'a uv_scheme callbacks \<Rightarrow> ptr \<Rightarrow> ('a uv_scheme, uv_buf) io" where
  "call_alloc C p = io_bind (get_handle p) (\<lambda>h.
     case alloc_cb h of None \<Rightarrow> io_fail NullDeref | Some cb \<Rightarrow> cb_alloc C cb p)"

definition call_read :: "'a uv_scheme callbacks \<Rightarrow> ptr \<Rightarrow> int \<Rightarrow> uv_buf \<Rightarrow> ('a uv_scheme, unit) io" where
  "call_read C p nread buf = io_bind (get_handle p) (\<lambda>h.
     case read_cb h of None \<Rightarrow> io_fail NullDeref | Some cb \<Rightarrow> cb_read C cb p nread buf)"

section \<open>Sockets\<close>

definition uv__tcp_nodelay :: "('a uv_scheme, int) io" where
  "uv__tcp_nodelay = sys_code"

definition uv__tcp_keepalive :: "bool \<Rightarrow> ('a uv_scheme, int) io" where
  "uv__tcp_keepalive enable = io_try [sys_code] (if enable then sys_code else io_return 0)"

text \<open>Whether completions of successful calls bypass the completion port: an
  answer of the system, and a call that turns it on.\<close>

definition tcp_set_bypass :: "ptr \<Rightarrow> ('a uv_scheme, int) io" where
  "tcp_set_bypass p = io_bind sys_call (\<lambda>avail.
     if \<not> a_flag avail then io_return 0
     else io_bind sys_call (\<lambda>a.
       if a_err a = 0 then io_then [upd_handle p (f_sync_bypass_update (\<lambda>_. True))] (io_return 0)
       else if a_err a \<noteq> ERROR_INVALID_FUNCTION then io_return (int (a_err a))
       else io_return 0))"

definition uv_tcp_set_socket :: "ptr \<Rightarrow> nat \<Rightarrow> nat \<Rightarrow> ('a uv_scheme, int) io" where
  "uv_tcp_set_socket p socket family = io_bind (get_handle p) (\<lambda>h.
     if h_socket h \<noteq> None then io_return UV_EBUSY
     else io_try
       [sys_code, sys_code, sys_code, tcp_set_bypass p,
        if f_nodelay h then uv__tcp_nodelay else io_return 0,
        if f_keepalive h then uv__tcp_keepalive True else io_return 0]
       (io_then
         [upd_handle p (h_socket_update (\<lambda>_. Some socket)),
          if family = AF_INET6 then upd_handle p (f_ipv6_update (\<lambda>_. True))
          else io_assert (\<not> f_ipv6 h)]
         (io_return 0)))"

definition uv_stream_init :: "ptr \<Rightarrow> uv_handle_type \<Rightarrow> ('a uv_scheme, unit) io" where
  "uv_stream_init p t = io_all
     [uv__handle_init p t, upd_handle p (\<lambda>h. h\<lparr>write_queue_size := 0, activecnt := 0\<rparr>)]"

definition uv_connection_init :: "ptr \<Rightarrow> ('a uv_scheme, unit) io" where
  "uv_connection_init p = io_all
     [upd_handle p (\<lambda>h. h\<lparr>f_connection := True, write_reqs_pending := 0\<rparr>),
      upd_req (ReadReq p) (\<lambda>r. r\<lparr>r_status := 0, r_handle := p\<rparr>)]"

definition uv_tcp_init_ex :: "ptr \<Rightarrow> nat \<Rightarrow> ('a uv_scheme, int) io" where
  "uv_tcp_init_ex p flags =
     (let domain = flags mod 256 in
      if domain \<noteq> AF_INET \<and> domain \<noteq> AF_INET6 \<and> domain \<noteq> 0 then io_return UV_EINVAL
      else if flags div 256 \<noteq> 0 then io_return UV_EINVAL
      else io_then
        [uv_stream_init p UV_TCP,
         upd_handle p (\<lambda>h. h\<lparr>accept_sockets := [], pending_accepts := [], h_socket := None,
           reqs_pending := 0, func_acceptex := False, func_connectex := False, delayed_error := 0\<rparr>)]
        (if domain = 0 then io_return 0
         else io_bind sys_call (\<lambda>a.
           if a_err a \<noteq> 0
           then io_then [io_modify (\<lambda>w. w\<lparr>handle_queue := remove1 p (handle_queue w)\<rparr>)]
                  (io_return (uv_translate_sys_error (int (a_err a))))
           else io_bind (uv_tcp_set_socket p (a_value a) domain) (\<lambda>err.
             if err \<noteq> 0
             then io_then [sys_ignore, io_modify (\<lambda>w. w\<lparr>handle_queue := remove1 p (handle_queue w)\<rparr>)]
                    (io_return (uv_translate_sys_error err))
             else io_return 0))))"

definition uv_tcp_init :: "ptr \<Rightarrow> ('a uv_scheme, int) io" where
  "uv_tcp_init p = uv_tcp_init_ex p 0"

text \<open>\<^verbatim>\<open>uv_addr_ip4_any_\<close> and \<^verbatim>\<open>uv_addr_ip6_any_\<close>.\<close>

definition addr_ip4_any :: "byte list" where
  "addr_ip4_any = le_bytes 2 AF_INET @ replicate 14 0"

definition addr_ip6_any :: "byte list" where
  "addr_ip6_any = le_bytes 2 AF_INET6 @ replicate 26 0"

definition uv_tcp_try_bind :: "ptr \<Rightarrow> byte list \<Rightarrow> bool \<Rightarrow> ('a uv_scheme, int) io" where
  "uv_tcp_try_bind p addr ipv6only = io_bind (get_handle p) (\<lambda>h. io_try
     [if h_socket h = None then
        (if ipv6only \<and> sa_family addr \<noteq> AF_INET6 then io_return (int ERROR_INVALID_PARAMETER)
         else io_bind sys_call (\<lambda>a.
           if a_err a \<noteq> 0 then io_return (int (a_err a))
           else io_bind (uv_tcp_set_socket p (a_value a) (sa_family addr)) (\<lambda>err.
             if err \<noteq> 0 then io_then [sys_ignore] (io_return err) else io_return 0)))
      else io_return 0]
     (io_then [io_when (sa_family addr = AF_INET6) sys_ignore]
       (io_bind sys_call (\<lambda>a.
          if a_err a \<noteq> 0 \<and> a_err a \<noteq> WSAEADDRINUSE then io_return (int (a_err a))
          else io_then
            [io_when (a_err a \<noteq> 0) (upd_handle p (delayed_error_update (\<lambda>_. int (a_err a)))),
             upd_handle p (f_bound_update (\<lambda>_. True))]
            (io_return 0)))))"

definition uv__tcp_bind :: "ptr \<Rightarrow> byte list \<Rightarrow> ('a uv_scheme, int) io" where
  "uv__tcp_bind p addr =
     io_bind (uv_tcp_try_bind p addr False) (\<lambda>err. io_return (uv_translate_sys_error err))"

definition uv_tcp_bind :: "ptr \<Rightarrow> byte list \<Rightarrow> ('a uv_scheme, int) io" where
  "uv_tcp_bind p addr = io_bind (get_handle p) (\<lambda>h.
     if h_type h \<noteq> UV_TCP then io_return UV_EINVAL
     else if sa_family addr = AF_INET \<or> sa_family addr = AF_INET6 then uv__tcp_bind p addr
     else io_return UV_EINVAL)"

section \<open>Accepting\<close>

definition uv_simultaneous_server_accepts :: nat where
  "uv_simultaneous_server_accepts = 32"

definition set_accept_socket :: "ptr \<Rightarrow> nat \<Rightarrow> nat option \<Rightarrow> ('a uv_scheme, unit) io" where
  "set_accept_socket p i s = upd_handle p (\<lambda>h. h\<lparr>accept_sockets := (accept_sockets h)[i := s]\<rparr>)"

definition uv_tcp_queue_accept :: "ptr \<Rightarrow> nat \<Rightarrow> ('a uv_scheme, unit) io" where
  "uv_tcp_queue_accept p i = io_bind (get_handle p) (\<lambda>h. io_then
     [io_assert (f_listening h), io_assert (accept_sockets h ! i = None)]
     (io_bind sys_call (\<lambda>a.
        if a_err a \<noteq> 0 then io_all
          [upd_req (AcceptReq p i) (r_status_update (\<lambda>_. a_err a)),
           uv_insert_pending_req (AcceptReq p i), count_req p]
        else io_bind sys_call (\<lambda>b.
          if a_err b \<noteq> 0 then io_all
            [upd_req (AcceptReq p i) (r_status_update (\<lambda>_. a_err b)),
             uv_insert_pending_req (AcceptReq p i), count_req p, sys_ignore]
          else io_then [upd_req (AcceptReq p i) (r_status_update (\<lambda>_. 0))]
            (io_bind sys_call (\<lambda>c.
               if a_err c = 0 \<and> f_sync_bypass h then io_all
                 [set_accept_socket p i (Some (a_value a)), count_req p,
                  uv_insert_pending_req (AcceptReq p i)]
               else if a_err c = 0 \<or> a_err c = ERROR_IO_PENDING then io_all
                 [set_accept_socket p i (Some (a_value a)), count_req p,
                  kernel_queue (AcceptReq p i)]
               else io_all
                 [upd_req (AcceptReq p i) (r_status_update (\<lambda>_. a_err c)),
                  uv_insert_pending_req (AcceptReq p i), count_req p, sys_ignore]))))))"

definition uv_tcp_listen :: "ptr \<Rightarrow> int \<Rightarrow> ('a uv_scheme, int) io" where
  "uv_tcp_listen p backlog = io_bind (get_handle p) (\<lambda>h. io_then
     [io_assert (0 < backlog),
      io_when (f_listening h) (upd_handle p (connection_cb_update (\<lambda>_. True)))]
     (if f_reading h then io_return (int WSAEISCONN)
      else if delayed_error h \<noteq> 0 then io_return (delayed_error h)
      else io_try
        [if \<not> f_bound h
         then io_try [uv_tcp_try_bind p addr_ip4_any False]
                (io_bind (get_handle p) (\<lambda>h. io_return (delayed_error h)))
         else io_return 0,
         if \<not> func_acceptex h
         then io_bind sys_call (\<lambda>a.
                if a_err a \<noteq> 0 then io_return (int WSAEAFNOSUPPORT)
                else io_then [upd_handle p (func_acceptex_update (\<lambda>_. True))] (io_return 0))
         else io_return 0,
         sys_code]
        (io_then
          [upd_handle p (\<lambda>h. h\<lparr>f_listening := True, connection_cb := True\<rparr>),
           INCREASE_ACTIVE_COUNT p,
           io_when (accept_sockets h = []) (io_all
             (upd_handle p (accept_sockets_update (\<lambda>_. replicate uv_simultaneous_server_accepts None)) #
              map (uv_tcp_queue_accept p) [0..<uv_simultaneous_server_accepts]))]
          (io_return 0))))"

definition uv_tcp_accept :: "ptr \<Rightarrow> ptr \<Rightarrow> ('a uv_scheme, int) io" where
  "uv_tcp_accept server client = io_bind (get_handle server) (\<lambda>h.
     case pending_accepts h of
       [] \<Rightarrow> io_return (int WSAEWOULDBLOCK)
     | i # rest \<Rightarrow>
         (case accept_sockets h ! i of
            None \<Rightarrow> io_return (int WSAENOTCONN)
          | Some s \<Rightarrow>
              io_bind (uv_tcp_set_socket client s (if f_ipv6 h then AF_INET6 else AF_INET)) (\<lambda>err.
                io_then
                  [if err \<noteq> 0 then sys_ignore
                   else io_all
                     [uv_connection_init client,
                      upd_handle client (\<lambda>c. c\<lparr>f_bound := True, f_readable := True, f_writable := True\<rparr>)],
                   upd_handle server (pending_accepts_update (\<lambda>_. rest)),
                   set_accept_socket server i None,
                   io_when (\<not> f_closing h) (uv_tcp_queue_accept server i),
                   io_modify (\<lambda>w. w\<lparr>active_tcp_streams := active_tcp_streams w + 1\<rparr>)]
                  (io_return err))))"

definition uv_process_tcp_accept_req ::
    "'a uv_scheme callbacks \<Rightarrow> ptr \<Rightarrow> nat \<Rightarrow> ('a uv_scheme, unit) io" where
  "uv_process_tcp_accept_req C p i = io_bind (get_handle p) (\<lambda>h.
     io_bind (io_get (\<lambda>w. r_status (reqs w (AcceptReq p i)))) (\<lambda>status. io_all
       [case accept_sockets h ! i of
          None \<Rightarrow>
            io_when (f_listening h) (io_all
              [upd_handle p (f_listening_update (\<lambda>_. False)), DECREASE_ACTIVE_COUNT p,
               io_when (connection_cb h) (cb_connection C p (uv_translate_sys_error (int status)))])
        | Some s \<Rightarrow>
            io_bind (if status = 0 then io_bind sys_call (\<lambda>a. io_return (a_err a = 0)) else io_return False)
              (\<lambda>success.
                if success then io_all
                  [upd_handle p (\<lambda>h. h\<lparr>pending_accepts := i # pending_accepts h\<rparr>),
                   io_when (connection_cb h) (cb_connection C p 0)]
                else io_all
                  [sys_ignore, set_accept_socket p i None,
                   io_when (f_listening h) (uv_tcp_queue_accept p i)]),
        DECREASE_PENDING_REQ_COUNT p]))"

section \<open>Reading\<close>

definition uv_tcp_queue_read :: "ptr \<Rightarrow> ('a uv_scheme, unit) io" where
  "uv_tcp_queue_read p = io_bind (get_handle p) (\<lambda>h. io_then
     [io_assert (f_reading h), io_assert (\<not> f_read_pending h),
      upd_handle p (f_zero_read_update (\<lambda>_. True)),
      upd_req (ReadReq p) (r_status_update (\<lambda>_. 0))]
     (io_bind sys_call (\<lambda>a.
        if a_err a = 0 \<and> f_sync_bypass h then io_all
          [upd_handle p (f_read_pending_update (\<lambda>_. True)),
           upd_req (ReadReq p) (r_bytes_update (\<lambda>_. a_value a)),
           count_req p, uv_insert_pending_req (ReadReq p)]
        else if a_err a = 0 \<or> a_err a = ERROR_IO_PENDING then io_all
          [upd_handle p (f_read_pending_update (\<lambda>_. True)),
           count_req p, kernel_queue (ReadReq p)]
        else io_all
          [upd_req (ReadReq p) (r_status_update (\<lambda>_. a_err a)),
           uv_insert_pending_req (ReadReq p), count_req p])))"

definition uv_tcp_read_start :: "ptr \<Rightarrow> alloc_cb \<Rightarrow> read_cb \<Rightarrow> ('a uv_scheme, int) io" where
  "uv_tcp_read_start p acb rcb = io_bind (get_handle p) (\<lambda>h. io_then
     [upd_handle p (\<lambda>h. h\<lparr>f_reading := True, read_cb := Some rcb, alloc_cb := Some acb\<rparr>),
      INCREASE_ACTIVE_COUNT p,
      io_when (\<not> f_read_pending h) (uv_tcp_queue_read p)]
     (io_return 0))"

text \<open>\<^verbatim>\<open>WSAECONNABORTED\<close> is reported as \<^verbatim>\<open>UV_ECONNRESET\<close>.\<close>

definition read_error :: "nat \<Rightarrow> int" where
  "read_error err =
     uv_translate_sys_error (int (if err = WSAECONNABORTED then WSAECONNRESET else err))"

text \<open>The loop of nonblocking reads; the first argument bounds its rounds.\<close>

fun tcp_read_loop :: "nat \<Rightarrow> 'a uv_scheme callbacks \<Rightarrow> ptr \<Rightarrow> ('a uv_scheme, unit) io" where
  "tcp_read_loop 0 C p = io_fail OutOfFuel"
| "tcp_read_loop (Suc n) C p = io_bind (get_handle p) (\<lambda>h.
     io_when (f_reading h) (io_bind (call_alloc C p) (\<lambda>buf.
       if buf_base buf = 0 \<or> buf_len buf = 0 then call_read C p UV_ENOBUFS buf
       else io_bind sys_call (\<lambda>a.
         if a_err a = 0 then
           (let bytes = take (buf_len buf) (a_data a) in
            if bytes \<noteq> [] then io_all
              [mem_write (buf_base buf) bytes,
               call_read C p (int (length bytes)) buf,
               io_when (buf_len buf \<le> length bytes) (tcp_read_loop n C p)]
            else io_all
              [upd_handle p (\<lambda>h. h\<lparr>f_reading := False, f_readable := False\<rparr>),
               DECREASE_ACTIVE_COUNT p,
               call_read C p UV_EOF buf])
         else if a_err a = WSAEWOULDBLOCK then call_read C p 0 buf
         else io_all
           [upd_handle p (f_reading_update (\<lambda>_. False)),
            DECREASE_ACTIVE_COUNT p,
            call_read C p (read_error (a_err a)) buf]))))"

definition uv_process_tcp_read_req ::
    "nat \<Rightarrow> 'a uv_scheme callbacks \<Rightarrow> ptr \<Rightarrow> ('a uv_scheme, unit) io" where
  "uv_process_tcp_read_req n C p = io_bind (get_handle p) (\<lambda>h.
     io_bind (io_get (\<lambda>w. r_status (reqs w (ReadReq p)))) (\<lambda>status. io_all
       [upd_handle p (f_read_pending_update (\<lambda>_. False)),
        if status \<noteq> 0 then
          io_when (f_reading h) (io_all
            [upd_handle p (f_reading_update (\<lambda>_. False)),
             DECREASE_ACTIVE_COUNT p,
             call_read C p (read_error status) (uv_buf_init 0 0)])
        else io_all
          [tcp_read_loop n C p,
           io_bind (get_handle p) (\<lambda>h.
             io_when (f_reading h \<and> \<not> f_read_pending h) (uv_tcp_queue_read p))],
        DECREASE_PENDING_REQ_COUNT p]))"

section \<open>Connecting\<close>

definition uv__convert_to_localhost_if_unspecified :: "byte list \<Rightarrow> int \<times> byte list" where
  "uv__convert_to_localhost_if_unspecified addr =
     (if sa_family addr = AF_INET then
        (0, if sin_addr addr = 0 then take 4 addr @ [127, 0, 0, 1] @ drop 8 addr else addr)
      else if sa_family addr = AF_INET6 then
        (0, if subrange addr 8 16 = replicate 16 0
            then take 8 addr @ replicate 15 0 @ [1] @ drop 24 addr else addr)
      else (UV_EINVAL, []))"

definition uv_tcp_try_connect :: "ptr \<Rightarrow> byte list \<Rightarrow> ('a uv_scheme, int) io" where
  "uv_tcp_try_connect p addr = io_bind (get_handle p) (\<lambda>h. io_try
     [io_return (fst (uv__convert_to_localhost_if_unspecified addr)),
      io_return (delayed_error h),
      if \<not> f_bound h
      then io_try [uv_tcp_try_bind p (if sa_family addr = AF_INET then addr_ip4_any else addr_ip6_any) False]
             (io_bind (get_handle p) (\<lambda>h. io_return (delayed_error h)))
      else io_return 0,
      if \<not> func_connectex h
      then io_bind sys_call (\<lambda>a.
             if a_err a \<noteq> 0 then io_return (int WSAEAFNOSUPPORT)
             else io_then [upd_handle p (func_connectex_update (\<lambda>_. True))] (io_return 0))
      else io_return 0]
     (io_then [upd_req ConnectReq (\<lambda>r. r\<lparr>r_status := 0, r_handle := p\<rparr>)]
       (io_bind (get_handle p) (\<lambda>h. io_bind sys_call (\<lambda>a.
          if a_err a = 0 \<and> f_sync_bypass h
          then io_then [count_req p, REGISTER_HANDLE_REQ p ConnectReq, uv_insert_pending_req ConnectReq]
                 (io_return 0)
          else if a_err a = 0 \<or> a_err a = ERROR_IO_PENDING
          then io_then [count_req p, REGISTER_HANDLE_REQ p ConnectReq, kernel_queue ConnectReq]
                 (io_return 0)
          else io_return (int (a_err a)))))))"

definition uv__tcp_connect :: "ptr \<Rightarrow> byte list \<Rightarrow> ('a uv_scheme, int) io" where
  "uv__tcp_connect p addr =
     io_bind (uv_tcp_try_connect p addr) (\<lambda>err. io_return (uv_translate_sys_error err))"

definition uv_tcp_connect :: "ptr \<Rightarrow> byte list \<Rightarrow> ('a uv_scheme, int) io" where
  "uv_tcp_connect p addr = io_bind (get_handle p) (\<lambda>h.
     if h_type h \<noteq> UV_TCP then io_return UV_EINVAL
     else if sa_family addr = AF_INET \<or> sa_family addr = AF_INET6 then uv__tcp_connect p addr
     else io_return UV_EINVAL)"

definition uv_process_tcp_connect_req :: "'a uv_scheme callbacks \<Rightarrow> ('a uv_scheme, unit) io" where
  "uv_process_tcp_connect_req C = io_bind (io_get (\<lambda>w. reqs w ConnectReq)) (\<lambda>r.
     let p = r_handle r in io_then
       [UNREGISTER_HANDLE_REQ p ConnectReq]
       (io_bind
         (if r_status r = 0
          then io_bind sys_call (\<lambda>a.
            if a_err a = 0
            then io_then
              [uv_connection_init p,
               upd_handle p (\<lambda>h. h\<lparr>f_readable := True, f_writable := True\<rparr>),
               io_modify (\<lambda>w. w\<lparr>active_tcp_streams := active_tcp_streams w + 1\<rparr>)] (io_return 0)
            else io_return (int (a_err a)))
          else io_return (int (r_status r)))
         (\<lambda>err. io_all [cb_connect C (uv_translate_sys_error err), DECREASE_PENDING_REQ_COUNT p])))"

text \<open>\<^verbatim>\<open>getsockname\<close> fills in the structure, whose size the caller passes.\<close>

definition uv_tcp_getsockname :: "ptr \<Rightarrow> nat \<Rightarrow> ('a uv_scheme, int \<times> byte list) io" where
  "uv_tcp_getsockname p namelen = io_bind (get_handle p) (\<lambda>h.
     if h_socket h = None then io_return (UV_EINVAL, [])
     else if delayed_error h \<noteq> 0 then io_return (uv_translate_sys_error (delayed_error h), [])
     else io_bind sys_call (\<lambda>a.
       if a_err a \<noteq> 0 then io_return (uv_translate_sys_error (int (a_err a)), [])
       else io_return (0, take namelen (a_addr a @ replicate namelen 0))))"

section \<open>Writing\<close>

text \<open>The write request of the session \<open>s\<close>, for one buffer.\<close>

definition uv_tcp_write :: "ptr \<Rightarrow> ptr \<Rightarrow> uv_buf \<Rightarrow> ('a uv_scheme, int) io" where
  "uv_tcp_write s p buf = io_bind (get_handle p) (\<lambda>h. io_then
     [upd_req (WriteReq s) (\<lambda>r. r\<lparr>r_status := 0, r_handle := p\<rparr>)]
     (io_bind (mem_read (buf_base buf) 0 (buf_len buf)) (\<lambda>bytes. io_bind sys_call (\<lambda>a. io_then
        [io_modify (\<lambda>w. w\<lparr>sent := sent w @ [(h_socket h, bytes)]\<rparr>),
         if a_err a = 0 \<and> f_sync_bypass h then io_all
           [upd_req (WriteReq s) (r_queued_update (\<lambda>_. 0)), count_req p,
            upd_handle p (\<lambda>h. h\<lparr>write_reqs_pending := Suc (write_reqs_pending h)\<rparr>), REGISTER_HANDLE_REQ p (WriteReq s),
            uv_insert_pending_req (WriteReq s)]
         else if a_err a = 0 \<or> a_err a = ERROR_IO_PENDING then io_all
           [upd_req (WriteReq s) (r_queued_update (\<lambda>_. buf_len buf)), count_req p,
            upd_handle p (\<lambda>h. h\<lparr>write_reqs_pending := Suc (write_reqs_pending h)\<rparr>), REGISTER_HANDLE_REQ p (WriteReq s),
            upd_handle p (\<lambda>h. h\<lparr>write_queue_size := write_queue_size h + buf_len buf\<rparr>), kernel_queue (WriteReq s)]
         else io_all
           [upd_req (WriteReq s) (r_queued_update (\<lambda>_. 0)), count_req p,
            upd_handle p (\<lambda>h. h\<lparr>write_reqs_pending := Suc (write_reqs_pending h)\<rparr>), REGISTER_HANDLE_REQ p (WriteReq s),
            upd_req (WriteReq s) (r_status_update (\<lambda>_. a_err a)), uv_insert_pending_req (WriteReq s)]]
        (io_return 0)))))"

definition uv_process_tcp_write_req ::
    "'a uv_scheme callbacks \<Rightarrow> ptr \<Rightarrow> ('a uv_scheme, unit) io" where
  "uv_process_tcp_write_req C s = io_bind (io_get (\<lambda>w. reqs w (WriteReq s))) (\<lambda>r.
     let p = r_handle r; err = uv_translate_sys_error (int (r_status r)) in
     io_bind (get_handle p) (\<lambda>h. io_all
       [io_assert (r_queued r \<le> write_queue_size h),
        upd_handle p (\<lambda>h. h\<lparr>write_queue_size := write_queue_size h - r_queued r\<rparr>),
        UNREGISTER_HANDLE_REQ p (WriteReq s),
        cb_write C s (if err = UV_ECONNABORTED then UV_ECANCELED else err),
        upd_handle p (\<lambda>h. h\<lparr>write_reqs_pending := write_reqs_pending h - 1\<rparr>),
        DECREASE_PENDING_REQ_COUNT p]))"

section \<open>Options and closing\<close>

definition uv_tcp_nodelay :: "ptr \<Rightarrow> bool \<Rightarrow> ('a uv_scheme, int) io" where
  "uv_tcp_nodelay p enable = io_bind (get_handle p) (\<lambda>h. io_try
     [if h_socket h \<noteq> None then uv__tcp_nodelay else io_return 0]
     (io_then [upd_handle p (f_nodelay_update (\<lambda>_. enable))] (io_return 0)))"

definition uv_tcp_keepalive :: "ptr \<Rightarrow> bool \<Rightarrow> ('a uv_scheme, int) io" where
  "uv_tcp_keepalive p enable = io_bind (get_handle p) (\<lambda>h. io_try
     [if h_socket h \<noteq> None then uv__tcp_keepalive enable else io_return 0]
     (io_then [upd_handle p (f_keepalive_update (\<lambda>_. enable))] (io_return 0)))"

definition uv_tcp_close :: "ptr \<Rightarrow> ('a uv_scheme, unit) io" where
  "uv_tcp_close p = io_bind (get_handle p) (\<lambda>h. io_all
     [io_when (f_read_pending h) sys_ignore,
      io_when (f_reading h) (io_all
        [upd_handle p (f_reading_update (\<lambda>_. False)), DECREASE_ACTIVE_COUNT p]),
      io_when (f_listening h) (io_all
        [upd_handle p (f_listening_update (\<lambda>_. False)), DECREASE_ACTIVE_COUNT p]),
      sys_ignore,
      upd_handle p (\<lambda>h. h\<lparr>h_socket := None, f_socket_closed := True\<rparr>),
      upd_handle p (\<lambda>h. h\<lparr>f_readable := False, f_writable := False\<rparr>),
      uv__handle_closing p,
      io_when (reqs_pending h = 0) (uv_want_endgame p)])"

definition uv__handle_close :: "'a uv_scheme callbacks \<Rightarrow> ptr \<Rightarrow> ('a uv_scheme, unit) io" where
  "uv__handle_close C p = io_bind (get_handle p) (\<lambda>h. io_all
     [io_modify (\<lambda>w. w\<lparr>handle_queue := remove1 p (handle_queue w)\<rparr>),
      uv__active_handle_rm,
      upd_handle p (f_closed_update (\<lambda>_. True)),
      case close_cb h of None \<Rightarrow> io_return () | Some cb \<Rightarrow> cb_close C cb p])"

definition uv_tcp_endgame :: "'a uv_scheme callbacks \<Rightarrow> ptr \<Rightarrow> ('a uv_scheme, unit) io" where
  "uv_tcp_endgame C p = io_bind (get_handle p) (\<lambda>h.
     io_when (f_closing h \<and> reqs_pending h = 0) (io_all
       [io_assert (\<not> f_closed h),
        io_when (\<not> f_socket_closed h) (io_all
          [sys_ignore, upd_handle p (\<lambda>h. h\<lparr>h_socket := None, f_socket_closed := True\<rparr>)]),
        io_when (\<not> f_connection h) (upd_handle p (accept_sockets_update (\<lambda>_. []))),
        uv__handle_close C p,
        io_modify (\<lambda>w. w\<lparr>active_tcp_streams := active_tcp_streams w - 1\<rparr>)]))"

end
