(* ===== verification/Uv_Loop.thy ===== *)
theory Uv_Loop
  imports Uv_Tcp
begin

text \<open>
  UDP handles (\<^verbatim>\<open>libuv/src/win/udp.c\<close>), the functions common to all streams and
  handles (\<^verbatim>\<open>stream.c\<close>, \<^verbatim>\<open>handle.c\<close>, \<^verbatim>\<open>uv-common.c\<close>), and the event loop
  (\<^verbatim>\<open>core.c\<close>, \<^verbatim>\<open>req-inl.h\<close>, \<^verbatim>\<open>handle-inl.h\<close>).
\<close>

section \<open>UDP handles\<close>

definition udp_set_bypass :: "ptr \<Rightarrow> ('a uv_scheme, int) io" where
  "udp_set_bypass p = io_bind sys_call (\<lambda>avail.
     if \<not> a_flag avail then io_return 0
     else io_bind sys_call (\<lambda>info.
       if a_err info \<noteq> 0 then io_return (int (a_err info))
       else if a_value info \<noteq> 1 then io_return 0
       else io_bind sys_call (\<lambda>a.
         if a_err a = 0 then io_then [upd_handle p (f_sync_bypass_update (\<lambda>_. True))] (io_return 0)
         else if a_err a \<noteq> ERROR_INVALID_FUNCTION then io_return (int (a_err a))
         else io_return 0)))"

definition uv_udp_set_socket :: "ptr \<Rightarrow> nat \<Rightarrow> nat \<Rightarrow> ('a uv_scheme, int) io" where
  "uv_udp_set_socket p socket family = io_bind (get_handle p) (\<lambda>h.
     if h_socket h \<noteq> None then io_return UV_EBUSY
     else io_try [sys_code, sys_code, sys_code, udp_set_bypass p]
       (io_then
         [upd_handle p (h_socket_update (\<lambda>_. Some socket)),
          if family = AF_INET6 then upd_handle p (f_ipv6_update (\<lambda>_. True))
          else io_assert (\<not> f_ipv6 h)]
         (io_return 0)))"

definition uv_udp_init_ex :: "ptr \<Rightarrow> nat \<Rightarrow> ('a uv_scheme, int) io" where
  "uv_udp_init_ex p flags =
     (let domain = flags mod 256 in
      if domain \<noteq> AF_INET \<and> domain \<noteq> AF_INET6 \<and> domain \<noteq> 0 then io_return UV_EINVAL
      else if flags div 256 \<noteq> 0 then io_return UV_EINVAL
      else io_then
        [uv__handle_init p UV_UDP,
         upd_handle p (\<lambda>h. h\<lparr>h_socket := None, reqs_pending := 0, activecnt := 0,
           write_queue_size := 0, send_queue_count := 0\<rparr>),
         upd_req (RecvReq p) (\<lambda>r. r\<lparr>r_status := 0, r_handle := p\<rparr>)]
        (if domain = 0 then io_return 0
         else io_bind sys_call (\<lambda>a.
           if a_err a \<noteq> 0
           then io_then [io_modify (\<lambda>w. w\<lparr>handle_queue := remove1 p (handle_queue w)\<rparr>)]
                  (io_return (uv_translate_sys_error (int (a_err a))))
           else io_bind (uv_udp_set_socket p (a_value a) domain) (\<lambda>err.
             if err \<noteq> 0
             then io_then [sys_ignore, io_modify (\<lambda>w. w\<lparr>handle_queue := remove1 p (handle_queue w)\<rparr>)]
                    (io_return (uv_translate_sys_error err))
             else io_return 0))))"

definition uv_udp_init :: "ptr \<Rightarrow> ('a uv_scheme, int) io" where
  "uv_udp_init p = uv_udp_init_ex p 0"

definition uv_udp_maybe_bind :: "ptr \<Rightarrow> byte list \<Rightarrow> ('a uv_scheme, int) io" where
  "uv_udp_maybe_bind p addr = io_bind (get_handle p) (\<lambda>h.
     if f_bound h then io_return 0
     else io_try
       [if h_socket h = None
        then io_bind sys_call (\<lambda>a.
          if a_err a \<noteq> 0 then io_return (int (a_err a))
          else io_bind (uv_udp_set_socket p (a_value a) (sa_family addr)) (\<lambda>err.
            if err \<noteq> 0 then io_then [sys_ignore] (io_return err) else io_return 0))
        else io_return 0]
       (io_then
         [io_when (sa_family addr = AF_INET6) (upd_handle p (f_ipv6_update (\<lambda>_. True))),
          io_when (sa_family addr = AF_INET6) sys_ignore]
         (io_try [sys_code] (io_then [upd_handle p (f_bound_update (\<lambda>_. True))] (io_return 0)))))"

definition uv__udp_bind :: "ptr \<Rightarrow> byte list \<Rightarrow> ('a uv_scheme, int) io" where
  "uv__udp_bind p addr =
     io_bind (uv_udp_maybe_bind p addr) (\<lambda>err. io_return (uv_translate_sys_error err))"

definition uv_udp_bind :: "ptr \<Rightarrow> byte list \<Rightarrow> ('a uv_scheme, int) io" where
  "uv_udp_bind p addr = io_bind (get_handle p) (\<lambda>h.
     if h_type h \<noteq> UV_UDP then io_return UV_EINVAL
     else if sa_family addr = AF_INET \<or> sa_family addr = AF_INET6 then uv__udp_bind p addr
     else io_return UV_EINVAL)"

definition uv_udp_queue_recv :: "ptr \<Rightarrow> ('a uv_scheme, unit) io" where
  "uv_udp_queue_recv p = io_bind (get_handle p) (\<lambda>h. io_then
     [io_assert (f_reading h), io_assert (\<not> f_read_pending h),
      upd_handle p (f_zero_read_update (\<lambda>_. True)),
      upd_req (RecvReq p) (r_status_update (\<lambda>_. 0))]
     (io_bind sys_call (\<lambda>a.
        if a_err a = 0 \<and> f_sync_bypass h then io_all
          [upd_handle p (f_read_pending_update (\<lambda>_. True)),
           upd_req (RecvReq p) (r_bytes_update (\<lambda>_. a_value a)),
           count_req p, uv_insert_pending_req (RecvReq p)]
        else if a_err a = 0 \<or> a_err a = ERROR_IO_PENDING then io_all
          [upd_handle p (f_read_pending_update (\<lambda>_. True)),
           count_req p, kernel_queue (RecvReq p)]
        else io_all
          [upd_req (RecvReq p) (r_status_update (\<lambda>_. a_err a)),
           uv_insert_pending_req (RecvReq p), count_req p])))"

definition uv__udp_recv_start :: "ptr \<Rightarrow> alloc_cb \<Rightarrow> ('a uv_scheme, int) io" where
  "uv__udp_recv_start p acb = io_bind (get_handle p) (\<lambda>h.
     if f_reading h then io_return (int WSAEALREADY)
     else io_try [uv_udp_maybe_bind p addr_ip4_any]
       (io_then
         [upd_handle p (f_reading_update (\<lambda>_. True)),
          INCREASE_ACTIVE_COUNT p,
          io_modify (\<lambda>w. w\<lparr>active_udp_streams := active_udp_streams w + 1\<rparr>),
          upd_handle p (alloc_cb_update (\<lambda>_. Some acb)),
          io_when (\<not> f_read_pending h) (uv_udp_queue_recv p)]
         (io_return 0)))"

definition uv_udp_recv_start :: "ptr \<Rightarrow> alloc_cb \<Rightarrow> ('a uv_scheme, int) io" where
  "uv_udp_recv_start p acb = io_bind (get_handle p) (\<lambda>h.
     if h_type h \<noteq> UV_UDP then io_return UV_EINVAL else uv__udp_recv_start p acb)"

definition uv__udp_recv_stop :: "ptr \<Rightarrow> ('a uv_scheme, int) io" where
  "uv__udp_recv_stop p = io_bind (get_handle p) (\<lambda>h. io_then
     [io_when (f_reading h) (io_all
        [upd_handle p (f_reading_update (\<lambda>_. False)),
         io_modify (\<lambda>w. w\<lparr>active_udp_streams := active_udp_streams w - 1\<rparr>),
         DECREASE_ACTIVE_COUNT p])]
     (io_return 0))"

definition uv_udp_recv_stop :: "ptr \<Rightarrow> ('a uv_scheme, int) io" where
  "uv_udp_recv_stop p = io_bind (get_handle p) (\<lambda>h.
     if h_type h \<noteq> UV_UDP then io_return UV_EINVAL else uv__udp_recv_stop p)"

text \<open>The send request \<open>SendReq p\<close> of the server that owns the handle \<open>p\<close>.\<close>

definition uv__send :: "ptr \<Rightarrow> uv_buf \<Rightarrow> ('a uv_scheme, int) io" where
  "uv__send p buf = io_bind (get_handle p) (\<lambda>h. io_then
     [upd_req (SendReq p) (\<lambda>r. r\<lparr>r_status := 0, r_handle := p\<rparr>)]
     (io_bind (mem_read (buf_base buf) 0 (buf_len buf)) (\<lambda>bytes. io_bind sys_call (\<lambda>a.
        if a_err a = 0 \<and> f_sync_bypass h then io_then
          [io_modify (\<lambda>w. w\<lparr>sent := sent w @ [(h_socket h, bytes)]\<rparr>),
           upd_req (SendReq p) (r_queued_update (\<lambda>_. 0)), count_req p,
           upd_handle p (\<lambda>h. h\<lparr>send_queue_count := Suc (send_queue_count h)\<rparr>), REGISTER_HANDLE_REQ p (SendReq p),
           uv_insert_pending_req (SendReq p)] (io_return 0)
        else if a_err a = 0 \<or> a_err a = ERROR_IO_PENDING then io_then
          [io_modify (\<lambda>w. w\<lparr>sent := sent w @ [(h_socket h, bytes)]\<rparr>),
           upd_req (SendReq p) (r_queued_update (\<lambda>_. buf_len buf)), count_req p,
           upd_handle p (\<lambda>h. h\<lparr>write_queue_size := write_queue_size h + buf_len buf,
             send_queue_count := Suc (send_queue_count h)\<rparr>),
           REGISTER_HANDLE_REQ p (SendReq p), kernel_queue (SendReq p)] (io_return 0)
        else io_return (int (a_err a))))))"

definition uv__udp_send :: "ptr \<Rightarrow> uv_buf \<Rightarrow> byte list \<Rightarrow> ('a uv_scheme, int) io" where
  "uv__udp_send p buf addr = io_bind (get_handle p) (\<lambda>h. io_bind
     (if \<not> f_bound h
      then uv_udp_maybe_bind p (if sa_family addr = AF_INET then addr_ip4_any else addr_ip6_any)
      else io_return 0)
     (\<lambda>err. if err \<noteq> 0 then io_return (uv_translate_sys_error err)
        else io_bind (uv__send p buf) (\<lambda>err. io_return (uv_translate_sys_error err))))"

definition uv_udp_send :: "ptr \<Rightarrow> uv_buf \<Rightarrow> byte list \<Rightarrow> ('a uv_scheme, int) io" where
  "uv_udp_send p buf addr = io_bind (get_handle p) (\<lambda>h.
     if h_type h \<noteq> UV_UDP then io_return UV_EINVAL
     else if sa_family addr = AF_INET \<or> sa_family addr = AF_INET6 then uv__udp_send p buf addr
     else io_return UV_EINVAL)"

definition uv_process_udp_recv_req ::
    "'a uv_scheme callbacks \<Rightarrow> ptr \<Rightarrow> ('a uv_scheme, unit) io" where
  "uv_process_udp_recv_req C p = io_bind (get_handle p) (\<lambda>h.
     io_bind (io_get (\<lambda>w. r_status (reqs w (RecvReq p)))) (\<lambda>status. io_all
       [upd_handle p (f_read_pending_update (\<lambda>_. False)),
        if status \<noteq> 0 \<and> status \<noteq> WSAEMSGSIZE \<and> status \<noteq> WSAECONNRESET \<and> status \<noteq> WSAENETRESET
        then io_when (f_reading h) (io_bind (uv_udp_recv_stop p) (\<lambda>_.
          cb_recv C p (uv_translate_sys_error (int status)) (uv_buf_init 0 0) []))
        else io_when (f_reading h) (io_bind (call_alloc C p) (\<lambda>buf.
          if buf_base buf = 0 \<or> buf_len buf = 0 then cb_recv C p UV_ENOBUFS buf []
          else io_bind sys_call (\<lambda>a.
            let bytes = take (buf_len buf) (a_data a) in
            if a_err a = 0 \<or> a_err a = WSAEMSGSIZE
            then io_all [mem_write (buf_base buf) bytes, cb_recv C p (int (length bytes)) buf (a_addr a)]
            else if a_err a = WSAEWOULDBLOCK \<or> a_err a = WSAECONNRESET \<or> a_err a = WSAENETRESET
            then cb_recv C p 0 buf []
            else io_bind (uv_udp_recv_stop p) (\<lambda>_.
              cb_recv C p (uv_translate_sys_error (int (a_err a))) buf [])))),
        io_bind (get_handle p) (\<lambda>h.
          io_when (f_reading h \<and> \<not> f_read_pending h) (uv_udp_queue_recv p)),
        DECREASE_PENDING_REQ_COUNT p]))"

definition uv_process_udp_send_req ::
    "'a uv_scheme callbacks \<Rightarrow> ptr \<Rightarrow> ('a uv_scheme, unit) io" where
  "uv_process_udp_send_req C s = io_bind (io_get (\<lambda>w. reqs w (SendReq s))) (\<lambda>r.
     let p = r_handle r in
     io_bind (get_handle p) (\<lambda>h. io_all
       [io_assert (r_queued r \<le> write_queue_size h),
        io_assert (1 \<le> send_queue_count h),
        upd_handle p (\<lambda>h. h\<lparr>write_queue_size := write_queue_size h - r_queued r,
          send_queue_count := send_queue_count h - 1\<rparr>),
        UNREGISTER_HANDLE_REQ p (SendReq s),
        cb_send C s (uv_translate_sys_error (int (r_status r))),
        DECREASE_PENDING_REQ_COUNT p]))"

definition uv_udp_set_broadcast :: "ptr \<Rightarrow> ('a uv_scheme, int) io" where
  "uv_udp_set_broadcast p = io_bind (get_handle p) (\<lambda>h.
     if \<not> f_bound h then io_return (- 4083)
     else io_bind sys_code (\<lambda>e. io_return (uv_translate_sys_error e)))"

definition uv_udp_close :: "ptr \<Rightarrow> ('a uv_scheme, unit) io" where
  "uv_udp_close p = io_bind (uv_udp_recv_stop p) (\<lambda>_. io_all
     [sys_ignore,
      upd_handle p (h_socket_update (\<lambda>_. None)),
      uv__handle_closing p,
      io_bind (get_handle p) (\<lambda>h. io_when (reqs_pending h = 0) (uv_want_endgame p))])"

definition uv_udp_endgame :: "'a uv_scheme callbacks \<Rightarrow> ptr \<Rightarrow> ('a uv_scheme, unit) io" where
  "uv_udp_endgame C p = io_bind (get_handle p) (\<lambda>h.
     io_when (f_closing h \<and> reqs_pending h = 0) (io_all
       [io_assert (\<not> f_closed h), uv__handle_close C p]))"

section \<open>Streams and handles\<close>

definition uv_listen :: "ptr \<Rightarrow> int \<Rightarrow> ('a uv_scheme, int) io" where
  "uv_listen p backlog = io_bind (get_handle p) (\<lambda>h. io_bind
     (if h_type h = UV_TCP then uv_tcp_listen p backlog else io_fail AssertFail)
     (\<lambda>err. io_return (uv_translate_sys_error err)))"

definition uv_accept :: "ptr \<Rightarrow> ptr \<Rightarrow> ('a uv_scheme, int) io" where
  "uv_accept server client = io_bind (get_handle server) (\<lambda>h. io_bind
     (if h_type h = UV_TCP then uv_tcp_accept server client else io_fail AssertFail)
     (\<lambda>err. io_return (uv_translate_sys_error err)))"

definition uv_read_start :: "ptr \<Rightarrow> alloc_cb \<Rightarrow> read_cb \<Rightarrow> ('a uv_scheme, int) io" where
  "uv_read_start p acb rcb = io_bind (get_handle p) (\<lambda>h.
     if f_reading h then io_return UV_EALREADY
     else if \<not> f_readable h then io_return UV_ENOTCONN
     else io_bind
       (if h_type h = UV_TCP then uv_tcp_read_start p acb rcb else io_fail AssertFail)
       (\<lambda>err. io_return (uv_translate_sys_error err)))"

definition uv_read_stop :: "ptr \<Rightarrow> ('a uv_scheme, int) io" where
  "uv_read_stop p = io_bind (get_handle p) (\<lambda>h.
     if \<not> f_reading h then io_return 0
     else io_then
       [upd_handle p (f_reading_update (\<lambda>_. False)), DECREASE_ACTIVE_COUNT p] (io_return 0))"

definition uv_write :: "ptr \<Rightarrow> ptr \<Rightarrow> uv_buf \<Rightarrow> ('a uv_scheme, int) io" where
  "uv_write s p buf = io_bind (get_handle p) (\<lambda>h.
     if \<not> f_writable h then io_return UV_EPIPE
     else io_bind
       (if h_type h = UV_TCP then uv_tcp_write s p buf else io_fail AssertFail)
       (\<lambda>err. io_return (uv_translate_sys_error err)))"

definition uv_is_active :: "ptr \<Rightarrow> ('a uv_scheme, bool) io" where
  "uv_is_active p = io_bind (get_handle p) (\<lambda>h. io_return (f_active h \<and> \<not> f_closing h))"

definition uv_close :: "ptr \<Rightarrow> close_cb option \<Rightarrow> ('a uv_scheme, unit) io" where
  "uv_close p cb = io_bind (get_handle p) (\<lambda>h. io_all
     [io_assert (\<not> f_closing h),
      upd_handle p (close_cb_update (\<lambda>_. cb)),
      case h_type h of
        UV_TCP \<Rightarrow> uv_tcp_close p
      | UV_UDP \<Rightarrow> uv_udp_close p
      | UV_UNKNOWN_HANDLE \<Rightarrow> io_fail AssertFail])"

section \<open>The event loop\<close>

definition uv_process_req ::
    "nat \<Rightarrow> 'a uv_scheme callbacks \<Rightarrow> request \<Rightarrow> ('a uv_scheme, unit) io" where
  "uv_process_req n C r = io_all
     [touch_req r,
      case r of
        ReadReq p \<Rightarrow> uv_process_tcp_read_req n C p
      | WriteReq s \<Rightarrow> uv_process_tcp_write_req C s
      | AcceptReq p i \<Rightarrow> uv_process_tcp_accept_req C p i
      | ConnectReq \<Rightarrow> uv_process_tcp_connect_req C
      | RecvReq p \<Rightarrow> uv_process_udp_recv_req C p
      | SendReq s \<Rightarrow> uv_process_udp_send_req C s]"

text \<open>The ring of pending requests is detached before it is walked.\<close>

definition uv_process_reqs :: "nat \<Rightarrow> 'a uv_scheme callbacks \<Rightarrow> ('a uv_scheme, unit) io" where
  "uv_process_reqs n C = io_bind (io_get pending_reqs) (\<lambda>q. io_all
     (io_modify (\<lambda>w. w\<lparr>pending_reqs := []\<rparr>) # map (uv_process_req n C) q))"

text \<open>Completions: the kernel stores status and byte count in the request and the
  loop appends it to the pending ones.  Only requests in flight complete.\<close>

definition complete_req :: "request \<times> nat \<times> nat \<Rightarrow> ('a uv_scheme, unit) io" where
  "complete_req d = (case d of (r, status, bytes) \<Rightarrow>
     io_bind (io_get (\<lambda>w. r \<in> set (kernel w))) (\<lambda>flying. io_when flying (io_all
       [io_modify (\<lambda>w. w\<lparr>kernel := remove1 r (kernel w)\<rparr>),
        upd_req r (\<lambda>s. s\<lparr>r_status := status, r_bytes := bytes\<rparr>),
        uv_insert_pending_req r])))"

definition uv_poll :: "('a uv_scheme, unit) io" where
  "uv_poll = io_bind sys_call (\<lambda>a.
     if a_err a = 0 then io_all (map complete_req (take 128 (a_done a)))
     else if a_err a = WAIT_TIMEOUT then io_return ()
     else io_fail AssertFail)"

fun uv_process_endgames :: "nat \<Rightarrow> 'a uv_scheme callbacks \<Rightarrow> ('a uv_scheme, unit) io" where
  "uv_process_endgames 0 C = io_fail OutOfFuel"
| "uv_process_endgames (Suc n) C = io_bind (io_get endgame_handles) (\<lambda>hs.
     case hs of
       [] \<Rightarrow> io_return ()
     | p # rest \<Rightarrow> io_bind (get_handle p) (\<lambda>h. io_all
         [io_modify (\<lambda>w. w\<lparr>endgame_handles := rest\<rparr>),
          upd_handle p (f_endgame_queued_update (\<lambda>_. False)),
          case h_type h of
            UV_TCP \<Rightarrow> uv_tcp_endgame C p
          | UV_UDP \<Rightarrow> uv_udp_endgame C p
          | UV_UNKNOWN_HANDLE \<Rightarrow> io_fail AssertFail,
          uv_process_endgames n C]))"

definition uv__loop_alive :: "'a uv_scheme \<Rightarrow> bool" where
  "uv__loop_alive w \<longleftrightarrow> 0 < active_handles w \<or> active_reqs w \<noteq> [] \<or> endgame_handles w \<noteq> []"

text \<open>\<^verbatim>\<open>uv_run(loop, UV_RUN_NOWAIT)\<close>; timers and the idle, prepare and check
  watchers, of which the program has none, do nothing.\<close>

definition uv_run_nowait :: "nat \<Rightarrow> 'a uv_scheme callbacks \<Rightarrow> ('a uv_scheme, bool) io" where
  "uv_run_nowait n C = io_bind (io_get uv__loop_alive) (\<lambda>r.
     if \<not> r then io_return False
     else io_then [uv_process_reqs n C, uv_poll, uv_process_endgames n C] (io_get uv__loop_alive))"

definition uv_loop_close :: "('a uv_scheme, int) io" where
  "uv_loop_close = io_bind (io_get active_reqs) (\<lambda>rs. io_bind (io_get handle_queue) (\<lambda>q.
     if rs \<noteq> [] then io_return UV_EBUSY
     else if q \<noteq> [] then io_return UV_EBUSY
     else io_return 0))"

end
