(* ===== verification/Net_Session.thy ===== *)
theory Net_Session
  imports Uv_Loop Std_Map
begin

text \<open>
  Sessions of the network library: \<^verbatim>\<open>libs/network/src/uv_packet.cpp\<close> and
  \<^verbatim>\<open>uv_session.cpp\<close> with their headers, and \<^verbatim>\<open>uv_net.h\<close>.  The state extends
  that of libuv by the objects of the library; all static and member functions
  work on it.  A session at address \<open>p\<close> has its \<^verbatim>\<open>uv_tcp_t\<close> as the handle \<open>p\<close>
  and its \<^verbatim>\<open>uv_write_t\<close> as the request \<open>WriteReq p\<close>.
\<close>

definition PACKET_BUFFER_SIZE :: nat where
  "PACKET_BUFFER_SIZE = 1024"

definition UV_PACKET_HEAD_LENGTH :: nat where
  "UV_PACKET_HEAD_LENGTH = 24"

text \<open>\<^verbatim>\<open>uv_session\<close> with its member \<^verbatim>\<open>m_packet\<close> (\<open>p_head\<close>, \<open>p_body\<close>, \<open>p_length\<close>).\<close>

record session =
  s_id :: int
  s_ipv6 :: bool
  p_head :: uv_buf
  p_body :: uv_buf
  p_length :: nat
  s_readbuf :: uv_buf
  s_writebuf :: uv_buf

text \<open>\<^verbatim>\<open>uv_tcp_server\<close> and \<^verbatim>\<open>uv_udp_server\<close> without their handles and requests.\<close>

record tcp_server =
  t_service :: bool
  t_init :: bool
  t_ipv6 :: bool

record udp_server =
  u_service :: bool
  u_init :: bool
  u_ipv6 :: bool
  u_writebuf :: uv_buf
  u_readbuf :: uv_buf

text \<open>
  The state with the objects of the library and the one \<^verbatim>\<open>uv_service\<close>: the table
  of sessions and servers by address, the counter of \<^verbatim>\<open>generateid\<close>, and the
  members of the service.  \<open>m_error\<close> holds the code whose message
  \<^verbatim>\<open>uv_strerror\<close> returned.  \<open>stale_body\<close> and \<open>stale_length\<close> are what the storage
  of a new session held in the two members that its constructor leaves
  uninitialised.
\<close>

record net = uv +
  sessions :: "ptr \<Rightarrow> session option"
  tcp_servers :: "ptr \<Rightarrow> tcp_server option"
  udp_servers :: "ptr \<Rightarrow> udp_server option"
  stale_body :: "ptr \<Rightarrow> uv_buf"
  stale_length :: "ptr \<Rightarrow> nat"
  id_counter :: int
  m_handler :: bool
  m_tcp :: ptr
  m_udp :: ptr
  m_connections :: "(int, ptr) std_map"
  m_connect_data :: ptr
  m_sessions :: "(int, ptr) std_map"
  m_error :: "int option"
  m_shutdown :: bool
  m_init :: bool

section \<open>Addresses of a handle\<close>

definition uv_tcp_get_ip :: "ptr \<Rightarrow> bool \<Rightarrow> ('a uv_scheme, nat) io" where
  "uv_tcp_get_ip p ipv6 =
     (if p = 0 then io_return 0
      else if ipv6 then io_bind (uv_tcp_getsockname p 28)
        (\<lambda>(r, a). io_return (if r = 0 then sin6_addr_low a else 0))
      else io_bind (uv_tcp_getsockname p 16)
        (\<lambda>(r, a). io_return (if r = 0 then sin_addr a else 0)))"

definition uv_tcp_get_port :: "ptr \<Rightarrow> bool \<Rightarrow> ('a uv_scheme, nat) io" where
  "uv_tcp_get_port p ipv6 =
     io_bind (uv_tcp_getsockname p (if ipv6 then 28 else 16))
       (\<lambda>(r, a). io_return (if r = 0 then sin_port a else 0))"

section \<open>Packets\<close>

definition get_session :: "ptr \<Rightarrow> ('a net_scheme, session) io" where
  "get_session p = (\<lambda>w. case sessions w p of None \<Rightarrow> Inl (bad_access p w) | Some s \<Rightarrow> Inr (s, w))"

definition upd_session :: "ptr \<Rightarrow> (session \<Rightarrow> session) \<Rightarrow> ('a net_scheme, unit) io" where
  "upd_session p f =
     io_bind (get_session p) (\<lambda>s. io_modify (\<lambda>w. w\<lparr>sessions := (sessions w)(p \<mapsto> f s)\<rparr>))"

text \<open>\<^verbatim>\<open>SAFE_FREE\<close> of a buffer's base.\<close>

definition safe_free :: "ptr \<Rightarrow> ('a uv_scheme, unit) io" where
  "safe_free p = io_when (p \<noteq> 0) (mem_free p)"

definition packet_clear :: "ptr \<Rightarrow> ('a net_scheme, unit) io" where
  "packet_clear p = io_bind (get_session p) (\<lambda>s. io_all
     [io_when (buf_base (p_head s) \<noteq> 0) (mem_zero (buf_base (p_head s)) (buf_len (p_head s))),
      io_when (buf_base (p_body s) \<noteq> 0) (mem_zero (buf_base (p_body s)) (buf_len (p_body s)))])"

text \<open>\<^verbatim>\<open>bodylength()\<close>: the unsigned 32-bit integer behind \<^verbatim>\<open>PACKET_HEAD_LENGTH\<close> bytes.\<close>

definition packet_bodylength :: "ptr \<Rightarrow> ('a net_scheme, nat) io" where
  "packet_bodylength p = io_bind (get_session p) (\<lambda>s.
     io_bind (mem_read (buf_base (p_head s)) UV_PACKET_HEAD_LENGTH 4) (\<lambda>b. io_return (le_val b)))"

definition receive_head :: "ptr \<Rightarrow> ('a net_scheme, int) io" where
  "receive_head p = io_then [packet_clear p] (uv_read_start p On_alloc_head On_receive_head)"

definition receive_body :: "ptr \<Rightarrow> ('a net_scheme, int) io" where
  "receive_body p = uv_read_start p On_alloc_body On_receive_body"

definition packet_receive :: "ptr \<Rightarrow> ('a net_scheme, int) io" where
  "packet_receive p = receive_head p"

definition on_alloc_head :: "ptr \<Rightarrow> ('a net_scheme, uv_buf) io" where
  "on_alloc_head p = io_bind (get_handle p) (\<lambda>h. io_then [io_assert (h_data h \<noteq> 0)]
     (io_bind (get_session (h_data h)) (\<lambda>s. io_return (p_head s))))"

definition on_alloc_body :: "ptr \<Rightarrow> ('a net_scheme, uv_buf) io" where
  "on_alloc_body p = io_bind (get_handle p) (\<lambda>h. io_then [io_assert (h_data h \<noteq> 0)]
     (io_bind (get_session (h_data h)) (\<lambda>s. io_then
       [safe_free (buf_base (p_body s)),
        upd_session (h_data h) (p_body_update (\<lambda>_. uv_buf_init 0 0))]
       (if p_length s = UV_PACKET_HEAD_LENGTH
        then io_bind (packet_bodylength (h_data h)) (\<lambda>n.
          if 0 < n
          then io_bind (malloc n) (\<lambda>b. io_then
            [upd_session (h_data h) (p_body_update (\<lambda>_. uv_buf_init b n))]
            (io_return (uv_buf_init b n)))
          else io_return (uv_buf_init 0 0))
        else io_return (uv_buf_init 0 0)))))"

section \<open>Sessions\<close>

definition generateid :: "('a net_scheme, int) io" where
  "generateid = io_then [io_modify (\<lambda>w. w\<lparr>id_counter := id_counter w + 1\<rparr>)] (io_get id_counter)"

text \<open>\<^verbatim>\<open>new uv_session(service, ipv6)\<close>: the constructor of \<^verbatim>\<open>uv_packet\<close> assigns
  \<^verbatim>\<open>m_head\<close> twice and \<^verbatim>\<open>m_body\<close> never.\<close>

definition new_session :: "bool \<Rightarrow> ('a net_scheme, ptr) io" where
  "new_session ipv6 =
     io_bind (\<lambda>w. Inr (next_ptr w, w\<lparr>next_ptr := Suc (next_ptr w)\<rparr>)) (\<lambda>p.
     io_bind generateid (\<lambda>sid.
     io_bind (malloc UV_PACKET_HEAD_LENGTH) (\<lambda>_.
     io_bind (malloc PACKET_BUFFER_SIZE) (\<lambda>head.
     io_bind (malloc PACKET_BUFFER_SIZE) (\<lambda>readbuf.
     io_bind (malloc PACKET_BUFFER_SIZE) (\<lambda>writebuf. io_then
       [io_modify (\<lambda>w. w\<lparr>sessions := (sessions w)(p \<mapsto>
           \<lparr>s_id = sid, s_ipv6 = ipv6, p_head = uv_buf_init head PACKET_BUFFER_SIZE,
            p_body = stale_body w p, p_length = stale_length w p,
            s_readbuf = uv_buf_init readbuf PACKET_BUFFER_SIZE,
            s_writebuf = uv_buf_init writebuf PACKET_BUFFER_SIZE\<rparr>),
          handles := (handles w)(p \<mapsto> zero_handle\<lparr>h_data := p\<rparr>)\<rparr>)]
       (io_return p)))))))"

definition session_is_active :: "ptr \<Rightarrow> ('a uv_scheme, bool) io" where
  "session_is_active p = uv_is_active p"

definition session_close :: "ptr \<Rightarrow> ('a uv_scheme, unit) io" where
  "session_close p = io_bind (session_is_active p) (\<lambda>active.
     io_when active (io_bind (uv_read_stop p) (\<lambda>_. uv_close p (Some Session_on_close))))"

text \<open>\<^verbatim>\<open>delete session\<close>: the destructors of the session and of its packet, then the
  storage.\<close>

definition delete_session :: "ptr \<Rightarrow> ('a net_scheme, unit) io" where
  "delete_session p = io_bind (session_is_active p) (\<lambda>active. io_all
     [io_when active (session_close p),
      io_bind (get_session p) (\<lambda>s. io_all
        [safe_free (buf_base (s_readbuf s)), safe_free (buf_base (s_writebuf s)),
         safe_free (buf_base (p_head s)), safe_free (buf_base (p_body s))]),
      io_modify (\<lambda>w. w\<lparr>sessions := (sessions w)(p := None), handles := (handles w)(p := None)\<rparr>)])"

text \<open>\<^verbatim>\<open>SAFE_FREE(handle)\<close> in a close callback: the handle is a member of another
  object, not a block of its own.\<close>

definition free_handle :: "ptr \<Rightarrow> ('a uv_scheme, unit) io" where
  "free_handle p = io_when (p \<noteq> 0) (io_bind (get_handle p) (\<lambda>_. io_fail InvalidFree))"

definition session_on_close :: "ptr \<Rightarrow> ('a uv_scheme, unit) io" where
  "session_on_close p = free_handle p"

definition session_ip :: "ptr \<Rightarrow> ('a net_scheme, nat) io" where
  "session_ip p = io_bind (get_session p) (\<lambda>s. uv_tcp_get_ip p (s_ipv6 s))"

definition session_port :: "ptr \<Rightarrow> ('a net_scheme, nat) io" where
  "session_port p = io_bind (get_session p) (\<lambda>s. uv_tcp_get_port p (s_ipv6 s))"

text \<open>\<^verbatim>\<open>setnodelay\<close> and \<^verbatim>\<open>setkeepalive\<close>, which sessions and the TCP server share.\<close>

definition setnodelay :: "ptr \<Rightarrow> bool \<Rightarrow> ('a uv_scheme, bool) io" where
  "setnodelay p enable =
     io_bind (uv_tcp_nodelay p enable) (\<lambda>r. io_then [io_assert (r = 0)] (io_return True))"

definition setkeepalive :: "ptr \<Rightarrow> bool \<Rightarrow> ('a uv_scheme, bool) io" where
  "setkeepalive p enable =
     io_bind (uv_tcp_keepalive p enable) (\<lambda>r. io_then [io_assert (r = 0)] (io_return True))"

definition session_receive :: "ptr \<Rightarrow> ('a net_scheme, int) io" where
  "session_receive p = packet_receive p"

end
