(* ===== verification/Net_Service.thy ===== *)
theory Net_Service
  imports Net_Session
begin

text \<open>
  The service of the network library: \<^verbatim>\<open>libs/network/src/uv_service.cpp\<close>,
  \<^verbatim>\<open>uv_tcp_server.cpp\<close>, \<^verbatim>\<open>uv_udp_server.cpp\<close> and the receiving callbacks of
  \<^verbatim>\<open>uv_packet.cpp\<close>.  The application's \<^verbatim>\<open>uv_service_handler\<close> is the argument
  \<open>H\<close>: one operation on the state per virtual function.
\<close>

record 'w handler =
  H_initialize :: "('w, bool) io"
  H_update :: "('w, unit) io"
  H_shutdown :: "('w, unit) io"
  H_newsession :: "ptr \<Rightarrow> ('w, unit) io"
  H_closesession :: "ptr \<Rightarrow> ('w, unit) io"
  H_tcpreceive :: "ptr \<Rightarrow> byte list \<Rightarrow> ('w, unit) io"
  H_udpreceive :: "byte list \<Rightarrow> byte list \<Rightarrow> ('w, unit) io"
  H_newconnection :: "ptr \<Rightarrow> ('w, unit) io"
  H_closeconnection :: "ptr \<Rightarrow> ('w, unit) io"

text \<open>\<^verbatim>\<open>if (m_handler) m_handler->...\<close>\<close>

definition with_handler :: "('a net_scheme, unit) io \<Rightarrow> ('a net_scheme, unit) io" where
  "with_handler m = io_bind (io_get m_handler) (\<lambda>b. io_when b m)"

section \<open>Sessions and connections of the service\<close>

text \<open>The search of \<^verbatim>\<open>getsession\<close> compares the id of each session in the map.\<close>

fun find_session :: "int \<Rightarrow> (int \<times> ptr) list \<Rightarrow> ('a net_scheme, ptr) io" where
  "find_session i [] = io_return 0"
| "find_session i ((k, p) # m) =
     io_bind (get_session p) (\<lambda>s. if s_id s = i then io_return p else find_session i m)"

definition getsession :: "int \<Rightarrow> ('a net_scheme, ptr) io" where
  "getsession i = io_bind (io_get m_sessions) (find_session i)"

definition closesession :: "'a net_scheme handler \<Rightarrow> int \<Rightarrow> ('a net_scheme, unit) io" where
  "closesession H i = io_bind (getsession i) (\<lambda>p. io_when (p \<noteq> 0) (io_all
     [session_close p,
      io_modify (\<lambda>w. w\<lparr>m_sessions := map_erase i (m_sessions w)\<rparr>),
      with_handler (H_closesession H p),
      delete_session p]))"

definition service_on_newsession :: "'a net_scheme handler \<Rightarrow> ptr \<Rightarrow> ('a net_scheme, unit) io" where
  "service_on_newsession H p = io_bind (get_session p) (\<lambda>s. io_all
     [io_modify (\<lambda>w. if map_find (m_sessions w) (s_id s) = None
        then w\<lparr>m_sessions := map_insert (s_id s) p (m_sessions w)\<rparr> else w),
      with_handler (H_newsession H p)])"

definition service_on_tcpreceive ::
    "'a net_scheme handler \<Rightarrow> ptr \<Rightarrow> byte list \<Rightarrow> ('a net_scheme, unit) io" where
  "service_on_tcpreceive H p data = with_handler (H_tcpreceive H p data)"

definition service_on_udpreceive ::
    "'a net_scheme handler \<Rightarrow> byte list \<Rightarrow> byte list \<Rightarrow> ('a net_scheme, unit) io" where
  "service_on_udpreceive H addr data = with_handler (H_udpreceive H addr data)"

definition service_error :: "int \<Rightarrow> ('a net_scheme, unit) io" where
  "service_error status = io_modify (\<lambda>w. w\<lparr>m_error := Some status\<rparr>)"

definition getconnection_id :: "int \<Rightarrow> ('a net_scheme, ptr) io" where
  "getconnection_id i = io_get (\<lambda>w. case map_find (m_connections w) i of None \<Rightarrow> 0 | Some p \<Rightarrow> p)"

text \<open>The search of \<^verbatim>\<open>getconnection(ip, port)\<close> over the connections.\<close>

fun find_connection :: "byte list \<Rightarrow> byte list \<Rightarrow> (int \<times> ptr) list \<Rightarrow> ('a net_scheme, ptr) io" where
  "find_connection addr6 addr4 [] = io_return 0"
| "find_connection addr6 addr4 ((k, p) # m) = io_bind (get_session p) (\<lambda>s.
     io_bind (uv_tcp_getsockname p (if s_ipv6 s then 28 else 16)) (\<lambda>(r, a).
       if r = 0 \<and>
          (if s_ipv6 s then sin6_addr_low addr6 = sin6_addr_low a \<and> sin_port addr6 = sin_port a
           else sin_addr addr4 = sin_addr a \<and> sin_port addr4 = sin_port a)
       then io_return p else find_connection addr6 addr4 m))"

definition getconnection :: "byte list \<Rightarrow> int \<Rightarrow> ('a net_scheme, ptr) io" where
  "getconnection ip port =
     (let (r6, addr6) = uv_ip6_addr ip port; (r4, addr4) = uv_ip4_addr ip port in
      if r6 \<noteq> 0 then io_return 0
      else if r4 \<noteq> 0 then io_return 0
      else io_bind (io_get m_connections) (find_connection addr6 addr4))"

definition closeconnection :: "'a net_scheme handler \<Rightarrow> int \<Rightarrow> ('a net_scheme, unit) io" where
  "closeconnection H i = io_bind (getconnection_id i) (\<lambda>p. io_when (p \<noteq> 0) (io_all
     [session_close p,
      io_modify (\<lambda>w. w\<lparr>m_connections := map_erase i (m_connections w)\<rparr>),
      with_handler (H_closeconnection H p),
      delete_session p]))"

definition service_on_newconnection :: "'a net_scheme handler \<Rightarrow> ptr \<Rightarrow> ('a net_scheme, unit) io" where
  "service_on_newconnection H p = io_when (p \<noteq> 0) (io_bind (get_session p) (\<lambda>s. io_all
     [io_modify (\<lambda>w. if map_find (m_connections w) (s_id s) = None
        then w\<lparr>m_connections := map_insert (s_id s) p (m_connections w)\<rparr> else w),
      with_handler (H_newconnection H p)]))"

text \<open>\<^verbatim>\<open>connect\<close>.  The last argument of \<^verbatim>\<open>uv_tcp_connect\<close> is the address of the local
  pointer variable, so libuv reads the bytes of that pointer and of the stack
  behind it as the socket address: the argument \<open>stack\<close>.\<close>

definition service_connect :: "byte list \<Rightarrow> byte list \<Rightarrow> int \<Rightarrow> bool \<Rightarrow> ('a net_scheme, bool) io" where
  "service_connect stack ip port ipv6 = io_bind (new_session ipv6) (\<lambda>p.
     io_bind (uv_tcp_init p) (\<lambda>r. io_then [io_assert (r = 0)]
       (let r = (if ipv6 then fst (uv_ip4_addr ip port) else fst (uv_ip6_addr ip port)) in
        if r \<noteq> 0 then io_then [session_close p, delete_session p, io_assert (r = 0)] (io_return False)
        else io_then [io_modify (\<lambda>w. w\<lparr>m_connect_data := p\<rparr>)]
          (io_bind (uv_tcp_connect p stack) (\<lambda>r.
             if r \<noteq> 0
             then io_then [session_close p, delete_session p, io_assert (r = 0)] (io_return False)
             else io_return True)))))"

definition on_connect :: "'a net_scheme handler \<Rightarrow> int \<Rightarrow> ('a net_scheme, unit) io" where
  "on_connect H status = io_bind (io_get m_connect_data) (\<lambda>p. io_when (p \<noteq> 0)
     (io_bind (get_session p) (\<lambda>_.
       if status = 0
       then io_all
         [service_on_newconnection H p,
          io_bind (session_receive p) (\<lambda>r. io_when (r \<noteq> 0)
            (io_bind (get_session p) (\<lambda>s. io_all
              [closeconnection H (s_id s), io_assert (r = 0)])))]
       else io_all [session_close p, delete_session p, io_assert (status = 0)])))"

section \<open>Receiving\<close>

text \<open>What both receive callbacks do with an error: close the session and accept only
  a closed or reset connection.\<close>

definition receive_failed ::
    "'a net_scheme handler \<Rightarrow> ptr \<Rightarrow> int \<Rightarrow> ('a net_scheme, unit) io" where
  "receive_failed H p nread = io_all
     [packet_clear p,
      io_when (nread < 0) (io_bind (get_session p) (\<lambda>s. io_all
        [closesession H (s_id s),
         io_when (nread \<noteq> UV_EOF \<and> nread \<noteq> UV_ECONNRESET) (io_assert (0 \<le> nread))]))]"

definition on_receive_head ::
    "'a net_scheme handler \<Rightarrow> ptr \<Rightarrow> int \<Rightarrow> uv_buf \<Rightarrow> ('a net_scheme, unit) io" where
  "on_receive_head H hp nread buf = io_bind (get_handle hp) (\<lambda>h. io_then [io_assert (h_data h \<noteq> 0)]
     (let p = h_data h in io_bind (get_session p) (\<lambda>s.
       if nread = int (buf_len (p_head s)) then io_then
         [upd_session p (p_length_update (\<lambda>_. nat nread))]
         (io_bind (packet_bodylength p) (\<lambda>n.
            if 0 < sint (of_nat n :: u32) then io_bind (receive_body p) (\<lambda>_. io_return ())
            else io_bind (mem_read (buf_base (p_head s)) 0 (buf_len (p_head s))) (\<lambda>data. io_all
              [service_on_tcpreceive H p data,
               packet_clear p,
               io_bind (receive_head p) (\<lambda>_. io_return ())])))
       else receive_failed H p nread)))"

definition on_receive_body ::
    "'a net_scheme handler \<Rightarrow> ptr \<Rightarrow> int \<Rightarrow> uv_buf \<Rightarrow> ('a net_scheme, unit) io" where
  "on_receive_body H hp nread buf = io_bind (get_handle hp) (\<lambda>h. io_when (h_data h \<noteq> 0)
     (let p = h_data h in io_bind (get_session p) (\<lambda>s.
      io_bind (if 0 < nread then io_bind (packet_bodylength p) (\<lambda>n. io_return (nread = int n))
               else io_return False) (\<lambda>whole.
        if whole then io_bind (packet_bodylength p) (\<lambda>n. io_then
          [upd_session p (\<lambda>s. s\<lparr>p_length := sz_add (p_length s) n\<rparr>)]
          (io_bind (mem_read (buf_base (p_head s)) 0 (buf_len (p_head s))) (\<lambda>d1.
           io_bind (mem_read (buf_base (p_body s)) 0 n) (\<lambda>d2. io_all
             [service_on_tcpreceive H p (d1 @ d2),
              packet_clear p,
              io_bind (receive_head p) (\<lambda>_. io_return ())]))))
        else receive_failed H p nread))))"

section \<open>The TCP server\<close>

definition get_tcp :: "ptr \<Rightarrow> ('a net_scheme, tcp_server) io" where
  "get_tcp p = (\<lambda>w. case tcp_servers w p of None \<Rightarrow> Inl (bad_access p w) | Some t \<Rightarrow> Inr (t, w))"

definition upd_tcp :: "ptr \<Rightarrow> (tcp_server \<Rightarrow> tcp_server) \<Rightarrow> ('a net_scheme, unit) io" where
  "upd_tcp p f = io_bind (get_tcp p) (\<lambda>t. io_modify (\<lambda>w. w\<lparr>tcp_servers := (tcp_servers w)(p \<mapsto> f t)\<rparr>))"

definition new_tcp_server :: "('a net_scheme, ptr) io" where
  "new_tcp_server = (\<lambda>w. let p = next_ptr w in
     Inr (p, w\<lparr>next_ptr := Suc p, handles := (handles w)(p \<mapsto> zero_handle),
       tcp_servers := (tcp_servers w)(p \<mapsto> \<lparr>t_service = True, t_init = False, t_ipv6 = False\<rparr>)\<rparr>))"

definition tcp_bind_ipv4 :: "ptr \<Rightarrow> byte list \<Rightarrow> int \<Rightarrow> ('a net_scheme, int) io" where
  "tcp_bind_ipv4 p ip port = (let (r, addr) = uv_ip4_addr ip port in
     io_try [io_return r] (uv_tcp_bind p addr))"

definition tcp_bind_ipv6 :: "ptr \<Rightarrow> byte list \<Rightarrow> int \<Rightarrow> ('a net_scheme, int) io" where
  "tcp_bind_ipv6 p ip port = (let (r, addr) = uv_ip6_addr ip port in
     io_try [io_return r] (uv_tcp_bind p addr))"

definition tcp_listen :: "ptr \<Rightarrow> int \<Rightarrow> ('a net_scheme, int) io" where
  "tcp_listen p backlog = uv_listen p backlog"

definition tcp_initialize :: "ptr \<Rightarrow> byte list \<Rightarrow> int \<Rightarrow> bool \<Rightarrow> ('a net_scheme, bool) io" where
  "tcp_initialize p ip port ipv6 = io_bind (get_tcp p) (\<lambda>t.
     if t_init t then io_return True
     else io_then [upd_tcp p (t_ipv6_update (\<lambda>_. ipv6))]
       (if \<not> t_service t then io_return False
        else io_bind (uv_tcp_init p) (\<lambda>r. io_then [io_assert (r = 0)]
          (io_bind (if ipv6 then tcp_bind_ipv6 p ip port else tcp_bind_ipv4 p ip port)
            (\<lambda>r. io_then [io_assert (r = 0)]
              (io_bind (tcp_listen p 1024) (\<lambda>r.
                 if r \<noteq> 0 then io_then [io_assert (r \<noteq> 0)] (io_return False)
                 else io_then [upd_handle p (h_data_update (\<lambda>_. p))] (io_return True))))))))"

definition tcp_is_active :: "ptr \<Rightarrow> ('a net_scheme, bool) io" where
  "tcp_is_active p = uv_is_active p"

definition tcp_close :: "ptr \<Rightarrow> ('a net_scheme, unit) io" where
  "tcp_close p = io_bind (tcp_is_active p) (\<lambda>active. io_all
     [io_when active (uv_close p (Some Tcp_on_close)), upd_tcp p (t_init_update (\<lambda>_. False))])"

definition delete_tcp_server :: "ptr \<Rightarrow> ('a net_scheme, unit) io" where
  "delete_tcp_server p = io_all
     [upd_tcp p (\<lambda>t. t\<lparr>t_init := False, t_ipv6 := False, t_service := False\<rparr>),
      io_bind (tcp_is_active p) (\<lambda>active. io_when active (uv_close p (Some Tcp_on_close))),
      io_modify (\<lambda>w. w\<lparr>tcp_servers := (tcp_servers w)(p := None), handles := (handles w)(p := None)\<rparr>)]"

text \<open>\<^verbatim>\<open>send\<close> works on a copy of the session's buffer descriptor: after \<^verbatim>\<open>realloc\<close> the
  session keeps the old address.\<close>

definition tcp_send :: "ptr \<Rightarrow> byte list \<Rightarrow> ('a net_scheme, unit) io" where
  "tcp_send p data = io_when (p \<noteq> 0) (io_bind (get_session p) (\<lambda>s.
     io_bind
       (if buf_len (s_writebuf s) < length data
        then io_bind (mem_realloc (buf_base (s_writebuf s)) (length data))
               (\<lambda>b. io_return (uv_buf_init b (length data)))
        else io_return (s_writebuf s))
       (\<lambda>buffer. io_then
         [mem_zero (buf_base buffer) (buf_len buffer), mem_write (buf_base buffer) data]
         (io_bind (uv_write p p (buffer\<lparr>buf_len := length data\<rparr>)) (\<lambda>r. io_assert (r = 0))))))"

definition tcp_on_send :: "int \<Rightarrow> ('a net_scheme, unit) io" where
  "tcp_on_send status = io_assert (status \<noteq> 0)"

definition on_accept :: "'a net_scheme handler \<Rightarrow> ptr \<Rightarrow> int \<Rightarrow> ('a net_scheme, unit) io" where
  "on_accept H hp status = io_all
     [io_assert (status = 0),
      io_bind (get_handle hp) (\<lambda>h. io_when (h_data h \<noteq> 0)
        (let server = h_data h in io_bind (get_tcp server) (\<lambda>t.
          if \<not> t_service t then io_fail NullDeref
          else io_bind (new_session (t_ipv6 t)) (\<lambda>p.
            io_bind (uv_tcp_init p) (\<lambda>r.
              if r \<noteq> 0 then io_all [delete_session p, io_assert (r = 0)]
              else io_bind (uv_accept server p) (\<lambda>r.
                if r \<noteq> 0 then io_all [uv_close p None, delete_session p, io_assert (r \<noteq> 0)]
                else io_all
                  [service_on_newsession H p,
                   io_bind (session_receive p) (\<lambda>r. io_assert (r = 0))]))))))]"

definition tcp_on_close :: "ptr \<Rightarrow> ('a net_scheme, unit) io" where
  "tcp_on_close p = free_handle p"

definition tcp_server_ip :: "ptr \<Rightarrow> ('a net_scheme, nat) io" where
  "tcp_server_ip p = io_bind (get_tcp p) (\<lambda>t. uv_tcp_get_ip p (t_ipv6 t))"

definition tcp_server_port :: "ptr \<Rightarrow> ('a net_scheme, nat) io" where
  "tcp_server_port p = io_bind (get_tcp p) (\<lambda>t. uv_tcp_get_port p (t_ipv6 t))"

section \<open>The UDP server\<close>

definition get_udp :: "ptr \<Rightarrow> ('a net_scheme, udp_server) io" where
  "get_udp p = (\<lambda>w. case udp_servers w p of None \<Rightarrow> Inl (bad_access p w) | Some u \<Rightarrow> Inr (u, w))"

definition upd_udp :: "ptr \<Rightarrow> (udp_server \<Rightarrow> udp_server) \<Rightarrow> ('a net_scheme, unit) io" where
  "upd_udp p f = io_bind (get_udp p) (\<lambda>u. io_modify (\<lambda>w. w\<lparr>udp_servers := (udp_servers w)(p \<mapsto> f u)\<rparr>))"

definition new_udp_server :: "('a net_scheme, ptr) io" where
  "new_udp_server =
     io_bind (\<lambda>w. Inr (next_ptr w, w\<lparr>next_ptr := Suc (next_ptr w)\<rparr>)) (\<lambda>p.
     io_bind (malloc PACKET_BUFFER_SIZE) (\<lambda>wb.
     io_bind (malloc PACKET_BUFFER_SIZE) (\<lambda>rb. io_then
       [io_modify (\<lambda>w. w\<lparr>handles := (handles w)(p \<mapsto> zero_handle\<lparr>h_data := p\<rparr>),
          udp_servers := (udp_servers w)(p \<mapsto> \<lparr>u_service = True, u_init = False, u_ipv6 = False,
            u_writebuf = uv_buf_init wb PACKET_BUFFER_SIZE,
            u_readbuf = uv_buf_init rb PACKET_BUFFER_SIZE\<rparr>)\<rparr>)]
       (io_return p))))"

text \<open>A call that must return 0, in its own function and in the caller.\<close>

definition io_zero :: "('w, int) io \<Rightarrow> ('w, int) io" where
  "io_zero m = io_bind m (\<lambda>r. io_then [io_assert (r = 0)] (io_return r))"

definition udp_bind_ipv4 :: "ptr \<Rightarrow> byte list \<Rightarrow> int \<Rightarrow> ('a net_scheme, int) io" where
  "udp_bind_ipv4 p ip port = (let (r, addr) = uv_ip4_addr ip port in
     io_then [io_assert (r = 0)] (io_zero (uv_udp_bind p addr)))"

definition udp_bind_ipv6 :: "ptr \<Rightarrow> byte list \<Rightarrow> int \<Rightarrow> ('a net_scheme, int) io" where
  "udp_bind_ipv6 p ip port = (let (r, addr) = uv_ip6_addr ip port in
     io_then [io_assert (r = 0)] (io_zero (uv_udp_bind p addr)))"

definition udp_listen :: "ptr \<Rightarrow> ('a net_scheme, int) io" where
  "udp_listen p = io_zero (uv_udp_recv_start p On_alloc_buffer)"

definition udp_initialize :: "ptr \<Rightarrow> byte list \<Rightarrow> int \<Rightarrow> bool \<Rightarrow> ('a net_scheme, bool) io" where
  "udp_initialize p ip port ipv6 = io_bind (get_udp p) (\<lambda>u.
     if u_init u then io_return True
     else io_then [upd_udp p (u_ipv6_update (\<lambda>_. ipv6)), io_assert (u_service u)]
       (io_bind (uv_udp_init p) (\<lambda>r. io_then [io_assert (r = 0)]
         (io_bind (if ipv6 then udp_bind_ipv6 p ip port else udp_bind_ipv4 p ip port)
           (\<lambda>r. io_then [io_assert (r = 0)]
             (io_bind (udp_listen p) (\<lambda>r. io_then
               [io_assert (r = 0), upd_udp p (u_init_update (\<lambda>_. True))] (io_return True))))))))"

definition udp_setbroadcast :: "ptr \<Rightarrow> ('a net_scheme, bool) io" where
  "udp_setbroadcast p =
     io_bind (uv_udp_set_broadcast p) (\<lambda>r. io_then [io_assert (r = 0)] (io_return True))"

definition udp_is_active :: "ptr \<Rightarrow> ('a net_scheme, bool) io" where
  "udp_is_active p = uv_is_active p"

definition udp_close :: "ptr \<Rightarrow> ('a net_scheme, unit) io" where
  "udp_close p = io_bind (udp_is_active p) (\<lambda>active. io_all
     [io_when active (uv_close p (Some Udp_on_close)), upd_udp p (u_init_update (\<lambda>_. False))])"

definition delete_udp_server :: "ptr \<Rightarrow> ('a net_scheme, unit) io" where
  "delete_udp_server p = io_all
     [io_bind (get_udp p) (\<lambda>u. io_all
        [safe_free (buf_base (u_writebuf u)), safe_free (buf_base (u_readbuf u))]),
      io_modify (\<lambda>w. w\<lparr>udp_servers := (udp_servers w)(p := None), handles := (handles w)(p := None)\<rparr>)]"

definition udp_send_to :: "ptr \<Rightarrow> byte list \<Rightarrow> byte list \<Rightarrow> ('a net_scheme, unit) io" where
  "udp_send_to p addr data = io_bind (get_udp p) (\<lambda>u.
     io_bind
       (if buf_len (u_writebuf u) < length data
        then io_bind (mem_realloc (buf_base (u_writebuf u)) (length data))
               (\<lambda>b. io_return (uv_buf_init b (length data)))
        else io_then [mem_zero (buf_base (u_writebuf u)) (buf_len (u_writebuf u))]
               (io_return (u_writebuf u)))
       (\<lambda>buffer. let b = buffer\<lparr>buf_len := length data\<rparr> in io_then
         [mem_write (buf_base buffer) data, upd_udp p (u_writebuf_update (\<lambda>_. b))]
         (io_bind (uv_udp_send p b addr) (\<lambda>r. io_assert (r = 0)))))"

definition udp_send :: "ptr \<Rightarrow> byte list \<Rightarrow> int \<Rightarrow> byte list \<Rightarrow> ('a net_scheme, unit) io" where
  "udp_send p ip port data = io_bind (get_udp p) (\<lambda>u.
     let (r, addr) = (if u_ipv6 u then uv_ip6_addr ip port else uv_ip4_addr ip port) in
     io_all [io_assert (r = 0), udp_send_to p addr data])"

definition on_alloc_buffer :: "ptr \<Rightarrow> ('a net_scheme, uv_buf) io" where
  "on_alloc_buffer hp = io_bind (get_handle hp) (\<lambda>h. io_then [io_assert (h_data h \<noteq> 0)]
     (io_bind (get_udp (h_data h)) (\<lambda>u. io_return (u_readbuf u))))"

definition udp_on_send :: "int \<Rightarrow> ('a net_scheme, unit) io" where
  "udp_on_send status = io_assert (status = 0)"

definition udp_on_receive ::
    "'a net_scheme handler \<Rightarrow> ptr \<Rightarrow> int \<Rightarrow> uv_buf \<Rightarrow> byte list \<Rightarrow> ('a net_scheme, unit) io" where
  "udp_on_receive H hp nread buf addr = io_bind (get_handle hp) (\<lambda>h. io_when (h_data h \<noteq> 0)
     (let p = h_data h in io_bind (get_udp p) (\<lambda>u.
       if 0 < nread then
         (if \<not> u_service u then io_fail NullDeref
          else io_bind (mem_read (buf_base buf) 0 (nat nread)) (service_on_udpreceive H addr))
       else if nread = 0 then io_return ()
       else io_all
         [io_when (nread \<noteq> UV_EOF \<and> nread \<noteq> UV_ECONNRESET) (service_error nread),
          udp_close p])))"

definition udp_on_close :: "ptr \<Rightarrow> ('a net_scheme, unit) io" where
  "udp_on_close p = free_handle p"

section \<open>The service\<close>

text \<open>The callbacks as libuv calls them.\<close>

definition net_callbacks :: "'a net_scheme handler \<Rightarrow> 'a net_scheme callbacks" where
  "net_callbacks H = \<lparr>
     cb_alloc = (\<lambda>cb p. case cb of On_alloc_head \<Rightarrow> on_alloc_head p | On_alloc_body \<Rightarrow> on_alloc_body p
       | On_alloc_buffer \<Rightarrow> on_alloc_buffer p),
     cb_read = (\<lambda>cb p nread buf. case cb of On_receive_head \<Rightarrow> on_receive_head H p nread buf
       | On_receive_body \<Rightarrow> on_receive_body H p nread buf),
     cb_connection = on_accept H,
     cb_write = (\<lambda>s status. tcp_on_send status),
     cb_connect = on_connect H,
     cb_close = (\<lambda>cb p. case cb of Session_on_close \<Rightarrow> session_on_close p | Tcp_on_close \<Rightarrow> tcp_on_close p
       | Udp_on_close \<Rightarrow> udp_on_close p),
     cb_recv = udp_on_receive H,
     cb_send = (\<lambda>s status. udp_on_send status)\<rparr>"

text \<open>\<^verbatim>\<open>uv_service(handler)\<close>, which stores itself in the handler and so needs one.\<close>

definition new_service :: "bool \<Rightarrow> ('a net_scheme, unit) io" where
  "new_service handler =
     (if \<not> handler then io_fail NullDeref
      else io_modify (\<lambda>w. w\<lparr>m_handler := True, m_tcp := 0, m_udp := 0, m_connections := [],
        m_sessions := [], m_error := None, m_shutdown := False, m_init := False\<rparr>))"

definition service_initialize ::
    "'a net_scheme handler \<Rightarrow> byte list \<Rightarrow> int \<Rightarrow> int \<Rightarrow> bool \<Rightarrow> ('a net_scheme, bool) io" where
  "service_initialize H ip tcp_port udp_port ipv6 = io_bind (io_get m_init) (\<lambda>i.
     if i then io_return True
     else io_bind (io_get m_handler) (\<lambda>b.
       if \<not> b then io_return False
       else io_bind (H_initialize H) (\<lambda>ok. io_then [io_assert ok]
         (io_bind new_tcp_server (\<lambda>t. io_then [io_modify (\<lambda>w. w\<lparr>m_tcp := t\<rparr>)]
         (io_bind new_udp_server (\<lambda>u. io_then [io_modify (\<lambda>w. w\<lparr>m_udp := u\<rparr>)]
         (io_bind (tcp_initialize t ip tcp_port ipv6) (\<lambda>ok. io_then [io_assert ok]
         (io_bind (udp_initialize u ip udp_port ipv6) (\<lambda>ok. io_then
           [io_assert ok, io_modify (\<lambda>w. w\<lparr>m_init := True\<rparr>)] (io_return True))))))))))))"

definition service_shutdown :: "'a net_scheme handler \<Rightarrow> ('a net_scheme, unit) io" where
  "service_shutdown H = io_all
     [with_handler (H_shutdown H), io_modify (\<lambda>w. w\<lparr>m_shutdown := True\<rparr>)]"

text \<open>\<^verbatim>\<open>run\<close>; the first argument bounds the rounds of the loop, the second those
  inside \<^verbatim>\<open>uv_run\<close>.\<close>

fun service_run :: "nat \<Rightarrow> nat \<Rightarrow> 'a net_scheme handler \<Rightarrow> ('a net_scheme, bool) io" where
  "service_run 0 k H = io_fail OutOfFuel"
| "service_run (Suc n) k H = io_bind (io_get m_shutdown) (\<lambda>s.
     if s then io_return True
     else io_bind (uv_run_nowait k (net_callbacks H)) (\<lambda>_. io_then
       [with_handler (H_update H)] (service_run n k H)))"

text \<open>The destructor.\<close>

definition delete_each :: "(int, ptr) std_map \<Rightarrow> ('a net_scheme, unit) io" where
  "delete_each m = io_all (map (\<lambda>(k, p). io_all [session_close p, delete_session p]) m)"

definition delete_service :: "('a net_scheme, unit) io" where
  "delete_service = io_bind uv_loop_close (\<lambda>_. io_all
     [io_modify (\<lambda>w. w\<lparr>m_handler := False, m_shutdown := True, m_init := False\<rparr>),
      io_bind (io_get m_tcp) tcp_close,
      io_bind (io_get m_udp) udp_close,
      io_bind (io_get m_tcp) delete_tcp_server,
      io_bind (io_get m_udp) delete_udp_server,
      io_modify (\<lambda>w. w\<lparr>m_tcp := 0, m_udp := 0\<rparr>),
      io_bind (io_get m_sessions) delete_each,
      io_bind (io_get m_connections) delete_each,
      io_modify (\<lambda>w. w\<lparr>m_connections := []\<rparr>)])"

end
