(* ===== verification/Uv_Frame.thy ===== *)
theory Uv_Frame
  imports Uv_Loop
begin

text \<open>
  libuv works on its own part of the state only.  An invariant of the rest and
  of the bound of the allocated addresses is kept by every function of libuv,
  provided the callbacks keep it; the locale \<open>uv_client\<close> proves this once for
  all invariants and all failures.
\<close>

locale uv_client =
  fixes I :: "'a uv_scheme \<Rightarrow> bool"
  assumes only_more: "uv.more w = uv.more w' \<Longrightarrow> next_ptr w \<le> next_ptr w' \<Longrightarrow> I w \<Longrightarrow> I w'"
begin

abbreviation ok :: "('a uv_scheme, 'b) io \<Rightarrow> bool" where
  "ok m \<equiv> keeps_inv I m (\<lambda>_. True)"

lemma ok_modify:
  "(\<And>w. uv.more (f w) = uv.more w) \<Longrightarrow> (\<And>w. next_ptr w \<le> next_ptr (f w)) \<Longrightarrow> ok (io_modify f)"
  by (rule keeps_inv_modify) (metis only_more)

lemma ok_prim [io_rules]:
  "ok sys_call" "ok (get_handle p)" "ok (mem_block p)" "ok (malloc n)" "ok (mem_free p)"
  using only_more
  by (fastforce simp: keeps_inv_def triple_def sys_call_def get_handle_def mem_block_def malloc_def
      mem_free_def Let_def split: option.splits)+

lemma ok_base [io_rules]:
  "ok sys_ignore" "ok sys_code" "ok (upd_handle p f)" "ok (mem_write q xs)" "ok (mem_zero q n)"
  "ok (mem_read q i n)" "ok uv__active_handle_add" "ok uv__active_handle_rm"
  by (auto simp: sys_ignore_def sys_code_def upd_handle_def mem_write_def mem_zero_def mem_read_def
      uv__active_handle_add_def uv__active_handle_rm_def intro!: io_rules ok_modify)

lemma ok_handle [io_rules]:
  "ok (uv__handle_start p)" "ok (uv__handle_stop p)" "ok (uv_want_endgame p)"
  "ok (uv__handle_closing p)" "ok (uv__handle_init p t)" "ok (count_req p)"
  by (auto simp: uv__handle_start_def uv__handle_stop_def uv_want_endgame_def uv__handle_closing_def
      uv__handle_init_def count_req_def intro!: io_rules ok_modify)

lemma ok_count [io_rules]:
  "ok (DECREASE_ACTIVE_COUNT p)" "ok (INCREASE_ACTIVE_COUNT p)" "ok (DECREASE_PENDING_REQ_COUNT p)"
  by (auto simp: DECREASE_ACTIVE_COUNT_def INCREASE_ACTIVE_COUNT_def DECREASE_PENDING_REQ_COUNT_def
      intro!: io_rules ok_modify)

lemma ok_req [io_rules]:
  "ok (touch_req r)" "ok (kernel_queue r)"
  by (auto simp: touch_req_def kernel_queue_def split: option.splits intro!: io_rules ok_modify)

lemma ok_req' [io_rules]:
  "ok (upd_req r f)" "ok (uv_insert_pending_req r)" "ok (REGISTER_HANDLE_REQ p r)"
  "ok (UNREGISTER_HANDLE_REQ p r)"
  by (auto simp: upd_req_def uv_insert_pending_req_def REGISTER_HANDLE_REQ_def UNREGISTER_HANDLE_REQ_def
      intro!: io_rules ok_modify)

lemma ok_realloc [io_rules]: "ok (mem_realloc p n)"
  by (auto simp: mem_realloc_def intro!: io_rules ok_modify)

section \<open>TCP\<close>

lemma ok_socket [io_rules]:
  "ok (tcp_set_bypass p)" "ok uv__tcp_nodelay" "ok (uv__tcp_keepalive b)"
  "ok (uv_stream_init p t)" "ok (uv_connection_init p)" "ok (set_accept_socket p i s)"
  by (auto simp: tcp_set_bypass_def uv__tcp_nodelay_def uv__tcp_keepalive_def uv_stream_init_def
      uv_connection_init_def set_accept_socket_def intro!: io_rules ok_modify)

lemma ok_set_socket [io_rules]: "ok (uv_tcp_set_socket p s f)"
  by (auto simp: uv_tcp_set_socket_def intro!: io_rules ok_modify)

lemma ok_try_bind [io_rules]: "ok (uv_tcp_try_bind p addr b)"
  by (auto simp: uv_tcp_try_bind_def intro!: io_rules ok_modify)

lemma ok_init [io_rules]: "ok (uv_tcp_init p)" "ok (uv_tcp_bind p addr)"
  by (auto simp: uv_tcp_init_def uv_tcp_init_ex_def uv_tcp_bind_def uv__tcp_bind_def Let_def
      intro!: io_rules ok_modify)

lemma ok_queue [io_rules]: "ok (uv_tcp_queue_accept p i)" "ok (uv_tcp_queue_read p)"
  by (auto simp: uv_tcp_queue_accept_def uv_tcp_queue_read_def intro!: io_rules ok_modify)

lemma ok_listen [io_rules]: "ok (uv_tcp_listen p n)" "ok (uv_tcp_accept p q)" "ok (uv_tcp_read_start p a r)"
  by (auto simp: uv_tcp_listen_def uv_tcp_accept_def uv_tcp_read_start_def intro!: io_rules ok_modify
      split: list.splits option.splits)

lemma ok_connect [io_rules]: "ok (uv_tcp_connect p addr)" "ok (uv_tcp_getsockname p n)"
  by (auto simp: uv_tcp_connect_def uv__tcp_connect_def uv_tcp_try_connect_def uv_tcp_getsockname_def
      intro!: io_rules ok_modify)

lemma ok_write [io_rules]: "ok (uv_tcp_write s p buf)"
  by (auto simp: uv_tcp_write_def intro!: io_rules ok_modify)

lemma ok_close [io_rules]: "ok (uv_tcp_close p)" "ok (uv_tcp_nodelay p b)" "ok (uv_tcp_keepalive p b)"
  by (auto simp: uv_tcp_close_def uv_tcp_nodelay_def uv_tcp_keepalive_def intro!: io_rules ok_modify)

section \<open>UDP\<close>

lemma ok_udp_socket [io_rules]: "ok (udp_set_bypass p)"
  by (auto simp: udp_set_bypass_def intro!: io_rules ok_modify)

lemma ok_udp_socket' [io_rules]: "ok (uv_udp_set_socket p s f)"
  by (auto simp: uv_udp_set_socket_def intro!: io_rules ok_modify)

lemma ok_udp_bind [io_rules]: "ok (uv_udp_init p)" "ok (uv_udp_maybe_bind p addr)"
  by (auto simp: uv_udp_init_def uv_udp_init_ex_def uv_udp_maybe_bind_def Let_def intro!: io_rules ok_modify)

lemma ok_udp_recv [io_rules]: "ok (uv_udp_bind p addr)" "ok (uv_udp_queue_recv p)" "ok (uv_udp_recv_stop p)"
  by (auto simp: uv_udp_bind_def uv__udp_bind_def uv_udp_queue_recv_def uv_udp_recv_stop_def
      uv__udp_recv_stop_def intro!: io_rules ok_modify)

lemma ok_udp [io_rules]:
  "ok (uv_udp_recv_start p a)" "ok (uv_udp_close p)" "ok (uv_udp_set_broadcast p)"
  by (auto simp: uv_udp_recv_start_def uv__udp_recv_start_def uv_udp_close_def uv_udp_set_broadcast_def
      intro!: io_rules ok_modify)

lemma ok_udp_send [io_rules]: "ok (uv_udp_send p buf addr)"
  by (auto simp: uv_udp_send_def uv__udp_send_def uv__send_def intro!: io_rules ok_modify)

section \<open>Streams and handles\<close>

lemma ok_stream [io_rules]:
  "ok (uv_listen p n)" "ok (uv_accept p q)" "ok (uv_read_start p a r)" "ok (uv_read_stop p)"
  "ok (uv_write s p buf)" "ok (uv_is_active p)" "ok (uv_close p cb)" "ok uv_poll" "ok uv_loop_close"
  by (auto simp: uv_listen_def uv_accept_def uv_read_start_def uv_read_stop_def uv_write_def
      uv_is_active_def uv_close_def uv_poll_def complete_req_def uv_loop_close_def
      intro!: io_rules ok_modify split: uv_handle_type.splits prod.splits)

section \<open>The loop\<close>

definition callbacks_ok :: "'a uv_scheme callbacks \<Rightarrow> bool" where
  "callbacks_ok C \<longleftrightarrow>
     (\<forall>cb p. ok (cb_alloc C cb p)) \<and> (\<forall>cb p n b. ok (cb_read C cb p n b)) \<and>
     (\<forall>p s. ok (cb_connection C p s)) \<and> (\<forall>s e. ok (cb_write C s e)) \<and>
     (\<forall>e. ok (cb_connect C e)) \<and> (\<forall>cb p. ok (cb_close C cb p)) \<and>
     (\<forall>p n b a. ok (cb_recv C p n b a)) \<and> (\<forall>s e. ok (cb_send C s e))"

lemma callbacks_okD:
  assumes "callbacks_ok C"
  shows "ok (cb_alloc C acb p)" "ok (cb_read C rcb p n b)" "ok (cb_connection C p e)"
    "ok (cb_write C p e)" "ok (cb_connect C e)" "ok (cb_close C ccb p)" "ok (cb_recv C p n b a)"
    "ok (cb_send C p e)"
  using assms by (auto simp: callbacks_ok_def)

lemma ok_call:
  assumes "callbacks_ok C"
  shows "ok (call_alloc C p)" "ok (call_read C p n b)"
  using callbacks_okD [OF assms]
  by (auto simp: call_alloc_def call_read_def intro!: io_rules ok_modify split: option.splits)

lemma ok_read_loop: "callbacks_ok C \<Longrightarrow> ok (tcp_read_loop n C p)"
  by (induction n) (auto simp: Let_def ok_call intro!: io_rules ok_modify)

lemma ok_process:
  assumes "callbacks_ok C"
  shows "ok (uv_process_tcp_read_req n C p)" "ok (uv_process_tcp_write_req C p)"
    "ok (uv_process_tcp_accept_req C p i)" "ok (uv_process_tcp_connect_req C)"
    "ok (uv_process_udp_recv_req C p)" "ok (uv_process_udp_send_req C p)"
  using callbacks_okD [OF assms] ok_call [OF assms] ok_read_loop [OF assms]
  by (auto simp: uv_process_tcp_read_req_def uv_process_tcp_write_req_def uv_process_tcp_accept_req_def
      uv_process_tcp_connect_req_def uv_process_udp_recv_req_def uv_process_udp_send_req_def Let_def
      intro!: io_rules ok_modify split: option.splits)

lemma ok_process_req: "callbacks_ok C \<Longrightarrow> ok (uv_process_req n C r)"
  using ok_process [of C] by (auto simp: uv_process_req_def intro!: io_rules ok_modify split: request.splits)

lemma ok_process_reqs: "callbacks_ok C \<Longrightarrow> ok (uv_process_reqs n C)"
  using ok_process_req [of C] by (auto simp: uv_process_reqs_def intro!: io_rules ok_modify)

lemma ok_endgame: "callbacks_ok C \<Longrightarrow> ok (uv_tcp_endgame C p) \<and> ok (uv_udp_endgame C p)"
  using callbacks_okD [of C]
  by (auto simp: uv_tcp_endgame_def uv_udp_endgame_def uv__handle_close_def intro!: io_rules ok_modify
      split: option.splits)

lemma ok_process_endgames: "callbacks_ok C \<Longrightarrow> ok (uv_process_endgames n C)"
  by (induction n)
    (auto simp: ok_endgame intro!: io_rules ok_modify split: list.splits uv_handle_type.splits)

lemma ok_run: "callbacks_ok C \<Longrightarrow> ok (uv_run_nowait n C)"
  using ok_process_reqs [of C n] ok_process_endgames [of C n]
  by (auto simp: uv_run_nowait_def intro!: io_rules ok_modify)

end

end
