(* ===== verification/Net_Table.thy ===== *)
theory Net_Table
  imports Net_Service Uv_Frame
begin

text \<open>
  The session table of the service: \<^verbatim>\<open>m_sessions\<close> holds live sessions only, each
  under its id.  The invariant is kept by every callback, by the event loop and
  by the functions an application calls, whatever the system answers; so
  \<^verbatim>\<open>getsession\<close>, which reads through every pointer of the table, never touches
  freed storage and finds exactly the entry of the id.
\<close>

section \<open>The invariant\<close>

abbreviation ptrs :: "(int, ptr) std_map \<Rightarrow> ptr set" where
  "ptrs m \<equiv> snd ` set m"

text \<open>The id of the live session at an address.\<close>

definition id_at :: "'a net_scheme \<Rightarrow> ptr \<Rightarrow> int option" where
  "id_at w p = map_option s_id (sessions w p)"

text \<open>\<open>D\<close> are addresses known not to be in the table (any more): sessions about to be
  deleted.\<close>

definition table_inv :: "ptr set \<Rightarrow> 'a net_scheme \<Rightarrow> bool" where
  "table_inv D w \<longleftrightarrow>
     map_sorted (m_sessions w) \<and>
     (\<forall>k p. (k, p) \<in> set (m_sessions w) \<longrightarrow> p \<noteq> 0 \<and> id_at w p = Some k) \<and>
     (\<forall>p k. id_at w p = Some k \<longrightarrow> p < next_ptr w) \<and>
     ptrs (m_sessions w) \<inter> (ptrs (m_connections w) \<union> {m_connect_data w} \<union> D) = {} \<and>
     (\<forall>p \<in> ptrs (m_connections w) \<union> {m_connect_data w} \<union> D. p < next_ptr w)"

lemma table_invD:
  assumes "table_inv D w"
  shows "map_sorted (m_sessions w)"
    and "(k, p) \<in> set (m_sessions w) \<Longrightarrow> p \<noteq> 0 \<and> id_at w p = Some k"
    and "id_at w p = Some k \<Longrightarrow> p < next_ptr w"
    and "ptrs (m_sessions w) \<inter> (ptrs (m_connections w) \<union> {m_connect_data w} \<union> D) = {}"
    and "q \<in> ptrs (m_connections w) \<union> {m_connect_data w} \<union> D \<Longrightarrow> q < next_ptr w"
  using assms unfolding table_inv_def by blast+

lemma table_invI:
  assumes "map_sorted (m_sessions w)"
    and "\<And>k p. (k, p) \<in> set (m_sessions w) \<Longrightarrow> p \<noteq> 0 \<and> id_at w p = Some k"
    and "\<And>p k. id_at w p = Some k \<Longrightarrow> p < next_ptr w"
    and "ptrs (m_sessions w) \<inter> (ptrs (m_connections w) \<union> {m_connect_data w} \<union> D) = {}"
    and "\<And>q. q \<in> ptrs (m_connections w) \<union> {m_connect_data w} \<union> D \<Longrightarrow> q < next_ptr w"
  shows "table_inv D w"
  unfolding table_inv_def using assms by (intro conjI) blast+

text \<open>A session that is in no table and of no connect request.\<close>

definition fresh_inv :: "ptr set \<Rightarrow> ptr \<Rightarrow> 'a net_scheme \<Rightarrow> bool" where
  "fresh_inv D p w \<longleftrightarrow> table_inv (insert p D) w \<and> p \<noteq> 0 \<and> id_at w p \<noteq> None \<and>
     p \<notin> ptrs (m_connections w) \<union> {m_connect_data w} \<union> D"

text \<open>A session found in the table under its id.\<close>

definition found_inv :: "ptr set \<Rightarrow> int \<Rightarrow> ptr \<Rightarrow> 'a net_scheme \<Rightarrow> bool" where
  "found_inv D i p w \<longleftrightarrow> table_inv D w \<and> map_find (m_sessions w) i = Some p"

lemma net_more_eq:
  assumes "uv.more w = uv.more (w' :: 'a net_scheme)"
  shows "id_at w = id_at w'" "m_sessions w = m_sessions w'" "m_connections w = m_connections w'"
    "m_connect_data w = m_connect_data w'"
  using assms by (cases w; cases w'; simp add: id_at_def fun_eq_iff)+

lemma table_inv_cong:
  assumes eq: "id_at w = id_at w'" "m_sessions w = m_sessions w'" "m_connections w = m_connections w'"
      "m_connect_data w = m_connect_data w'"
    and le: "next_ptr w \<le> next_ptr w'" and inv: "table_inv D w"
  shows "table_inv D w'"
proof -
  have "q < next_ptr w \<Longrightarrow> q < next_ptr w'" for q using le by simp
  then show ?thesis using inv unfolding table_inv_def eq by blast
qed

lemma table_inv_more:
  "uv.more w = uv.more w' \<Longrightarrow> next_ptr w \<le> next_ptr w' \<Longrightarrow> table_inv D w \<Longrightarrow> table_inv D w'"
  by (rule table_inv_cong [OF net_more_eq])

interpretation tab: uv_client "table_inv D" for D
  by unfold_locales (rule table_inv_more)

lemma fresh_inv_more:
  assumes "uv.more w = uv.more w'" and "next_ptr w \<le> next_ptr w'" and "fresh_inv D p w"
  shows "fresh_inv D p w'"
  using assms(3) table_inv_more [OF assms(1,2)] net_more_eq [OF assms(1)] by (simp add: fresh_inv_def)

interpretation fresh: uv_client "fresh_inv D p" for D p
  by unfold_locales (rule fresh_inv_more)

lemma found_inv_more:
  assumes "uv.more w = uv.more w'" and "next_ptr w \<le> next_ptr w'" and "found_inv D i p w"
  shows "found_inv D i p w'"
  using assms(3) table_inv_more [OF assms(1,2)] net_more_eq [OF assms(1)] by (simp add: found_inv_def)

interpretation found: uv_client "found_inv D i p" for D i p
  by unfold_locales (rule found_inv_more)

section \<open>Sessions\<close>

abbreviation tab_ok :: "ptr set \<Rightarrow> ('a net_scheme, 'b) io \<Rightarrow> bool" where
  "tab_ok D m \<equiv> keeps_inv (table_inv D) m (\<lambda>_. True)"

text \<open>Changes outside of the table.\<close>

lemma tab_modify:
  assumes "\<And>w. sessions (f w) = sessions w" and "\<And>w. m_sessions (f w) = m_sessions w"
    and "\<And>w. m_connections (f w) = m_connections w" and "\<And>w. m_connect_data (f w) = m_connect_data w"
    and "\<And>w. next_ptr w \<le> next_ptr (f w)"
  shows "tab_ok D (io_modify f)"
  by (rule keeps_inv_modify, rule table_inv_cong) (use assms in \<open>auto simp: id_at_def fun_eq_iff\<close>)

lemma tab_alloc_object:
  assumes "\<And>w. sessions (f w) = sessions w" and "\<And>w. m_sessions (f w) = m_sessions w"
    and "\<And>w. m_connections (f w) = m_connections w" and "\<And>w. m_connect_data (f w) = m_connect_data w"
    and "\<And>w. next_ptr w \<le> next_ptr (f w)"
  shows "tab_ok D (\<lambda>w. Inr (g w, f w))"
  using tab_modify [OF assms] by (simp add: keeps_inv_def triple_def)

lemma tab_get [io_rules]: "tab_ok D (get_session p)" "tab_ok D (get_tcp p)" "tab_ok D (get_udp p)"
  by (auto simp: keeps_inv_def triple_def get_session_def get_tcp_def get_udp_def split: option.splits)

lemma fresh_get [io_rules]: "keeps_inv (fresh_inv D q) (get_session p) (\<lambda>_. True)"
  by (auto simp: keeps_inv_def triple_def get_session_def split: option.splits)

lemma id_at_update:
  "sessions w p = Some s \<Longrightarrow> s_id s' = s_id s \<Longrightarrow> id_at (w\<lparr>sessions := (sessions w)(p \<mapsto> s')\<rparr>) = id_at w"
  by (auto simp: id_at_def)

lemma tab_upd_session:
  assumes "\<And>s. s_id (f s) = s_id s"
  shows "tab_ok D (upd_session p f)"
  unfolding keeps_inv_def
proof (rule tripleI)
  fix w :: "'a net_scheme"
  assume inv: "table_inv D w"
  show "case upd_session p f w of Inl e \<Rightarrow> True | Inr (x, w') \<Rightarrow> table_inv D w'"
  proof (cases "sessions w p")
    case None
    then show ?thesis by (simp add: upd_session_def get_session_def)
  next
    case (Some s)
    have "table_inv D (w\<lparr>sessions := (sessions w)(p \<mapsto> f s)\<rparr>)"
      by (rule table_inv_cong [OF _ _ _ _ _ inv]) (simp_all add: id_at_update [OF Some assms])
    then show ?thesis using Some by (simp add: upd_session_def get_session_def)
  qed
qed

lemma tab_upd [io_rules]: "tab_ok D (upd_tcp p f)" "tab_ok D (upd_udp p g)"
  by (auto simp: upd_tcp_def upd_udp_def intro!: io_rules tab_modify)

lemma tab_packet [io_rules]:
  "tab_ok D (safe_free p)" "tab_ok D (packet_clear p)" "tab_ok D (packet_bodylength p)"
  by (auto simp: safe_free_def packet_clear_def packet_bodylength_def intro!: io_rules)

lemma tab_receive [io_rules]: "tab_ok D (receive_head p)" "tab_ok D (receive_body p)"
  "tab_ok D (session_receive p)"
  by (auto simp: receive_head_def receive_body_def session_receive_def packet_receive_def intro!: io_rules)

lemma tab_alloc [io_rules]: "tab_ok D (on_alloc_head p)" "tab_ok D (on_alloc_body p)"
  "tab_ok D (on_alloc_buffer p)"
  by (auto simp: on_alloc_head_def on_alloc_body_def on_alloc_buffer_def Let_def
      intro!: io_rules tab_upd_session)

lemma tab_session_close [io_rules]: "tab_ok D (session_close p)"
  by (auto simp: session_close_def session_is_active_def intro!: io_rules)

lemma found_session_close [io_rules]: "keeps_inv (found_inv D i q) (session_close p) (\<lambda>_. True)"
  by (auto simp: session_close_def session_is_active_def intro!: io_rules)

lemma tab_free_handle [io_rules]: "tab_ok D (free_handle p)"
  by (auto simp: free_handle_def intro!: io_rules)

lemma tab_delete_session: "triple (table_inv (insert p D)) (delete_session p) (\<lambda>_. table_inv D) (\<lambda>_. True)"
proof -
  have drop: "table_inv D (w\<lparr>sessions := (sessions w)(p := None), handles := hs\<rparr>)"
    if "table_inv (insert p D) w" for w :: "'a net_scheme" and hs
  proof (rule table_invI)
    note D = table_invD [OF that]
    show "p' \<noteq> 0 \<and> id_at (w\<lparr>sessions := (sessions w)(p := None), handles := hs\<rparr>) p' = Some k"
      if "(k, p') \<in> set (m_sessions (w\<lparr>sessions := (sessions w)(p := None), handles := hs\<rparr>))" for k p'
    proof -
      have "p' \<noteq> p" using that D(4) by force
      then show ?thesis using D(2) [of k p'] that by (simp add: id_at_def)
    qed
  qed (use table_invD [OF that] in \<open>auto simp: id_at_def split: if_splits\<close>)
  have frees: "tab_ok (insert p D) (io_bind (get_session p) (\<lambda>s. io_all
        [safe_free (buf_base (s_readbuf s)), safe_free (buf_base (s_writebuf s)),
         safe_free (buf_base (p_head s)), safe_free (buf_base (p_body s))]))"
    by (auto intro!: io_rules)
  show ?thesis
    unfolding delete_session_def session_is_active_def
    by (rule triple_keep, rule tab.ok_stream, rule triple_all_keep, rule keeps_inv_when,
        rule tab_session_close, rule triple_all_keep, rule frees, rule triple_all_last, rule triple_modify,
        erule drop)
qed

section \<open>The table\<close>

lemma find_session_eq:
  assumes "\<And>k p. (k, p) \<in> set m \<Longrightarrow> \<exists>s. sessions w p = Some s \<and> s_id s = k"
  shows "find_session i m w = Inr ((case map_find m i of None \<Rightarrow> 0 | Some p \<Rightarrow> p), w)"
  using assms
proof (induction m)
  case Nil
  then show ?case by simp
next
  case (Cons e m)
  obtain k p where e: "e = (k, p)" by (cases e)
  obtain s where "sessions w p = Some s" "s_id s = k" using Cons.prems e by fastforce
  then show ?case using Cons e by (auto simp: get_session_def)
qed

lemma getsession_eq:
  assumes "table_inv D w"
  shows "getsession i w = Inr ((case map_find (m_sessions w) i of None \<Rightarrow> 0 | Some p \<Rightarrow> p), w)"
proof -
  have "\<exists>s. sessions w p = Some s \<and> s_id s = k" if "(k, p) \<in> set (m_sessions w)" for k p
    using table_invD(2) [OF assms that] by (auto simp: id_at_def)
  then show ?thesis by (simp add: getsession_def find_session_eq)
qed

lemma found_erase:
  assumes "found_inv D i p w"
  shows "table_inv (insert p D) (w\<lparr>m_sessions := map_erase i (m_sessions w)\<rparr>)"
proof -
  have inv: "table_inv D w" and f: "map_find (m_sessions w) i = Some p"
    using assms by (auto simp: found_inv_def)
  note D = table_invD [OF inv]
  have ip: "(i, p) \<in> set (m_sessions w)" using f by (rule map_find_in_set)
  then have s: "id_at w p = Some i" using D(2) by blast
  have sorted': "map_sorted (map_erase i (m_sessions w))" by (rule smap.inv_erase [OF D(1)])
  have sub: "(k, q) \<in> set (m_sessions w) \<and> k \<noteq> i" if "(k, q) \<in> set (map_erase i (m_sessions w))" for k q
  proof -
    have "map_find (map_erase i (m_sessions w)) k = Some q"
      using that by (simp add: map_find_set_iff [OF sorted'])
    then show ?thesis
      by (simp add: smap.find_erase [OF D(1)] map_find_set_iff [OF D(1)] split: if_splits)
  qed
  have ne: "q \<noteq> p" if "(k, q) \<in> set (map_erase i (m_sessions w))" for k q
    using sub [OF that] D(2) [of k q] s by auto
  have "ptrs (map_erase i (m_sessions w)) \<subseteq> ptrs (m_sessions w) - {p}" using sub ne by force
  then have disj: "ptrs (map_erase i (m_sessions w)) \<inter>
      (ptrs (m_connections w) \<union> {m_connect_data w} \<union> insert p D) = {}"
    using D(4) by blast
  have id: "id_at (w\<lparr>m_sessions := m\<rparr>) = id_at w" for m by (simp add: id_at_def fun_eq_iff)
  show ?thesis
  proof (rule table_invI, unfold id)
    show "q \<noteq> 0 \<and> id_at w q = Some k"
      if "(k, q) \<in> set (m_sessions (w\<lparr>m_sessions := map_erase i (m_sessions w)\<rparr>))" for k q
      using sub [of k q] that D(2) [of k q] by simp
    show "q < next_ptr (w\<lparr>m_sessions := map_erase i (m_sessions w)\<rparr>)" if "id_at w q = Some k" for q k
      using D(3) that by simp
    show "q < next_ptr (w\<lparr>m_sessions := map_erase i (m_sessions w)\<rparr>)"
      if "q \<in> ptrs (m_connections (w\<lparr>m_sessions := map_erase i (m_sessions w)\<rparr>)) \<union>
        {m_connect_data (w\<lparr>m_sessions := map_erase i (m_sessions w)\<rparr>)} \<union> insert p D" for q
      using that D(5) [of q] D(3) [OF s] by auto
  qed (use sorted' disj in simp_all)
qed

lemma id_at_keep: "sessions w = sessions w' \<Longrightarrow> id_at w = id_at w'"
  by (simp add: id_at_def fun_eq_iff)

text \<open>A new session gets an address beyond all those in use.\<close>

lemma new_session_result:
  obtains s w' where "new_session b w = Inr (next_ptr w, w')" and "m_sessions w' = m_sessions w"
    and "m_connections w' = m_connections w" and "m_connect_data w' = m_connect_data w"
    and "next_ptr w < next_ptr w'" and "sessions w' = (sessions w)(next_ptr w \<mapsto> s)"
  by (simp add: new_session_def generateid_def malloc_def Let_def)

lemma fresh_new_session: "triple (table_inv D) (new_session b) (fresh_inv D) (\<lambda>_. True)"
proof (rule tripleI)
  fix w :: "'a net_scheme"
  assume inv: "table_inv D w"
  note D = table_invD [OF inv]
  define p where p: "p = next_ptr w"
  obtain s w' where run: "new_session b w = Inr (p, w')" and s: "sessions w' = (sessions w)(p \<mapsto> s)"
    and w': "m_sessions w' = m_sessions w" "m_connections w' = m_connections w"
      "m_connect_data w' = m_connect_data w" "next_ptr w < next_ptr w'"
    unfolding p by (rule new_session_result)
  have id: "id_at w' q = (if q = p then id_at w' p else id_at w q)" "id_at w' p \<noteq> None" for q
    using s by (auto simp: id_at_def)
  have lt: "q < p" if "q \<in> ptrs (m_sessions w) \<union> ptrs (m_connections w) \<union> {m_connect_data w} \<union> D" for q
  proof (cases "q \<in> ptrs (m_sessions w)")
    case True
    then obtain k where "(k, q) \<in> set (m_sessions w)" by auto
    then have "id_at w q = Some k" using D(2) by blast
    then show ?thesis unfolding p by (rule D(3))
  next
    case False
    then show ?thesis using that D(5) [of q] p by blast
  qed
  have "table_inv (insert p D) w'"
  proof (rule table_invI)
    show "q \<noteq> 0 \<and> id_at w' q = Some k" if "(k, q) \<in> set (m_sessions w')" for k q
      using D(2) [of k q] lt [of q] that id(1) [of q] w' by force
    show "q < next_ptr w'" if "id_at w' q = Some k" for q k
      using that D(3) [of q k] id(1) [of q] w'(4) p by (auto split: if_splits)
    show "q < next_ptr w'" if "q \<in> ptrs (m_connections w') \<union> {m_connect_data w'} \<union> insert p D" for q
    proof (cases "q = p")
      case False
      then have "q < next_ptr w" using that D(5) [of q] unfolding w' by blast
      then show ?thesis using w'(4) by simp
    qed (use w'(4) p in simp)
    show "ptrs (m_sessions w') \<inter> (ptrs (m_connections w') \<union> {m_connect_data w'} \<union> insert p D) = {}"
    proof -
      have "p \<notin> ptrs (m_sessions w)" using lt [of p] by auto
      then show ?thesis using D(4) unfolding w' by blast
    qed
  qed (use D(1) w' in simp)
  moreover have "p \<notin> ptrs (m_connections w') \<union> {m_connect_data w'} \<union> D" using lt [of p] w' by auto
  moreover have "p \<noteq> 0" using lt [of "m_connect_data w"] by simp
  ultimately show "case new_session b w of Inl e \<Rightarrow> True | Inr (x, w') \<Rightarrow> fresh_inv D x w'"
    using run id(2) by (simp add: fresh_inv_def)
qed

lemma fresh_tab: "fresh_inv D p w \<Longrightarrow> table_inv (insert p D) w"
  by (simp add: fresh_inv_def)

lemma tab_mono:
  assumes "table_inv D w" and "D' \<subseteq> D"
  shows "table_inv D' w"
proof (rule table_invI)
  show "ptrs (m_sessions w) \<inter> (ptrs (m_connections w) \<union> {m_connect_data w} \<union> D') = {}"
    using table_invD(4) [OF assms(1)] assms(2) by blast
  show "q < next_ptr w" if "q \<in> ptrs (m_connections w) \<union> {m_connect_data w} \<union> D'" for q
    using table_invD(5) [OF assms(1), of q] assms(2) that by blast
qed (use table_invD [OF assms(1)] in simp_all)

lemma tab_less: "table_inv (insert p D) w \<Longrightarrow> table_inv D w"
  by (erule tab_mono) blast

lemma fresh_tab': "fresh_inv D p w \<Longrightarrow> table_inv D w"
  by (erule tab_mono [OF fresh_tab]) blast

text \<open>Entering a fresh session into the table.\<close>

lemma fresh_insert:
  assumes "fresh_inv D p w" and "id_at w p = Some k" and "map_find (m_sessions w) k = None"
  shows "table_inv D (w\<lparr>m_sessions := map_insert k p (m_sessions w)\<rparr>)"
proof -
  note D = table_invD [OF fresh_tab' [OF assms(1)]]
  have sorted': "map_sorted (map_insert k p (m_sessions w))" by (rule smap.inv_insert [OF D(1)])
  have sub: "(j, q) \<in> set (m_sessions w) \<or> (j, q) = (k, p)"
    if "(j, q) \<in> set (map_insert k p (m_sessions w))" for j q
  proof -
    have "map_find (map_insert k p (m_sessions w)) j = Some q"
      using that by (simp add: map_find_set_iff [OF sorted'])
    then show ?thesis
      by (auto simp: smap.find_insert [OF D(1)] map_find_set_iff [OF D(1)] assms(3) split: if_splits)
  qed
  have id: "id_at (w\<lparr>m_sessions := m\<rparr>) = id_at w" for m by (rule id_at_keep) simp
  have "p \<noteq> 0" "p \<notin> ptrs (m_connections w) \<union> {m_connect_data w} \<union> D"
    using assms(1) by (auto simp: fresh_inv_def)
  moreover have "ptrs (map_insert k p (m_sessions w)) \<subseteq> insert p (ptrs (m_sessions w))" using sub by force
  ultimately have disj: "ptrs (map_insert k p (m_sessions w)) \<inter>
      (ptrs (m_connections w) \<union> {m_connect_data w} \<union> D) = {}"
    using D(4) by blast
  show ?thesis
  proof (rule table_invI, unfold id)
    show "q \<noteq> 0 \<and> id_at w q = Some j"
      if "(j, q) \<in> set (m_sessions (w\<lparr>m_sessions := map_insert k p (m_sessions w)\<rparr>))" for j q
      using sub [of j q] that D(2) [of j q] assms(2) \<open>p \<noteq> 0\<close> by auto
  qed (use D(3,5) sorted' disj in simp_all)
qed

lemma tab_insert_connection:
  assumes "table_inv (insert p D) w"
  shows "table_inv D (w\<lparr>m_connections := map_insert k p (m_connections w)\<rparr>)"
proof -
  note D = table_invD [OF assms]
  have sub: "ptrs (map_insert k p m) \<subseteq> insert p (ptrs m)" for m
    by (induction k p m rule: map_insert.induct) auto
  have id: "id_at (w\<lparr>m_connections := m\<rparr>) = id_at w" for m by (rule id_at_keep) simp
  show ?thesis
  proof (rule table_invI, unfold id)
    show "ptrs (m_sessions (w\<lparr>m_connections := map_insert k p (m_connections w)\<rparr>)) \<inter>
       (ptrs (m_connections (w\<lparr>m_connections := map_insert k p (m_connections w)\<rparr>)) \<union>
        {m_connect_data (w\<lparr>m_connections := map_insert k p (m_connections w)\<rparr>)} \<union> D) = {}"
      using D(4) sub [of "m_connections w"] by simp blast
    show "q < next_ptr (w\<lparr>m_connections := map_insert k p (m_connections w)\<rparr>)"
      if "q \<in> ptrs (m_connections (w\<lparr>m_connections := map_insert k p (m_connections w)\<rparr>)) \<union>
        {m_connect_data (w\<lparr>m_connections := map_insert k p (m_connections w)\<rparr>)} \<union> D" for q
      using D(5) [of q] sub [of "m_connections w"] that by simp blast
  qed (use D(1-3) in simp_all)
qed

lemma tab_erase_connection:
  assumes "table_inv D w"
  shows "table_inv D (w\<lparr>m_connections := map_erase k (m_connections w)\<rparr>)"
proof -
  note D = table_invD [OF assms]
  have sub: "ptrs (map_erase k m) \<subseteq> ptrs m" for m :: "(int, ptr) std_map"
    by (induction k m rule: map_erase.induct) auto
  have id: "id_at (w\<lparr>m_connections := m\<rparr>) = id_at w" for m by (rule id_at_keep) simp
  show ?thesis
  proof (rule table_invI, unfold id)
    show "ptrs (m_sessions (w\<lparr>m_connections := map_erase k (m_connections w)\<rparr>)) \<inter>
       (ptrs (m_connections (w\<lparr>m_connections := map_erase k (m_connections w)\<rparr>)) \<union>
        {m_connect_data (w\<lparr>m_connections := map_erase k (m_connections w)\<rparr>)} \<union> D) = {}"
      using D(4) sub [of "m_connections w"] by simp blast
    show "q < next_ptr (w\<lparr>m_connections := map_erase k (m_connections w)\<rparr>)"
      if "q \<in> ptrs (m_connections (w\<lparr>m_connections := map_erase k (m_connections w)\<rparr>)) \<union>
        {m_connect_data (w\<lparr>m_connections := map_erase k (m_connections w)\<rparr>)} \<union> D" for q
      using D(5) [of q] sub [of "m_connections w"] that by simp blast
  qed (use D(1-3) in simp_all)
qed

lemma tab_connect_data:
  assumes "table_inv (insert p D) w"
  shows "table_inv D (w\<lparr>m_connect_data := p\<rparr>)"
proof -
  note D = table_invD [OF assms]
  have id: "id_at (w\<lparr>m_connect_data := q\<rparr>) = id_at w" for q by (rule id_at_keep) simp
  show ?thesis
  proof (rule table_invI, unfold id)
    show "ptrs (m_sessions (w\<lparr>m_connect_data := p\<rparr>)) \<inter> (ptrs (m_connections (w\<lparr>m_connect_data := p\<rparr>)) \<union>
        {m_connect_data (w\<lparr>m_connect_data := p\<rparr>)} \<union> D) = {}"
      using D(4) by simp
    show "q < next_ptr (w\<lparr>m_connect_data := p\<rparr>)" if "q \<in> ptrs (m_connections (w\<lparr>m_connect_data := p\<rparr>)) \<union>
        {m_connect_data (w\<lparr>m_connect_data := p\<rparr>)} \<union> D" for q
      using D(5) [of q] that by simp blast
  qed (use D(1-3) in simp_all)
qed

text \<open>Addresses known to the connections may be added to the detached ones.\<close>

lemma tab_detached:
  assumes "table_inv D w" and "p \<in> ptrs (m_connections w) \<union> {m_connect_data w}"
  shows "table_inv (insert p D) w"
proof (rule table_invI)
  note D = table_invD [OF assms(1)]
  show "ptrs (m_sessions w) \<inter> (ptrs (m_connections w) \<union> {m_connect_data w} \<union> insert p D) = {}"
    using D(4) assms(2) by blast
  show "q < next_ptr w" if "q \<in> ptrs (m_connections w) \<union> {m_connect_data w} \<union> insert p D" for q
    using D(5) [of q] assms(2) that by blast
qed (use table_invD [OF assms(1)] in simp_all)

lemma tab_close_delete:
  "triple (table_inv (insert p D)) (io_all [session_close p, delete_session p, io_assert b])
     (\<lambda>_. table_inv D) (\<lambda>_. True)"
  by (rule triple_all_keep, rule tab_session_close, rule triple_all_first, rule tab_delete_session,
      rule triple_all_last, unfold keeps_inv_def [symmetric], rule keeps_inv_assert, simp)

lemma tab_connect [io_rules]: "tab_ok D (service_connect stack ip port b)"
proof (rule keeps_invI)
  have init: "triple (fresh_inv D p) (uv_tcp_init p) (\<lambda>_. fresh_inv D p) (\<lambda>_. True)" for p
    using fresh.ok_init(1) by (simp add: keeps_inv_def)
  have fail: "triple (table_inv (insert p D)) (io_then [session_close p, delete_session p, io_assert b]
      (io_return c)) (\<lambda>_. table_inv D) (\<lambda>_. True)" for p b and c :: bool
    by (rule triple_then, rule tab_close_delete, rule triple_return)
  have data: "triple (table_inv (insert p D)) (io_modify (\<lambda>w. w\<lparr>m_connect_data := p\<rparr>))
      (\<lambda>_. table_inv (insert p D)) (\<lambda>_. True)" for p
    by (rule triple_modify) (metis (no_types) insert_absorb2 tab_connect_data)
  have start: "triple (table_inv (insert p D)) (io_bind (uv_tcp_connect p stack) (\<lambda>r.
             if r \<noteq> 0
             then io_then [session_close p, delete_session p, io_assert (r = 0)] (io_return False)
             else io_return True)) (\<lambda>_. table_inv D) (\<lambda>_. True)" for p
    by (rule triple_keep, rule tab.ok_connect, rule triple_if, rule fail, rule triple_return,
        erule tab_less)
  have rest: "triple (fresh_inv D p) (io_then [io_assert c]
       (let r = (if b then fst (uv_ip4_addr ip port) else fst (uv_ip6_addr ip port)) in
        if r \<noteq> 0 then io_then [session_close p, delete_session p, io_assert (r = 0)] (io_return False)
        else io_then [io_modify (\<lambda>w. w\<lparr>m_connect_data := p\<rparr>)]
          (io_bind (uv_tcp_connect p stack) (\<lambda>r.
             if r \<noteq> 0
             then io_then [session_close p, delete_session p, io_assert (r = 0)] (io_return False)
             else io_return True)))) (\<lambda>_. table_inv D) (\<lambda>_. True)" for p c
  proof (rule triple_pre)
    show "table_inv (insert p D) w" if "fresh_inv D p w" for w using that by (rule fresh_tab)
    show "triple (table_inv (insert p D)) (io_then [io_assert c]
       (let r = (if b then fst (uv_ip4_addr ip port) else fst (uv_ip6_addr ip port)) in
        if r \<noteq> 0 then io_then [session_close p, delete_session p, io_assert (r = 0)] (io_return False)
        else io_then [io_modify (\<lambda>w. w\<lparr>m_connect_data := p\<rparr>)]
          (io_bind (uv_tcp_connect p stack) (\<lambda>r.
             if r \<noteq> 0
             then io_then [session_close p, delete_session p, io_assert (r = 0)] (io_return False)
             else io_return True)))) (\<lambda>_. table_inv D) (\<lambda>_. True)"
      unfolding Let_def
      by (rule triple_then, rule triple_all_last, rule triple_assert, rule TrueI, rule triple_if, rule fail,
          rule triple_then, rule triple_all_last, rule data, rule start)
  qed
  show "triple (table_inv D) (service_connect stack ip port b) (\<lambda>_. table_inv D) (\<lambda>_. True)"
    unfolding service_connect_def
    by (rule triple_bind, rule fresh_new_session, rule triple_bind, rule init, rule rest)
qed

section \<open>Handlers\<close>

lemma tab_tcp_send [io_rules]: "tab_ok D (tcp_send p data)"
  unfolding tcp_send_def by (auto intro!: io_rules)

text \<open>What the service relies on: no function of the handler breaks the table.\<close>

locale service_handler =
  fixes H :: "'a net_scheme handler"
  assumes H_initialize_ok: "tab_ok D (H_initialize H)"
    and H_update_ok: "tab_ok D (H_update H)"
    and H_shutdown_ok: "tab_ok D (H_shutdown H)"
    and H_newsession_ok: "tab_ok D (H_newsession H p)"
    and H_closesession_ok: "tab_ok D (H_closesession H p)"
    and H_tcpreceive_ok: "tab_ok D (H_tcpreceive H p data)"
    and H_udpreceive_ok: "tab_ok D (H_udpreceive H addr data)"
    and H_newconnection_ok: "tab_ok D (H_newconnection H p)"
    and H_closeconnection_ok: "tab_ok D (H_closeconnection H p)"
begin

lemmas H_ok = H_initialize_ok H_update_ok H_shutdown_ok H_newsession_ok H_closesession_ok
  H_tcpreceive_ok H_udpreceive_ok H_newconnection_ok H_closeconnection_ok

lemma with_handler_ok: "tab_ok D m \<Longrightarrow> tab_ok D (with_handler m)"
  by (auto simp: with_handler_def intro!: io_rules)

lemmas handler_ok = H_ok with_handler_ok

lemma closesession_ok: "tab_ok D (closesession H i)"
proof (rule keeps_invI)
  have close: "triple (found_inv D i p) (io_all
     [session_close p,
      io_modify (\<lambda>w. w\<lparr>m_sessions := map_erase i (m_sessions w)\<rparr>),
      with_handler (H_closesession H p),
      delete_session p]) (\<lambda>_. table_inv D) (\<lambda>_. True)" for p
    by (rule triple_all_keep, rule found_session_close, rule triple_all_first, rule triple_modify,
        erule found_erase, rule triple_all_keep, rule with_handler_ok, rule H_closesession_ok,
        rule triple_all_last, rule tab_delete_session)
  show "triple (table_inv D) (closesession H i) (\<lambda>_. table_inv D) (\<lambda>_. True)"
  proof (rule tripleI)
    fix w :: "'a net_scheme"
    assume inv: "table_inv D w"
    show "case closesession H i w of Inl e \<Rightarrow> True | Inr (x, w') \<Rightarrow> table_inv D w'"
    proof (cases "map_find (m_sessions w) i")
      case None
      then show ?thesis using inv by (simp add: closesession_def getsession_eq [OF inv])
    next
      case (Some p)
      then have "p \<noteq> 0" using table_invD(2) [OF inv] map_find_in_set by fast
      moreover have "found_inv D i p w" using Some inv by (simp add: found_inv_def)
      ultimately show ?thesis
        using close [of p] Some
        by (auto simp: closesession_def getsession_eq [OF inv] triple_def simp del: io_all.simps)
    qed
  qed
qed

lemma on_newsession_ok: "triple (fresh_inv D p) (service_on_newsession H p) (\<lambda>_. table_inv D) (\<lambda>_. True)"
proof -
  have enter: "triple (\<lambda>w. fresh_inv D p w \<and> id_at w p = Some (s_id s))
     (io_modify (\<lambda>w. if map_find (m_sessions w) (s_id s) = None
        then w\<lparr>m_sessions := map_insert (s_id s) p (m_sessions w)\<rparr> else w)) (\<lambda>_. table_inv D) (\<lambda>_. True)" for s
    by (rule triple_modify) (auto intro: fresh_insert fresh_tab')
  have get: "triple (fresh_inv D p) (get_session p)
      (\<lambda>s w. fresh_inv D p w \<and> id_at w p = Some (s_id s)) (\<lambda>_. True)"
    by (auto simp: triple_def get_session_def id_at_def split: option.splits)
  show ?thesis
    unfolding service_on_newsession_def
    by (rule triple_bind, rule get, rule triple_all_first, rule enter, rule triple_all_last,
        unfold keeps_inv_def [symmetric], rule with_handler_ok, rule H_newsession_ok)
qed

lemma closeconnection_ok: "tab_ok D (closeconnection H i)"
proof (rule keeps_invI)
  have erase: "triple (table_inv D) (io_modify (\<lambda>w. w\<lparr>m_connections := map_erase i (m_connections w)\<rparr>))
      (\<lambda>_. table_inv D) (\<lambda>_. True)" for D
    by (rule triple_modify) (erule tab_erase_connection)
  have close: "triple (table_inv (insert p D)) (io_all
     [session_close p,
      io_modify (\<lambda>w. w\<lparr>m_connections := map_erase i (m_connections w)\<rparr>),
      with_handler (H_closeconnection H p),
      delete_session p]) (\<lambda>_. table_inv D) (\<lambda>_. True)" for p
    by (rule triple_all_keep, rule tab_session_close, rule triple_all_first, rule erase,
        rule triple_all_keep, rule with_handler_ok, rule H_closeconnection_ok,
        rule triple_all_last, rule tab_delete_session)
  show "triple (table_inv D) (closeconnection H i) (\<lambda>_. table_inv D) (\<lambda>_. True)"
  proof (rule tripleI)
    fix w :: "'a net_scheme"
    assume inv: "table_inv D w"
    show "case closeconnection H i w of Inl e \<Rightarrow> True | Inr (x, w') \<Rightarrow> table_inv D w'"
    proof (cases "map_find (m_connections w) i")
      case None
      then show ?thesis using inv by (simp add: closeconnection_def getconnection_id_def)
    next
      case (Some p)
      then have "p \<in> ptrs (m_connections w)" by (metis image_eqI map_find_in_set snd_conv)
      then have "table_inv (insert p D) w" using tab_detached [OF inv] by blast
      then show ?thesis
        using close [of p] Some inv
        by (auto simp: closeconnection_def getconnection_id_def triple_def simp del: io_all.simps)
    qed
  qed
qed

lemma on_newconnection_ok:
  "triple (table_inv (insert p D)) (service_on_newconnection H p) (\<lambda>_. table_inv D) (\<lambda>_. True)"
proof -
  have enter: "triple (table_inv (insert p D)) (io_modify (\<lambda>w. if map_find (m_connections w) (s_id s) = None
        then w\<lparr>m_connections := map_insert (s_id s) p (m_connections w)\<rparr> else w))
      (\<lambda>_. table_inv D) (\<lambda>_. True)" for s
    by (rule triple_modify) (auto intro: tab_insert_connection tab_less)
  show ?thesis
    unfolding service_on_newconnection_def
    by (rule triple_when, rule triple_keep, rule tab_get, rule triple_all_first, rule enter,
        rule triple_all_last, unfold keeps_inv_def [symmetric], rule with_handler_ok,
        rule H_newconnection_ok, erule tab_less)
qed

lemma receive_failed_ok: "tab_ok D (receive_failed H p n)"
  unfolding receive_failed_def by (auto intro!: io_rules closesession_ok)

lemma on_receive_ok: "tab_ok D (on_receive_head H p n b)" "tab_ok D (on_receive_body H p n b)"
  unfolding on_receive_head_def on_receive_body_def service_on_tcpreceive_def Let_def
  by (auto intro!: io_rules tab_upd_session receive_failed_ok handler_ok)

lemma on_connect_ok: "tab_ok D (on_connect H status)"
proof (rule keeps_invI)
  have good: "triple (table_inv (insert p D)) (io_all
         [service_on_newconnection H p,
          io_bind (session_receive p) (\<lambda>r. io_when (r \<noteq> 0)
            (io_bind (get_session p) (\<lambda>s. io_all
              [closeconnection H (s_id s), io_assert (r = 0)])))]) (\<lambda>_. table_inv D) (\<lambda>_. True)" for p
    by (rule triple_all_first, rule on_newconnection_ok, rule triple_all_last,
        unfold keeps_inv_def [symmetric]) (auto intro!: io_rules closeconnection_ok)
  have body: "triple (table_inv (insert p D)) (io_bind (get_session p) (\<lambda>_.
       if status = 0
       then io_all
         [service_on_newconnection H p,
          io_bind (session_receive p) (\<lambda>r. io_when (r \<noteq> 0)
            (io_bind (get_session p) (\<lambda>s. io_all
              [closeconnection H (s_id s), io_assert (r = 0)])))]
       else io_all [session_close p, delete_session p, io_assert (status = 0)]))
     (\<lambda>_. table_inv D) (\<lambda>_. True)" for p
    by (rule triple_keep, rule tab_get, rule triple_if, rule good, rule tab_close_delete)
  show "triple (table_inv D) (on_connect H status) (\<lambda>_. table_inv D) (\<lambda>_. True)"
  proof (rule tripleI)
    fix w :: "'a net_scheme"
    assume inv: "table_inv D w"
    then have "table_inv (insert (m_connect_data w) D) w" by (rule tab_detached) simp
    then show "case on_connect H status w of Inl e \<Rightarrow> True | Inr (x, w') \<Rightarrow> table_inv D w'"
      using body [of "m_connect_data w"] inv
      by (auto simp: on_connect_def triple_def simp del: io_all.simps)
  qed
qed

lemma on_accept_ok: "tab_ok D (on_accept H p status)"
proof -
  have fail: "triple (fresh_inv D q) (io_all [delete_session q, io_assert b]) (\<lambda>_. table_inv D) (\<lambda>_. True)"
    for q b
    by (rule triple_pre [OF _ fresh_tab], rule triple_all_first, rule tab_delete_session,
        rule triple_all_last, rule triple_assert, rule TrueI)
  have fail': "triple (fresh_inv D q) (io_all [uv_close q None, delete_session q, io_assert b])
      (\<lambda>_. table_inv D) (\<lambda>_. True)" for q b
    by (rule triple_all_keep, rule fresh.ok_stream, rule fail)
  have good: "triple (fresh_inv D q) (io_all [service_on_newsession H q,
      io_bind (session_receive q) (\<lambda>r. io_assert (r = 0))]) (\<lambda>_. table_inv D) (\<lambda>_. True)" for q
    by (rule triple_all_first, rule on_newsession_ok, rule triple_all_last,
        unfold keeps_inv_def [symmetric]) (auto intro!: io_rules)
  have take: "tab_ok D (io_bind (new_session b) (\<lambda>q. io_bind (uv_tcp_init q) (\<lambda>r.
              if r \<noteq> 0 then io_all [delete_session q, io_assert (r = 0)]
              else io_bind (uv_accept server q) (\<lambda>r.
                if r \<noteq> 0 then io_all [uv_close q None, delete_session q, io_assert (r \<noteq> 0)]
                else io_all
                  [service_on_newsession H q,
                   io_bind (session_receive q) (\<lambda>r. io_assert (r = 0))]))))" for b server
    by (rule keeps_invI, rule triple_bind, rule fresh_new_session, rule triple_keep, rule fresh.ok_init,
        rule triple_if, rule fail, rule triple_keep, rule fresh.ok_stream, rule triple_if, rule fail', rule good)
  show ?thesis unfolding on_accept_def Let_def by (auto intro!: io_rules take)
qed

lemma udp_close_ok: "tab_ok D (udp_close p)"
  unfolding udp_close_def udp_is_active_def by (auto intro!: io_rules)

lemma udp_on_receive_ok: "tab_ok D (udp_on_receive H p n b a)"
  unfolding udp_on_receive_def service_on_udpreceive_def service_error_def Let_def
  by (auto intro!: io_rules handler_ok udp_close_ok tab_modify)

lemma callbacks_ok: "tab.callbacks_ok D (net_callbacks H)"
  unfolding tab.callbacks_ok_def net_callbacks_def
  by (auto simp: tcp_on_send_def udp_on_send_def session_on_close_def tcp_on_close_def udp_on_close_def
      intro!: io_rules on_receive_ok on_accept_ok on_connect_ok udp_on_receive_ok
      split: alloc_cb.splits read_cb.splits close_cb.splits)

lemma run_round_ok: "tab_ok D (uv_run_nowait n (net_callbacks H))"
  by (rule tab.ok_run) (rule callbacks_ok)

lemma run_ok: "tab_ok D (service_run n k H)"
proof (induction n)
  case 0
  show ?case unfolding service_run.simps by (auto intro!: io_rules)
next
  case (Suc n)
  then show ?case
    unfolding service_run.simps by (intro io_rules run_round_ok handler_ok) (auto intro!: io_rules handler_ok)
qed

lemma tcp_initialize_ok: "tab_ok D (tcp_initialize p ip port b)"
  unfolding tcp_initialize_def tcp_bind_ipv4_def tcp_bind_ipv6_def tcp_listen_def
  by (auto intro!: io_rules split: prod.splits)

lemma udp_initialize_ok: "tab_ok D (udp_initialize p ip port b)"
  unfolding udp_initialize_def udp_bind_ipv4_def udp_bind_ipv6_def udp_listen_def io_zero_def
  by (auto intro!: io_rules split: prod.splits)

lemma new_servers_ok: "tab_ok D new_tcp_server" "tab_ok D new_udp_server"
  unfolding new_tcp_server_def new_udp_server_def Let_def
  by (auto intro!: io_rules tab_modify tab_alloc_object)

lemma initialize_ok: "tab_ok D (service_initialize H ip tp up b)"
  unfolding service_initialize_def
  by (auto intro!: io_rules handler_ok tab_modify new_servers_ok tcp_initialize_ok udp_initialize_ok)

lemma shutdown_ok: "tab_ok D (service_shutdown H)"
  unfolding service_shutdown_def by (auto intro!: io_rules handler_ok tab_modify)

end

end
