(* ===== verification/Net_Receive.thy ===== *)
theory Net_Receive
  imports Net_Table
begin

text \<open>
  What reaches the application, and what happens at the end of a session: the
  read loop of libuv together with the receive callbacks of the network library
  for a session in use, the closing of a session by its peer, and the sending
  of data.
\<close>

section \<open>Executing the operations\<close>

named_theorems run_simps \<open>operations on a state in which the objects they use are present\<close>

lemma get_handle_run [run_simps]: "handles w p = Some h \<Longrightarrow> get_handle p w = Inr (h, w)"
  by (simp add: get_handle_def)

lemma get_session_run [run_simps]: "sessions w p = Some s \<Longrightarrow> get_session p w = Inr (s, w)"
  by (simp add: get_session_def)

lemma upd_handle_run [run_simps]:
  "handles w p = Some h \<Longrightarrow> upd_handle p f w = Inr ((), w\<lparr>handles := (handles w)(p \<mapsto> f h)\<rparr>)"
  by (simp add: upd_handle_def get_handle_def)

lemma upd_session_run [run_simps]:
  "sessions w p = Some s \<Longrightarrow> upd_session p f w = Inr ((), w\<lparr>sessions := (sessions w)(p \<mapsto> f s)\<rparr>)"
  by (simp add: upd_session_def get_session_def)

lemma mem_block_run [run_simps]: "blocks w p = Some b \<Longrightarrow> mem_block p w = Inr (b, w)"
  by (simp add: mem_block_def)

lemma mem_read_run [run_simps]:
  "blocks w p = Some b \<Longrightarrow> i + n \<le> length b \<Longrightarrow> mem_read p i n w = Inr (subrange b i n, w)"
  by (simp add: mem_read_def mem_block_def)

lemma mem_write_run [run_simps]:
  "blocks w p = Some b \<Longrightarrow> length xs \<le> length b \<Longrightarrow>
    mem_write p xs w = Inr ((), w\<lparr>blocks := (blocks w)(p \<mapsto> blit b 0 xs)\<rparr>)"
  by (simp add: mem_write_def mem_block_def)

lemma mem_zero_run [run_simps]:
  "blocks w p = Some b \<Longrightarrow> length b = n \<Longrightarrow> 0 < n \<Longrightarrow>
    mem_zero p n w = Inr ((), w\<lparr>blocks := (blocks w)(p \<mapsto> replicate n 0)\<rparr>)"
  by (simp add: mem_zero_def mem_write_run blit_def)

lemma sys_call_run [run_simps]: "sys_call w = Inr (sys w (calls w), w\<lparr>calls := Suc (calls w)\<rparr>)"
  by (simp add: sys_call_def)

lemma with_handler_run [run_simps]: "m_handler w \<Longrightarrow> with_handler m w = m w"
  by (simp add: with_handler_def)

section \<open>A session in use\<close>

text \<open>The session at \<open>p\<close> is being read by the head callback, its head buffer is
  a block of \<^verbatim>\<open>PACKET_BUFFER_SIZE\<close> bytes, and it has no body buffer.\<close>

definition ready :: "ptr \<Rightarrow> 'a net_scheme \<Rightarrow> bool" where
  "ready p w \<longleftrightarrow> p \<noteq> 0 \<and> m_handler w \<and>
     (case (handles w p, sessions w p) of
        (Some h, Some s) \<Rightarrow>
          h_data h = p \<and> f_reading h \<and> alloc_cb h = Some On_alloc_head \<and>
          read_cb h = Some On_receive_head \<and>
          buf_base (p_head s) \<noteq> 0 \<and> buf_len (p_head s) = PACKET_BUFFER_SIZE \<and>
          map_option length (blocks w (buf_base (p_head s))) = Some PACKET_BUFFER_SIZE \<and>
          buf_base (p_body s) = 0
      | _ \<Rightarrow> False)"

lemma readyE:
  assumes "ready p w"
  obtains h s b where "p \<noteq> 0" "m_handler w" "handles w p = Some h" "sessions w p = Some s"
    "h_data h = p" "f_reading h" "alloc_cb h = Some On_alloc_head" "read_cb h = Some On_receive_head"
    "buf_base (p_head s) \<noteq> 0" "buf_len (p_head s) = PACKET_BUFFER_SIZE"
    "blocks w (buf_base (p_head s)) = Some b" "length b = PACKET_BUFFER_SIZE" "buf_base (p_body s) = 0"
  using assms by (auto simp: ready_def split: option.splits)

lemma ready_calls: "ready p (w\<lparr>calls := k\<rparr>) \<longleftrightarrow> ready p w"
  by (simp add: ready_def cong: option.case_cong)

lemma buffer_size: "0 < PACKET_BUFFER_SIZE" "UV_PACKET_HEAD_LENGTH + 4 \<le> PACKET_BUFFER_SIZE"
  by (simp_all add: PACKET_BUFFER_SIZE_def UV_PACKET_HEAD_LENGTH_def)

lemma packet_clear_run:
  assumes "sessions w p = Some s" and "buf_base (p_head s) \<noteq> 0" and "buf_len (p_head s) = PACKET_BUFFER_SIZE"
    and "blocks w (buf_base (p_head s)) = Some b" and "length b = PACKET_BUFFER_SIZE"
    and "buf_base (p_body s) = 0"
  shows "packet_clear p w =
    Inr ((), w\<lparr>blocks := (blocks w)(buf_base (p_head s) \<mapsto> replicate PACKET_BUFFER_SIZE 0)\<rparr>)"
  using assms buffer_size(1) by (simp add: packet_clear_def run_simps)

text \<open>The integer at the body-length offset of what the head buffer holds decides
  whether a full buffer is delivered at once.\<close>

definition delivered :: "byte list \<Rightarrow> bool" where
  "delivered data \<longleftrightarrow> sint (of_nat (le_val (subrange data UV_PACKET_HEAD_LENGTH 4)) :: u32) \<le> 0"

lemma read_start_again:
  "handles w p = Some h \<Longrightarrow> f_reading h \<Longrightarrow> uv_read_start p a r w = Inr (UV_EALREADY, w)"
  by (simp add: uv_read_start_def run_simps)

text \<open>What a read leaves of the rest of the state.\<close>

definition same_env :: "'a net_scheme \<Rightarrow> 'a net_scheme \<Rightarrow> bool" where
  "same_env w w' \<longleftrightarrow> sys w' = sys w \<and> calls w' = calls w"

lemma receive_short:
  assumes "ready p w" and "0 \<le> n" and "n < int PACKET_BUFFER_SIZE"
  shows "\<exists>w'. on_receive_head H p n buf w = Inr ((), w') \<and> ready p w' \<and> same_env w w' \<and>
    net.more w' = net.more w"
proof -
  from assms(1) obtain h s b where r: "p \<noteq> 0" "m_handler w" "handles w p = Some h" "sessions w p = Some s"
    "h_data h = p" "f_reading h" "alloc_cb h = Some On_alloc_head" "read_cb h = Some On_receive_head"
    "buf_base (p_head s) \<noteq> 0" "buf_len (p_head s) = PACKET_BUFFER_SIZE"
    "blocks w (buf_base (p_head s)) = Some b" "length b = PACKET_BUFFER_SIZE" "buf_base (p_body s) = 0"
    by (rule readyE)
  then show ?thesis
    using assms(2,3)
    by (simp add: on_receive_head_def run_simps receive_failed_def packet_clear_run Let_def same_env_def
        ready_def)
qed

section \<open>The read loop\<close>

lemma read_loop_alloc:
  assumes "ready p w"
  shows "tcp_read_loop (Suc n) (net_callbacks H) p w =
    (let buf = p_head (the (sessions w p)); a = sys w (calls w); w1 = w\<lparr>calls := Suc (calls w)\<rparr> in
     if a_err a = 0 then
       (let bytes = take PACKET_BUFFER_SIZE (a_data a) in
        if bytes \<noteq> [] then io_all
          [mem_write (buf_base buf) bytes,
           call_read (net_callbacks H) p (int (length bytes)) buf,
           io_when (PACKET_BUFFER_SIZE \<le> length bytes) (tcp_read_loop n (net_callbacks H) p)] w1
        else io_all
          [upd_handle p (\<lambda>h. h\<lparr>f_reading := False, f_readable := False\<rparr>),
           DECREASE_ACTIVE_COUNT p,
           call_read (net_callbacks H) p UV_EOF buf] w1)
     else if a_err a = WSAEWOULDBLOCK then call_read (net_callbacks H) p 0 buf w1
     else io_all
       [upd_handle p (\<lambda>h. h\<lparr>f_reading := False\<rparr>),
        DECREASE_ACTIVE_COUNT p,
        call_read (net_callbacks H) p (read_error (a_err a)) buf] w1)"
proof -
  from assms obtain h s b where r: "p \<noteq> 0" "m_handler w" "handles w p = Some h" "sessions w p = Some s"
    "h_data h = p" "f_reading h" "alloc_cb h = Some On_alloc_head" "read_cb h = Some On_receive_head"
    "buf_base (p_head s) \<noteq> 0" "buf_len (p_head s) = PACKET_BUFFER_SIZE"
    "blocks w (buf_base (p_head s)) = Some b" "length b = PACKET_BUFFER_SIZE" "buf_base (p_body s) = 0"
    by (rule readyE)
  have "call_alloc (net_callbacks H) p w = Inr (p_head s, w)"
    using r by (simp add: call_alloc_def run_simps net_callbacks_def on_alloc_head_def)
  then show ?thesis
    using r buffer_size(1) by (simp add: run_simps Let_def del: io_all.simps)
qed

lemma call_read_ready: "ready p w \<Longrightarrow> call_read (net_callbacks H) p n buf w = on_receive_head H p n buf w"
  by (erule readyE) (simp add: call_read_def run_simps net_callbacks_def)

text \<open>The system stores a full or partial read in the head buffer.\<close>

lemma ready_write:
  assumes "ready p w" and "length xs \<le> PACKET_BUFFER_SIZE"
  shows "\<exists>w'. mem_write (buf_base (p_head (the (sessions w p)))) xs (w\<lparr>calls := k\<rparr>) = Inr ((), w') \<and>
    ready p w' \<and> sys w' = sys w \<and> calls w' = k \<and> net.more w' = net.more w \<and> sessions w' = sessions w \<and>
    (length xs = PACKET_BUFFER_SIZE \<longrightarrow> blocks w' (buf_base (p_head (the (sessions w p)))) = Some xs)"
  using assms(1)
proof (rule readyE)
  fix h s b
  assume r: "p \<noteq> 0" "m_handler w" "handles w p = Some h" "sessions w p = Some s"
    "h_data h = p" "f_reading h" "alloc_cb h = Some On_alloc_head" "read_cb h = Some On_receive_head"
    "buf_base (p_head s) \<noteq> 0" "buf_len (p_head s) = PACKET_BUFFER_SIZE"
    "blocks w (buf_base (p_head s)) = Some b" "length b = PACKET_BUFFER_SIZE" "buf_base (p_body s) = 0"
  have "mem_write (buf_base (p_head s)) xs (w\<lparr>calls := k\<rparr>) =
      Inr ((), w\<lparr>calls := k, blocks := (blocks w)(buf_base (p_head s) \<mapsto> blit b 0 xs)\<rparr>)"
    using r(11,12) assms(2) by (simp add: run_simps)
  then show ?thesis using r assms(2) by (simp add: ready_def blit_def)
qed

section \<open>The end of a session\<close>

text \<open>A session in use that is in the table, with its three buffers allocated and its
  handle active for reading only.\<close>

definition established :: "ptr \<Rightarrow> 'a net_scheme \<Rightarrow> bool" where
  "established p w \<longleftrightarrow> ready p w \<and> table_inv {} w \<and>
     (case (handles w p, sessions w p) of
        (Some h, Some s) \<Rightarrow>
          h_type h = UV_TCP \<and> f_active h \<and> f_ref h \<and> \<not> f_closing h \<and> activecnt h = 1 \<and>
          map_find (m_sessions w) (s_id s) = Some p \<and>
          (let bs = map buf_base [s_readbuf s, s_writebuf s, p_head s] in
           distinct bs \<and> list_all (\<lambda>b. b \<noteq> 0 \<and> blocks w b \<noteq> None) bs)
      | _ \<Rightarrow> False)"

lemma mem_free_run: "blocks w p \<noteq> None \<Longrightarrow> safe_free p w = Inr ((), if p = 0 then w else w\<lparr>blocks := (blocks w)(p := None)\<rparr>)"
  by (auto simp: safe_free_def mem_free_def)

text \<open>Deleting a session whose handle is not active.\<close>

lemma delete_session_run:
  assumes "handles w p = Some h" and "\<not> f_active h" and "sessions w p = Some s"
    and "distinct (map buf_base [s_readbuf s, s_writebuf s, p_head s])"
    and "list_all (\<lambda>b. b \<noteq> 0 \<and> blocks w b \<noteq> None) (map buf_base [s_readbuf s, s_writebuf s, p_head s])"
    and "buf_base (p_body s) = 0"
  shows "\<exists>w'. delete_session p w = Inr ((), w') \<and> handles w' p = None \<and> next_ptr w' = next_ptr w"
  using assms
  by (auto simp: delete_session_def session_is_active_def uv_is_active_def run_simps mem_free_run)
    (simp_all add: safe_free_def mem_free_def)

lemma res_bind_unit [simp]: "res_bind r (\<lambda>(x :: unit, w'). Inr ((), w')) = r"
  by (cases r) (auto simp: res_bind_def)

lemma decrease_to_idle:
  assumes "handles w p = Some h" and "activecnt h = 1" and "\<not> f_closing h" and "f_active h" and "f_ref h"
  shows "DECREASE_ACTIVE_COUNT p w = Inr ((), w\<lparr>handles := (handles w)(p \<mapsto> h\<lparr>activecnt := 0, f_active := False\<rparr>),
    active_handles := active_handles w - 1\<rparr>)"
  using assms by (simp add: DECREASE_ACTIVE_COUNT_def run_simps uv__handle_stop_def uv__active_handle_rm_def)

lemma call_read_head:
  "handles w p = Some h \<Longrightarrow> read_cb h = Some On_receive_head \<Longrightarrow>
    call_read (net_callbacks H) p n buf w = on_receive_head H p n buf w"
  by (simp add: call_read_def run_simps net_callbacks_def)

lemma read_error_neg: "err \<noteq> 0 \<Longrightarrow> read_error err < 0"
  unfolding read_error_def
  by (rule order.not_eq_order_implies_strict) (simp_all add: uv_translate_sys_error_nonpos)

section \<open>The application behind the callbacks\<close>

text \<open>
  An application whose callbacks change its own state only: what it makes of a
  buffer, of a new session and of the end of one, in states of its own that
  satisfy \<open>J\<close>.
\<close>

locale quiet_app =
  fixes H :: "'a net_scheme handler"
    and J :: "'a \<Rightarrow> bool"
    and on_data :: "ptr \<Rightarrow> byte list \<Rightarrow> 'a \<Rightarrow> 'a"
    and on_open :: "ptr \<Rightarrow> 'a \<Rightarrow> 'a"
    and on_end :: "ptr \<Rightarrow> 'a \<Rightarrow> 'a"
  assumes data_law: "J (net.more w) \<Longrightarrow> length data = PACKET_BUFFER_SIZE \<Longrightarrow>
      H_tcpreceive H p data w = Inr ((), w\<lparr>net.more := on_data p data (net.more w)\<rparr>) \<and>
      J (on_data p data (net.more w))"
    and open_law: "J (net.more w) \<Longrightarrow>
      H_newsession H p w = Inr ((), w\<lparr>net.more := on_open p (net.more w)\<rparr>) \<and>
      J (on_open p (net.more w))"
    and end_law: "J (net.more w) \<Longrightarrow>
      H_closesession H p w = Inr ((), w\<lparr>net.more := on_end p (net.more w)\<rparr>)"
begin

lemma receive_full:
  assumes ready: "ready p w" and J: "J (net.more w)"
    and data: "blocks w (buf_base (p_head (the (sessions w p)))) = Some data"
  shows "\<exists>w'. on_receive_head H p (int PACKET_BUFFER_SIZE) buf w = Inr ((), w') \<and> ready p w' \<and> same_env w w' \<and>
    net.more w' = (if delivered data then on_data p data (net.more w) else net.more w) \<and>
    J (net.more w')"
proof -
  from ready obtain h s b where r: "p \<noteq> 0" "m_handler w" "handles w p = Some h" "sessions w p = Some s"
    "h_data h = p" "f_reading h" "alloc_cb h = Some On_alloc_head" "read_cb h = Some On_receive_head"
    "buf_base (p_head s) \<noteq> 0" "buf_len (p_head s) = PACKET_BUFFER_SIZE"
    "blocks w (buf_base (p_head s)) = Some b" "length b = PACKET_BUFFER_SIZE" "buf_base (p_body s) = 0"
    by (rule readyE)
  have b: "b = data" using data r(4,11) by simp
  have whole: "subrange data 0 PACKET_BUFFER_SIZE = data" using r(12) b by (simp add: subrange_def)
  have law: "J (on_data p data (net.more w))"
    using data_law [OF J] r(12) b by blast
  have H: "H_tcpreceive H p data v = Inr ((), v\<lparr>net.more := on_data p data (net.more v)\<rparr>)"
    if "net.more v = net.more w" for v
    using data_law [of v data p] J that r(12) b by simp
  note size = buffer_size r(12) b
  show ?thesis
  proof (cases "delivered data")
    case True
    then have "\<not> 0 < sint (of_nat (le_val (subrange data UV_PACKET_HEAD_LENGTH 4)) :: u32)"
      by (simp add: delivered_def)
    with True r size J law show ?thesis
      by (simp add: on_receive_head_def run_simps packet_bodylength_def whole service_on_tcpreceive_def H
          packet_clear_run receive_head_def read_start_again Let_def same_env_def ready_def)
  next
    case False
    then have "0 < sint (of_nat (le_val (subrange data UV_PACKET_HEAD_LENGTH 4)) :: u32)"
      by (simp add: delivered_def)
    with False r size J show ?thesis
      by (simp add: on_receive_head_def run_simps packet_bodylength_def receive_body_def
          read_start_again Let_def same_env_def ready_def)
  qed
qed

lemma stream_delivery:
  assumes "ready p w" and "J (net.more w)"
    and "\<And>i. i < length cs \<Longrightarrow> a_err (sys w (calls w + i)) = 0 \<and> a_data (sys w (calls w + i)) = cs ! i \<and>
      length (cs ! i) = PACKET_BUFFER_SIZE"
    and "a_err (sys w (calls w + length cs)) = WSAEWOULDBLOCK \<or>
      a_err (sys w (calls w + length cs)) = 0 \<and> a_data (sys w (calls w + length cs)) \<noteq> [] \<and>
      length (a_data (sys w (calls w + length cs))) < PACKET_BUFFER_SIZE"
  shows "\<exists>w'. tcp_read_loop (Suc (length cs)) (net_callbacks H) p w = Inr ((), w') \<and> ready p w' \<and>
    net.more w' = fold (on_data p) (filter delivered cs) (net.more w) \<and> J (net.more w')"
  using assms
proof (induction cs arbitrary: w)
  case Nil
  show ?case
  proof (cases "a_err (sys w (calls w)) = 0")
    case False
    then have wb: "a_err (sys w (calls w)) = WSAEWOULDBLOCK" using Nil.prems by simp
    have ready1: "ready p (w\<lparr>calls := Suc (calls w)\<rparr>)" using Nil.prems(1) by (simp add: ready_calls)
    obtain w' where "on_receive_head H p 0 (p_head (the (sessions w p))) (w\<lparr>calls := Suc (calls w)\<rparr>) = Inr ((), w')"
      "ready p w'" "net.more w' = net.more w"
      using receive_short [OF ready1, of 0] buffer_size(1) by fastforce
    then show ?thesis
      using wb Nil.prems(2) by (simp add: read_loop_alloc [OF Nil.prems(1)] call_read_ready [OF ready1] Let_def
          del: tcp_read_loop.simps)
  next
    case True
    define xs where "xs = a_data (sys w (calls w))"
    have xs: "xs \<noteq> []" "length xs < PACKET_BUFFER_SIZE" using Nil.prems True by (auto simp: xs_def)
    obtain w1 where w1: "mem_write (buf_base (p_head (the (sessions w p)))) xs (w\<lparr>calls := Suc (calls w)\<rparr>) = Inr ((), w1)"
      "ready p w1" "net.more w1 = net.more w"
      using ready_write [OF Nil.prems(1), of xs "Suc (calls w)"] xs by auto
    obtain w' where "on_receive_head H p (int (length xs)) (p_head (the (sessions w p))) w1 = Inr ((), w')"
      "ready p w'" "net.more w' = net.more w1"
      using receive_short [OF w1(2), of "int (length xs)"] xs by fastforce
    then show ?thesis
      using True xs w1 Nil.prems(2) by (simp add: read_loop_alloc [OF Nil.prems(1)] call_read_ready [OF w1(2)] Let_def
          xs_def [symmetric] del: tcp_read_loop.simps)
  qed
next
  case (Cons c cs)
  have c: "a_err (sys w (calls w)) = 0" "a_data (sys w (calls w)) = c" "length c = PACKET_BUFFER_SIZE"
    using Cons.prems(3) [of 0] by simp_all
  obtain w1 where w1: "mem_write (buf_base (p_head (the (sessions w p)))) c (w\<lparr>calls := Suc (calls w)\<rparr>) = Inr ((), w1)"
    "ready p w1" "sys w1 = sys w" "calls w1 = Suc (calls w)" "net.more w1 = net.more w" "sessions w1 = sessions w"
    "blocks w1 (buf_base (p_head (the (sessions w p)))) = Some c"
    using ready_write [OF Cons.prems(1), of c "Suc (calls w)"] c(3) by auto
  have Jw1: "J (net.more w1)" using w1(5) Cons.prems(2) by simp
  have at: "blocks w1 (buf_base (p_head (the (sessions w1 p)))) = Some c" using w1(6,7) by simp
  obtain w2 where w2: "on_receive_head H p (int PACKET_BUFFER_SIZE) (p_head (the (sessions w p))) w1 = Inr ((), w2)"
    "ready p w2" "same_env w1 w2"
    "net.more w2 = (if delivered c then on_data p c (net.more w1) else net.more w1)" "J (net.more w2)"
    using receive_full [OF w1(2) Jw1 at] by blast
  have env: "sys w2 = sys w" "calls w2 = Suc (calls w)" using w2(3) w1 by (simp_all add: same_env_def)
  have "\<exists>w'. tcp_read_loop (Suc (length cs)) (net_callbacks H) p w2 = Inr ((), w') \<and> ready p w' \<and>
    net.more w' = fold (on_data p) (filter delivered cs) (net.more w2) \<and> J (net.more w')"
  proof (rule Cons.IH [OF w2(2,5)])
    show "a_err (sys w2 (calls w2 + i)) = 0 \<and> a_data (sys w2 (calls w2 + i)) = cs ! i \<and>
      length (cs ! i) = PACKET_BUFFER_SIZE" if "i < length cs" for i
      using Cons.prems(3) [of "Suc i"] that env by simp
  qed (use Cons.prems(4) env in simp)
  then show ?case
    using c w1 w2 buffer_size(1)
    by (auto simp: read_loop_alloc [OF Cons.prems(1)] call_read_ready [OF w1(2)] Let_def
        simp del: tcp_read_loop.simps)
qed

lemma closesession_run:
  assumes inv: "table_inv {} w" and find: "map_find (m_sessions w) i = Some p" and "m_handler w"
    and J: "J (net.more w)"
    and h: "handles w p = Some h" "\<not> f_active h" "sessions w p = Some s"
    and bufs: "distinct (map buf_base [s_readbuf s, s_writebuf s, p_head s])"
      "list_all (\<lambda>b. b \<noteq> 0 \<and> blocks w b \<noteq> None) (map buf_base [s_readbuf s, s_writebuf s, p_head s])"
      "buf_base (p_body s) = 0"
  shows "\<exists>w'. closesession H i w = Inr ((), w') \<and> handles w' p = None \<and> p \<noteq> 0 \<and> p < next_ptr w'"
proof -
  have p: "p \<noteq> 0" "p < next_ptr w"
    using table_invD(2) [OF inv] table_invD(3) [OF inv] map_find_in_set [OF find] by blast+
  define w1 where "w1 = w\<lparr>m_sessions := map_erase i (m_sessions w), net.more := on_end p (net.more w)\<rparr>"
  obtain w' where "delete_session p w1 = Inr ((), w')" "handles w' p = None" "next_ptr w' = next_ptr w1"
    using delete_session_run [of w1 p h s] h bufs by (auto simp: w1_def)
  moreover have "closesession H i w = delete_session p w1"
    using p assms(3) h J
    by (simp add: closesession_def getsession_eq [OF inv] find session_close_def session_is_active_def
        uv_is_active_def run_simps end_law w1_def)
  ultimately show ?thesis using p by (simp add: w1_def)
qed

text \<open>The failing read callback: the session is closed and its object, which holds the
  handle, is deleted while libuv is still working on the handle.\<close>

lemma receive_failed_run:
  assumes est: "established p w" and J: "J (net.more w)" and n: "n < 0"
    and h: "handles w' p = Some h" "\<not> f_active h" "h_data h = p"
    and same: "w' = w\<lparr>calls := calls w', handles := handles w', active_handles := active_handles w'\<rparr>"
  shows "\<exists>w''. on_receive_head H p n buf w' =
      (if n = UV_EOF \<or> n = UV_ECONNRESET then Inr ((), w'') else Inl AssertFail) \<and>
    handles w'' p = None \<and> p \<noteq> 0 \<and> p < next_ptr w''"
proof -
  from est obtain h0 s b where r: "p \<noteq> 0" "m_handler w" "handles w p = Some h0" "sessions w p = Some s"
    "buf_base (p_head s) \<noteq> 0" "buf_len (p_head s) = PACKET_BUFFER_SIZE"
    "blocks w (buf_base (p_head s)) = Some b" "length b = PACKET_BUFFER_SIZE" "buf_base (p_body s) = 0"
    unfolding established_def by (auto elim: readyE)
  define wc where "wc = w'\<lparr>blocks := (blocks w')(buf_base (p_head s) \<mapsto> replicate PACKET_BUFFER_SIZE 0)\<rparr>"
  have more: "uv.more wc = uv.more w"
    unfolding wc_def by (subst same) simp
  have f: "sessions w' = sessions w" "m_handler w' = m_handler w" "blocks w' = blocks w"
    "m_sessions w' = m_sessions w" "next_ptr w' = next_ptr w" "net.more w' = net.more w"
    by (subst same, simp)+
  have t: "table_inv {} w" and i: "map_find (m_sessions w) (s_id s) = Some p"
    and d: "distinct (map buf_base [s_readbuf s, s_writebuf s, p_head s])"
      "list_all (\<lambda>b. b \<noteq> 0 \<and> blocks w b \<noteq> None) (map buf_base [s_readbuf s, s_writebuf s, p_head s])"
    using est r(3,4) by (auto simp: established_def Let_def)
  have tc: "table_inv {} wc"
    by (rule tab.only_more [OF _ _ t]) (simp_all add: more, simp add: wc_def f)
  obtain w'' where w'': "closesession H (s_id s) wc = Inr ((), w'')" "handles w'' p = None" "p < next_ptr w''"
    using closesession_run [OF tc, of "s_id s" p h s] i r h f d J by (auto simp: wc_def)
  have "on_receive_head H p n buf w' = res_bind (closesession H (s_id s) wc)
      (\<lambda>(_, w2). if n = UV_EOF \<or> n = UV_ECONNRESET then Inr ((), w2) else Inl AssertFail)"
    using h r f n
    by (simp add: on_receive_head_def run_simps receive_failed_def packet_clear_run wc_def res_bind_def
        split: sum.splits)
  with w'' r(1) show ?thesis by auto
qed

text \<open>One round of the read loop that ends the stream.\<close>

lemma read_loop_end:
  assumes est: "established p w" and J: "J (net.more w)"
    and a: "a_err (sys w (calls w)) = 0 \<and> a_data (sys w (calls w)) = [] \<or>
      a_err (sys w (calls w)) \<noteq> 0 \<and> a_err (sys w (calls w)) \<noteq> WSAEWOULDBLOCK"
    and e: "e = (if a_err (sys w (calls w)) = 0 then UV_EOF else read_error (a_err (sys w (calls w))))"
  shows "\<exists>w'. tcp_read_loop (Suc n) (net_callbacks H) p w =
      (if e = UV_EOF \<or> e = UV_ECONNRESET then Inr ((), w') else Inl AssertFail) \<and>
    handles w' p = None \<and> p \<noteq> 0 \<and> p < next_ptr w'"
proof -
  have ready: "ready p w" using est by (simp add: established_def)
  then obtain h s b where r: "handles w p = Some h" "sessions w p = Some s" "h_data h = p"
    "read_cb h = Some On_receive_head"
    by (rule readyE)
  have act: "activecnt h = 1" "\<not> f_closing h" "f_active h" "f_ref h"
    using est r by (simp_all add: established_def)
  have neg: "e < 0" by (simp add: e read_error_neg)
  define h1 where "h1 = (if a_err (sys w (calls w)) = 0 then h\<lparr>f_reading := False, f_readable := False\<rparr>
    else h\<lparr>f_reading := False\<rparr>)"
  define w1 where "w1 = w\<lparr>calls := Suc (calls w), handles := (handles w)(p \<mapsto> h1)\<rparr>"
  have h1: "handles w1 p = Some h1" "activecnt h1 = 1" "\<not> f_closing h1" "f_active h1" "f_ref h1" "h_data h1 = p"
    "read_cb h1 = Some On_receive_head"
    using act r by (simp_all add: w1_def h1_def)
  have k: "DECREASE_ACTIVE_COUNT p w1 = Inr ((), w1\<lparr>handles := (handles w1)
      (p \<mapsto> h1\<lparr>activecnt := 0, f_active := False\<rparr>), active_handles := active_handles w1 - 1\<rparr>)" (is "_ = Inr ((), ?w2)")
    by (rule decrease_to_idle [OF h1(1-5)])
  have loop: "tcp_read_loop (Suc n) (net_callbacks H) p w = on_receive_head H p e (p_head s) ?w2"
  proof -
    have cr: "call_read (net_callbacks H) p x (p_head s) ?w2 = on_receive_head H p x (p_head s) ?w2" for x
      by (rule call_read_head [of _ _ "h1\<lparr>activecnt := 0, f_active := False\<rparr>"]) (use h1 in simp_all)
    have up: "upd_handle p (\<lambda>h. if a_err (sys w (calls w)) = 0 then h\<lparr>f_reading := False, f_readable := False\<rparr>
        else h\<lparr>f_reading := False\<rparr>) (w\<lparr>calls := Suc (calls w)\<rparr>) = Inr ((), w1)"
      using r by (simp add: run_simps w1_def h1_def)
    show ?thesis
      unfolding read_loop_alloc [OF ready] Let_def
      using a up by (auto simp: k cr e r(2) simp del: tcp_read_loop.simps)
  qed
  show ?thesis
    unfolding loop by (rule receive_failed_run [OF est J neg,
        of _ "h1\<lparr>activecnt := 0, f_active := False\<rparr>"]) (use h1 in \<open>simp_all add: w1_def\<close>)
qed

text \<open>The read request with whose completion the end of the stream arrives.\<close>

lemma read_req_end:
  assumes est: "established p w" and J: "J (net.more w)"
    and st: "r_status (reqs w (ReadReq p)) = 0"
    and a: "a_err (sys w (calls w)) = 0 \<and> a_data (sys w (calls w)) = [] \<or>
      a_err (sys w (calls w)) \<noteq> 0 \<and> a_err (sys w (calls w)) \<noteq> WSAEWOULDBLOCK"
    and e: "e = (if a_err (sys w (calls w)) = 0 then UV_EOF else read_error (a_err (sys w (calls w))))"
  shows "uv_process_tcp_read_req (Suc n) (net_callbacks H) p w =
    Inl (if e = UV_EOF \<or> e = UV_ECONNRESET then UseAfterFree else AssertFail)"
proof -
  obtain h where h: "handles w p = Some h" using est by (auto simp: established_def elim: readyE)
  define w1 where "w1 = w\<lparr>handles := (handles w)(p \<mapsto> h\<lparr>f_read_pending := False\<rparr>)\<rparr>"
  have t: "table_inv {} w1"
    using est by (intro tab.only_more [of w w1]) (simp_all add: w1_def established_def)
  have est1: "established p w1"
    using est h t by (simp add: established_def ready_def w1_def split: option.splits)
  obtain w' where w': "tcp_read_loop (Suc n) (net_callbacks H) p w1 =
      (if e = UV_EOF \<or> e = UV_ECONNRESET then Inr ((), w') else Inl AssertFail)"
    "handles w' p = None" "p \<noteq> 0" "p < next_ptr w'"
    using read_loop_end [OF est1, of e n] a e J by (auto simp: w1_def)
  have gone: "get_handle p w' = Inl UseAfterFree"
    using w'(2-4) by (simp add: get_handle_def bad_access_def)
  show ?thesis
    using h st w'(1) gone
    by (simp add: uv_process_tcp_read_req_def run_simps w1_def [symmetric] del: tcp_read_loop.simps)
qed

end

section \<open>Sending\<close>

text \<open>A session that is being read and can be written to, its write buffer a block of
  its recorded length.\<close>

definition writable :: "ptr \<Rightarrow> uv_handle \<Rightarrow> session \<Rightarrow> 'a net_scheme \<Rightarrow> bool" where
  "writable p h s w \<longleftrightarrow> p \<noteq> 0 \<and> handles w p = Some h \<and> sessions w p = Some s \<and>
     h_type h = UV_TCP \<and> f_writable h \<and> \<not> f_closing h \<and> 0 < activecnt h \<and>
     WriteReq p \<notin> set (pending_reqs w) \<and> 0 < buf_len (s_writebuf s) \<and>
     map_option length (blocks w (buf_base (s_writebuf s))) = Some (buf_len (s_writebuf s))"

lemma register_run [run_simps]:
  assumes "handles w p = Some h" and "0 < activecnt h"
  shows "REGISTER_HANDLE_REQ p r w = Inr ((), w\<lparr>handles := (handles w)(p \<mapsto> h\<lparr>activecnt := activecnt h + 1\<rparr>),
    active_reqs := active_reqs w @ [r]\<rparr>)"
  using assms by (simp add: REGISTER_HANDLE_REQ_def INCREASE_ACTIVE_COUNT_def run_simps)

lemma decrease_run:
  assumes "handles w p = Some h" and "1 < activecnt h"
  shows "DECREASE_ACTIVE_COUNT p w = Inr ((), w\<lparr>handles := (handles w)(p \<mapsto> h\<lparr>activecnt := activecnt h - 1\<rparr>)\<rparr>)"
  using assms by (simp add: DECREASE_ACTIVE_COUNT_def run_simps)

lemma upd_req_run [run_simps]:
  "handles w p = Some h \<Longrightarrow> upd_req (WriteReq p) f w = Inr ((), w\<lparr>reqs := (reqs w)(WriteReq p := f (reqs w (WriteReq p)))\<rparr>)"
  by (simp add: upd_req_def touch_req_def run_simps)

lemma uv_tcp_write_run:
  assumes h: "handles w p = Some h" "0 < activecnt h" "WriteReq p \<notin> set (pending_reqs w)"
    and b: "blocks w (buf_base buf) = Some b" "buf_len buf \<le> length b"
    and ok: "a_err (sys w (calls w)) = 0 \<or> a_err (sys w (calls w)) = ERROR_IO_PENDING"
  shows "\<exists>w' h'. uv_tcp_write p p buf w = Inr (0, w') \<and> sent w' = sent w @ [(h_socket h, take (buf_len buf) b)] \<and>
    handles w' p = Some h' \<and> 1 < activecnt h' \<and> r_queued (reqs w' (WriteReq p)) \<le> write_queue_size h' \<and>
    r_status (reqs w' (WriteReq p)) = 0 \<and> r_handle (reqs w' (WriteReq p)) = p \<and> active_reqs w' \<noteq> [] \<and>
    sessions w' = sessions w \<and> blocks w' = blocks w \<and> next_ptr w' = next_ptr w"
proof (cases "a_err (sys w (calls w)) = 0 \<and> f_sync_bypass h")
  case True
  then show ?thesis
    using h b
    by (simp add: uv_tcp_write_def run_simps count_req_def uv_insert_pending_req_def touch_req_def subrange_def)
next
  case False
  have c: "(a_err (sys w (calls w)) = 0 \<and> f_sync_bypass h) = False"
    "(a_err (sys w (calls w)) = 0 \<or> a_err (sys w (calls w)) = ERROR_IO_PENDING) = True"
    using False ok by blast+
  show ?thesis
    using h b
    by (simp add: c uv_tcp_write_def run_simps count_req_def kernel_queue_def subrange_def)
qed

lemma translate_zero: "uv_translate_sys_error 0 = 0"
  by simp

lemma send_completes:
  assumes wr: "writable p h s w" and len: "length data \<le> buf_len (s_writebuf s)"
    and ok: "a_err (sys w (calls w)) = 0 \<or> a_err (sys w (calls w)) = ERROR_IO_PENDING"
  shows "\<exists>w'. tcp_send p data w = Inr ((), w') \<and> sent w' = sent w @ [(h_socket h, data)] \<and>
    uv_process_tcp_write_req (net_callbacks H) p w' = Inl AssertFail"
proof -
  obtain b where b: "blocks w (buf_base (s_writebuf s)) = Some b" "length b = buf_len (s_writebuf s)"
    using wr by (auto simp: writable_def)
  define w1 where "w1 = w\<lparr>blocks := (blocks w)(buf_base (s_writebuf s) \<mapsto>
    data @ replicate (buf_len (s_writebuf s) - length data) 0)\<rparr>"
  have wr1: "handles w1 p = Some h" "0 < activecnt h" "WriteReq p \<notin> set (pending_reqs w1)"
    using wr by (simp_all add: w1_def writable_def)
  have blk: "blocks w1 (buf_base (s_writebuf s\<lparr>buf_len := length data\<rparr>)) =
      Some (data @ replicate (buf_len (s_writebuf s) - length data) 0)"
    "buf_len (s_writebuf s\<lparr>buf_len := length data\<rparr>) \<le> length (data @ replicate (buf_len (s_writebuf s) - length data) (0 :: byte))"
    by (simp_all add: w1_def)
  have okw: "a_err (sys w1 (calls w1)) = 0 \<or> a_err (sys w1 (calls w1)) = ERROR_IO_PENDING"
    using ok by (simp add: w1_def)
  obtain w' h' where w': "uv_tcp_write p p (s_writebuf s\<lparr>buf_len := length data\<rparr>) w1 = Inr (0, w')"
    "sent w' = sent w @ [(h_socket h, data)]" "handles w' p = Some h'" "1 < activecnt h'"
    "r_queued (reqs w' (WriteReq p)) \<le> write_queue_size h'" "r_status (reqs w' (WriteReq p)) = 0"
    "r_handle (reqs w' (WriteReq p)) = p" "active_reqs w' \<noteq> []"
    using uv_tcp_write_run [OF wr1 blk okw] by (auto simp: w1_def)
  have "tcp_send p data w = Inr ((), w')"
    using wr b len w'(1)
    by (simp add: tcp_send_def run_simps writable_def uv_write_def w1_def blit_def)
  moreover have "uv_process_tcp_write_req (net_callbacks H) p w' = Inl AssertFail"
    using w'(3-8)
    by (simp add: translate_zero uv_process_tcp_write_req_def run_simps UNREGISTER_HANDLE_REQ_def decrease_run
        net_callbacks_def tcp_on_send_def Let_def)
  ultimately show ?thesis using w'(2) by (intro exI [of _ w'] conjI)
qed

text \<open>A message longer than the write buffer, when \<^verbatim>\<open>realloc\<close> moves the block: the
  session still holds the old address.\<close>

lemma send_long:
  assumes wr: "writable p h s w" and len: "buf_len (s_writebuf s) < length data"
    and old: "buf_base (s_writebuf s) < next_ptr w" and nz: "buf_base (s_writebuf s) \<noteq> 0"
    and moves: "\<not> a_flag (sys w (calls w))"
    and ok: "a_err (sys w (Suc (calls w))) = 0 \<or> a_err (sys w (Suc (calls w))) = ERROR_IO_PENDING"
  shows "\<exists>w'. tcp_send p data w = Inr ((), w') \<and> sent w' = sent w @ [(h_socket h, data)] \<and>
    tcp_send p data' w' = Inl UseAfterFree"
proof -
  let ?old = "buf_base (s_writebuf s)" and ?new = "next_ptr w"
  obtain b where b: "blocks w ?old = Some b" "length b = buf_len (s_writebuf s)"
    using wr by (auto simp: writable_def)
  define w1 where "w1 = w\<lparr>calls := Suc (calls w), next_ptr := Suc ?new,
    blocks := (blocks w)(?old := None, ?new \<mapsto> data)\<rparr>"
  have wr1: "handles w1 p = Some h" "0 < activecnt h" "WriteReq p \<notin> set (pending_reqs w1)"
    using wr by (simp_all add: w1_def writable_def)
  have blk: "blocks w1 (buf_base (uv_buf_init ?new (length data))) = Some data"
    "buf_len (uv_buf_init ?new (length data)) \<le> length data"
    using old by (simp_all add: w1_def uv_buf_init_def)
  have okw: "a_err (sys w1 (calls w1)) = 0 \<or> a_err (sys w1 (calls w1)) = ERROR_IO_PENDING"
    using ok by (simp add: w1_def)
  obtain w' where w': "uv_tcp_write p p (uv_buf_init ?new (length data)) w1 = Inr (0, w')"
    "sent w' = sent w @ [(h_socket h, data)]" "sessions w' = sessions w" "blocks w' = blocks w1"
    "next_ptr w' = next_ptr w1"
    using uv_tcp_write_run [OF wr1 blk okw] by (auto simp: w1_def uv_buf_init_def)
  have ne: "?new \<noteq> ?old" "data \<noteq> []" using old len by auto
  have "tcp_send p data w = Inr ((), w')"
    using wr b len old moves w'(1) ne
    by (simp add: tcp_send_def run_simps writable_def uv_write_def w1_def blit_def mem_realloc_def malloc_def
        mem_free_def Let_def uv_buf_init_def nz)
  moreover have "tcp_send p data' w' = Inl UseAfterFree"
    using wr w'(3-5) nz old
    by (simp add: tcp_send_def writable_def run_simps mem_realloc_def mem_zero_def mem_write_def mem_block_def bad_access_def w1_def)
  ultimately show ?thesis using w'(2) by (intro exI [of _ w'] conjI)
qed

end
