(* ===== verification/Net_Lifecycle.thy ===== *)
theory Net_Lifecycle
  imports Net_Receive
begin

text \<open>
  The life of the service on a system that cooperates: creating sessions,
  connecting, starting to listen, and accepting a client, up to the session in
  use that \<open>Net_Receive\<close> starts from.
\<close>

section \<open>Connections\<close>

lemma getconnection_null: "getconnection ip port w = Inr (0, w)"
  using uv_ip_addr_disjoint [of ip port port]
  by (auto simp: getconnection_def split: prod.splits)

definition fresh_session :: "bool \<Rightarrow> 'a net_scheme \<Rightarrow> session" where
  "fresh_session v w = (let p = next_ptr w in
     \<lparr>s_id = id_counter w + 1, s_ipv6 = v, p_head = uv_buf_init (p + 2) PACKET_BUFFER_SIZE,
      p_body = stale_body w p, p_length = stale_length w p,
      s_readbuf = uv_buf_init (p + 3) PACKET_BUFFER_SIZE,
      s_writebuf = uv_buf_init (p + 4) PACKET_BUFFER_SIZE\<rparr>)"

definition fresh_blocks :: "'a net_scheme \<Rightarrow> ptr \<Rightarrow> byte list option" where
  "fresh_blocks w = (let p = next_ptr w in (blocks w)
     (p + 1 \<mapsto> map (junk w (p + 1)) [0..<UV_PACKET_HEAD_LENGTH],
      p + 2 \<mapsto> map (junk w (p + 2)) [0..<PACKET_BUFFER_SIZE],
      p + 3 \<mapsto> map (junk w (p + 3)) [0..<PACKET_BUFFER_SIZE],
      p + 4 \<mapsto> map (junk w (p + 4)) [0..<PACKET_BUFFER_SIZE]))"

lemma new_session_run:
  "new_session v w = Inr (next_ptr w, w\<lparr>id_counter := id_counter w + 1,
     blocks := fresh_blocks w, next_ptr := next_ptr w + 5, sessions := (sessions w)(next_ptr w \<mapsto> fresh_session v w),
     handles := (handles w)(next_ptr w \<mapsto> zero_handle\<lparr>h_data := next_ptr w\<rparr>)\<rparr>)"
  by (simp add: new_session_def generateid_def malloc_def Let_def fresh_session_def fresh_blocks_def
      eval_nat_numeral)

text \<open>The handle after \<^verbatim>\<open>uv_tcp_init\<close>.\<close>

definition tcp_fresh :: "uv_handle \<Rightarrow> uv_handle" where
  "tcp_fresh h = h\<lparr>h_type := UV_TCP, f_closing := False, f_closed := False, f_endgame_queued := False,
     f_active := False, f_ref := True, f_reading := False, f_bound := False, f_listening := False,
     f_connection := False, f_readable := False, f_writable := False, f_read_pending := False,
     f_sync_bypass := False, f_zero_read := False, f_ipv6 := False, f_nodelay := False,
     f_keepalive := False, f_socket_closed := False, write_queue_size := 0, activecnt := 0,
     accept_sockets := [], pending_accepts := [], h_socket := None, reqs_pending := 0,
     func_acceptex := False, func_connectex := False, delayed_error := 0\<rparr>"

lemma uv_tcp_init_run [run_simps]:
  "handles w p = Some h \<Longrightarrow> uv_tcp_init p w =
     Inr (0, w\<lparr>handle_queue := handle_queue w @ [p], handles := (handles w)(p \<mapsto> tcp_fresh h)\<rparr>)"
  by (simp add: uv_tcp_init_def uv_tcp_init_ex_def uv_stream_init_def uv__handle_init_def run_simps tcp_fresh_def)

lemma connect_ipv4_fails:
  assumes ip4: "fst (uv_ip4_addr ip port) = 0" and body: "buf_base (stale_body w (next_ptr w)) = 0"
  shows "service_connect stack ip port False w = Inl AssertFail"
proof -
  let ?p = "next_ptr w"
  define w1 where "w1 = w\<lparr>id_counter := id_counter w + 1,
     blocks := fresh_blocks w, next_ptr := ?p + 5, sessions := (sessions w)(?p \<mapsto> fresh_session False w),
     handles := (handles w)(?p \<mapsto> zero_handle\<lparr>h_data := ?p\<rparr>)\<rparr>"
  define w2 where "w2 = w1\<lparr>handle_queue := handle_queue w1 @ [?p],
    handles := (handles w1)(?p \<mapsto> tcp_fresh (zero_handle\<lparr>h_data := ?p\<rparr>))\<rparr>"
  have "\<exists>w'. delete_session ?p w2 = Inr ((), w') \<and> handles w' ?p = None \<and> next_ptr w' = next_ptr w2"
    by (rule delete_session_run [of _ _ "tcp_fresh (zero_handle\<lparr>h_data := ?p\<rparr>)" "fresh_session False w"])
      (use body in \<open>simp_all add: w2_def w1_def tcp_fresh_def fresh_session_def fresh_blocks_def uv_buf_init_def Let_def\<close>)
  then obtain w' where d: "delete_session ?p w2 = Inr ((), w')" by blast
  have "fst (uv_ip6_addr ip port) \<noteq> 0" using ip4 by (rule uv_ip_addr_disjoint)
  moreover have "session_close ?p w2 = Inr ((), w2)"
    by (simp add: session_close_def session_is_active_def uv_is_active_def run_simps w2_def tcp_fresh_def)
  moreover have "uv_tcp_init ?p w1 = Inr (0, w2)"
    unfolding w2_def by (rule uv_tcp_init_run) (simp add: w1_def)
  ultimately show ?thesis
    using d by (simp add: service_connect_def new_session_run w1_def [symmetric] Let_def)
qed

section \<open>A cooperating system\<close>

text \<open>Every call succeeds, and completions go through the completion port.\<close>

definition cooperates :: "(nat \<Rightarrow> answer) \<Rightarrow> bool" where
  "cooperates f \<longleftrightarrow> (\<forall>n. a_err (f n) = 0 \<and> \<not> a_flag (f n))"

lemma cooperatesD: "cooperates f \<Longrightarrow> a_err (f n) = 0" "cooperates f \<Longrightarrow> \<not> a_flag (f n)"
  by (simp_all add: cooperates_def)

lemma sys_code_run: "cooperates (sys w) \<Longrightarrow> sys_code w = Inr (0, w\<lparr>calls := Suc (calls w)\<rparr>)"
  by (simp add: sys_code_def run_simps cooperatesD)

definition with_socket :: "nat \<Rightarrow> nat \<Rightarrow> uv_handle \<Rightarrow> uv_handle" where
  "with_socket socket family h =
     (if family = AF_INET6 then h\<lparr>h_socket := Some socket, f_ipv6 := True\<rparr> else h\<lparr>h_socket := Some socket\<rparr>)"

lemma set_socket_run:
  assumes "cooperates (sys w)" and "handles w p = Some h" and "h_socket h = None"
    and "\<not> f_nodelay h" and "\<not> f_keepalive h" and "\<not> f_ipv6 h"
  shows "uv_tcp_set_socket p socket family w = Inr (0, w\<lparr>calls := Suc (Suc (Suc (Suc (calls w)))),
    handles := (handles w)(p \<mapsto> with_socket socket family h)\<rparr>)"
  using assms
  by (simp add: uv_tcp_set_socket_def run_simps sys_code_run tcp_set_bypass_def cooperatesD with_socket_def)

text \<open>An accept request for a free slot goes to the kernel.\<close>

lemma queue_accept_run:
  assumes "cooperates (sys w)" and "handles w p = Some h" and "f_listening h"
    and "accept_sockets h ! i = None" and "\<not> f_sync_bypass h"
  shows "uv_tcp_queue_accept p i w = Inr ((), w\<lparr>calls := Suc (Suc (Suc (calls w))),
    reqs := (reqs w)(AcceptReq p i := (reqs w (AcceptReq p i))\<lparr>r_status := 0\<rparr>),
    handles := (handles w)(p \<mapsto> h\<lparr>accept_sockets := (accept_sockets h)[i := Some (a_value (sys w (calls w)))],
      reqs_pending := Suc (reqs_pending h)\<rparr>),
    kernel := kernel w @ [AcceptReq p i]\<rparr>)"
  using assms
  by (simp add: uv_tcp_queue_accept_def run_simps upd_req_def touch_req_def set_accept_socket_def count_req_def
      kernel_queue_def cooperatesD)

section \<open>Accepting a client\<close>

text \<open>What the handling of a socket leaves of the rest of the state.\<close>

definition same_objects :: "'a net_scheme \<Rightarrow> 'a net_scheme \<Rightarrow> bool" where
  "same_objects w w' \<longleftrightarrow> uv.more w' = uv.more w \<and> blocks w' = blocks w \<and> next_ptr w' = next_ptr w \<and>
     sys w' = sys w \<and> pending_reqs w' = pending_reqs w \<and> endgame_handles w' = endgame_handles w"

definition connected :: "nat \<Rightarrow> nat \<Rightarrow> uv_handle \<Rightarrow> uv_handle" where
  "connected socket family h = (with_socket socket family h)\<lparr>f_connection := True, write_reqs_pending := 0,
     f_bound := True, f_readable := True, f_writable := True\<rparr>"

lemma uv_accept_run:
  assumes sys: "cooperates (sys w)" and server: "handles w q = Some hq" "h_type hq = UV_TCP" "\<not> f_closing hq"
      "f_listening hq" "\<not> f_sync_bypass hq" "pending_accepts hq = i # rest" "accept_sockets hq ! i = Some socket"
      "i < length (accept_sockets hq)"
    and client: "handles w p = Some hp" "p \<noteq> q" "h_socket hp = None" "\<not> f_nodelay hp" "\<not> f_keepalive hp"
      "\<not> f_ipv6 hp"
  shows "\<exists>w'. uv_accept q p w = Inr (0, w') \<and> same_objects w w' \<and>
    handles w' = (handles w)(
      p \<mapsto> connected socket (if f_ipv6 hq then AF_INET6 else AF_INET) hp,
      q \<mapsto> hq\<lparr>pending_accepts := rest,
        accept_sockets := (accept_sockets hq)[i := Some (a_value (sys w (calls w + 4)))],
        reqs_pending := Suc (reqs_pending hq)\<rparr>) \<and>
    kernel w' = kernel w @ [AcceptReq q i] \<and> pending_reqs w' = pending_reqs w \<and> reqs w' (ReadReq p) = (reqs w (ReadReq p))\<lparr>r_status := 0, r_handle := p\<rparr>"
proof -
  define fam where "fam = (if f_ipv6 hq then AF_INET6 else AF_INET)"
  define w1 where "w1 = w\<lparr>calls := Suc (Suc (Suc (Suc (calls w)))),
    handles := (handles w)(p \<mapsto> with_socket socket fam hp)\<rparr>"
  have s: "uv_tcp_set_socket p socket fam w = Inr (0, w1)"
    unfolding w1_def by (rule set_socket_run) (use sys client in simp_all)
  define w2 where "w2 = w1\<lparr>reqs := (reqs w)(ReadReq p := (reqs w (ReadReq p))\<lparr>r_status := 0, r_handle := p\<rparr>),
    handles := (handles w)(p \<mapsto> connected socket fam hp,
      q \<mapsto> hq\<lparr>pending_accepts := rest, accept_sockets := (accept_sockets hq)[i := None]\<rparr>)\<rparr>"
  have q: "uv_tcp_queue_accept q i w2 = Inr ((), w2\<lparr>calls := Suc (Suc (Suc (calls w2))),
    reqs := (reqs w2)(AcceptReq q i := (reqs w2 (AcceptReq q i))\<lparr>r_status := 0\<rparr>),
    handles := (handles w2)(q \<mapsto> hq\<lparr>pending_accepts := rest,
      accept_sockets := (accept_sockets hq)[i := Some (a_value (sys w (calls w + 4)))],
      reqs_pending := Suc (reqs_pending hq)\<rparr>),
    kernel := kernel w2 @ [AcceptReq q i]\<rparr>)"
    by (subst queue_accept_run [where h = "hq\<lparr>pending_accepts := rest, accept_sockets := (accept_sockets hq)[i := None]\<rparr>"])
      (use sys server client in \<open>simp_all add: w2_def w1_def eval_nat_numeral\<close>)
  have "uv_tcp_accept q p w = res_bind (uv_tcp_queue_accept q i w2)
      (\<lambda>x. Inr (0, snd x\<lparr>active_tcp_streams := active_tcp_streams (snd x) + 1\<rparr>))"
    using server client s
    by (simp add: uv_tcp_accept_def run_simps uv_connection_init_def upd_req_def touch_req_def
        set_accept_socket_def w1_def fam_def [symmetric] w2_def connected_def res_bind_assoc
        case_prod_beta)
  then show ?thesis
    using server client unfolding q
    by (simp add: uv_accept_def run_simps same_objects_def w2_def w1_def fam_def)
qed

text \<open>Starting to read a fresh connection.\<close>

lemma session_receive_run:
  assumes sys: "cooperates (sys w)"
    and h: "handles w p = Some h" "h_type h = UV_TCP" "\<not> f_reading h" "f_readable h" "\<not> f_read_pending h"
      "\<not> f_closing h" "\<not> f_active h" "f_ref h" "activecnt h = 0" "\<not> f_sync_bypass h"
    and s: "sessions w p = Some s" "buf_base (p_head s) \<noteq> 0" "buf_len (p_head s) = PACKET_BUFFER_SIZE"
      "blocks w (buf_base (p_head s)) = Some b" "length b = PACKET_BUFFER_SIZE" "buf_base (p_body s) = 0"
  shows "session_receive p w = Inr (0, w\<lparr>active_handles := active_handles w + 1,
      blocks := (blocks w)(buf_base (p_head s) \<mapsto> replicate PACKET_BUFFER_SIZE 0),
      reqs := (reqs w)(ReadReq p := (reqs w (ReadReq p))\<lparr>r_status := 0\<rparr>), calls := Suc (calls w),
      handles := (handles w)(p \<mapsto> h\<lparr>f_reading := True, read_cb := Some On_receive_head,
        alloc_cb := Some On_alloc_head, activecnt := 1, f_active := True, f_zero_read := True,
        f_read_pending := True, reqs_pending := Suc (reqs_pending h)\<rparr>), kernel := kernel w @ [ReadReq p]\<rparr>)"
  using assms
  by (simp add: session_receive_def packet_receive_def receive_head_def packet_clear_run uv_read_start_def
      run_simps uv_tcp_read_start_def INCREASE_ACTIVE_COUNT_def uv__handle_start_def uv__active_handle_add_def
      uv_tcp_queue_read_def upd_req_def touch_req_def cooperatesD count_req_def kernel_queue_def)

text \<open>The server at \<open>q\<close> listens, and the kernel has completed the accept request of
  slot \<open>i\<close> with a socket.\<close>

definition accepting :: "ptr \<Rightarrow> nat \<Rightarrow> 'a net_scheme \<Rightarrow> bool" where
  "accepting q i w \<longleftrightarrow> q \<noteq> 0 \<and> q < next_ptr w \<and> m_handler w \<and>
     (case (handles w q, tcp_servers w q) of
        (Some h, Some t) \<Rightarrow> t_service t \<and> h_data h = q \<and> h_type h = UV_TCP \<and> \<not> f_closing h \<and>
          f_listening h \<and> \<not> f_sync_bypass h \<and> i < length (accept_sockets h) \<and>
          (case pending_accepts h of j # rest \<Rightarrow> j = i | [] \<Rightarrow> False) \<and> accept_sockets h ! i \<noteq> None
      | _ \<Rightarrow> False)"

lemma new_session_fresh:
  assumes "table_inv D w"
  shows "\<exists>w1. new_session v w = Inr (next_ptr w, w1) \<and> fresh_inv D (next_ptr w) w1 \<and>
    w1 = w\<lparr>id_counter := id_counter w + 1,
     blocks := fresh_blocks w, next_ptr := next_ptr w + 5, sessions := (sessions w)(next_ptr w \<mapsto> fresh_session v w),
     handles := (handles w)(next_ptr w \<mapsto> zero_handle\<lparr>h_data := next_ptr w\<rparr>)\<rparr>"
  using tripleD [OF fresh_new_session assms, of v] by (simp add: new_session_run)

definition same_service :: "'a net_scheme \<Rightarrow> 'a net_scheme \<Rightarrow> bool" where
  "same_service w w' \<longleftrightarrow> sessions w' = sessions w \<and> m_sessions w' = m_sessions w \<and> m_handler w' = m_handler w \<and>
     stale_body w' = stale_body w \<and> id_counter w' = id_counter w"

lemma same_objectsD:
  assumes "same_objects w w'"
  shows "sessions w' = sessions w" "m_sessions w' = m_sessions w" "m_handler w' = m_handler w"
    "net.more w' = net.more w" "blocks w' = blocks w" "next_ptr w' = next_ptr w" "sys w' = sys w"
    "uv.more w' = uv.more w" "tcp_servers w' = tcp_servers w" "udp_servers w' = udp_servers w"
    "m_tcp w' = m_tcp w" "m_udp w' = m_udp w" "pending_reqs w' = pending_reqs w"
    "endgame_handles w' = endgame_handles w" "same_service w w'"
  using assms by (cases w; cases w'; simp add: same_objects_def same_service_def)+

lemma fresh_blocks_at:
  "fresh_blocks w (next_ptr w + 2) = Some (map (junk w (next_ptr w + 2)) [0..<PACKET_BUFFER_SIZE])"
  "fresh_blocks w (next_ptr w + 3) \<noteq> None" "fresh_blocks w (next_ptr w + 4) \<noteq> None"
  by (simp_all add: fresh_blocks_def Let_def)

text \<open>The new session up to the point where its connection is entered into the table.\<close>

lemma accept_opens:
  assumes inv: "table_inv {} w" and sys: "cooperates (sys w)" and acc: "accepting q i w"
    and w1: "w1 = w\<lparr>id_counter := id_counter w + 1,
     blocks := fresh_blocks w, next_ptr := next_ptr w + 5, sessions := (sessions w)(next_ptr w \<mapsto> fresh_session v w),
     handles := (handles w)(next_ptr w \<mapsto> zero_handle\<lparr>h_data := next_ptr w\<rparr>)\<rparr>"
  shows "\<exists>w2 w3 socket family. uv_tcp_init (next_ptr w) w1 = Inr (0, w2) \<and>
    uv_accept q (next_ptr w) w2 = Inr (0, w3) \<and> same_objects w1 w3 \<and> AcceptReq q i \<in> set (kernel w3) \<and>
    handles w3 (next_ptr w) = Some (connected socket family (tcp_fresh (zero_handle\<lparr>h_data := next_ptr w\<rparr>))) \<and>
    (\<exists>hq. handles w3 q = Some hq \<and> 0 < reqs_pending hq \<and> \<not> f_closing hq)"
proof -
  let ?p = "next_ptr w" and ?h = "tcp_fresh (zero_handle\<lparr>h_data := next_ptr w\<rparr>)"
  from acc obtain hq t rest socket where q: "handles w q = Some hq" "tcp_servers w q = Some t" "q < ?p"
      "h_type hq = UV_TCP" "\<not> f_closing hq" "f_listening hq" "\<not> f_sync_bypass hq" "pending_accepts hq = i # rest"
      "accept_sockets hq ! i = Some socket" "i < length (accept_sockets hq)"
    by (auto simp: accepting_def split: option.splits list.splits)
  define w2 where "w2 = w1\<lparr>handle_queue := handle_queue w1 @ [?p], handles := (handles w1)(?p \<mapsto> ?h)\<rparr>"
  have init: "uv_tcp_init ?p w1 = Inr (0, w2)"
    unfolding w2_def by (rule uv_tcp_init_run) (simp add: w1)
  have "handles w2 q = Some hq" "handles w2 ?p = Some ?h" "?p \<noteq> q" using q by (simp_all add: w2_def w1)
  moreover have "cooperates (sys w2)" using sys by (simp add: w2_def w1)
  ultimately obtain w3 where w3: "uv_accept q ?p w2 = Inr (0, w3)" "same_objects w2 w3"
      "AcceptReq q i \<in> set (kernel w3)"
      "handles w3 ?p = Some (connected socket (if f_ipv6 hq then AF_INET6 else AF_INET) ?h)"
      "\<exists>h. handles w3 q = Some h \<and> 0 < reqs_pending h \<and> \<not> f_closing h"
    using uv_accept_run [of w2 q hq i rest socket ?p ?h] q by (auto simp: tcp_fresh_def)
  have "same_objects w1 w3" using w3(2) by (simp add: same_objects_def w2_def)
  with init w3 show ?thesis by blast
qed

lemma connected_fresh:
  "let h = connected socket family (tcp_fresh (zero_handle\<lparr>h_data := p\<rparr>)) in
     h_type h = UV_TCP \<and> \<not> f_reading h \<and> f_readable h \<and> \<not> f_read_pending h \<and> \<not> f_closing h \<and> \<not> f_active h \<and>
     f_ref h \<and> activecnt h = 0 \<and> \<not> f_sync_bypass h \<and> h_data h = p \<and> f_writable h"
  by (simp add: connected_def with_socket_def tcp_fresh_def Let_def)

text \<open>The completion of an accept request, from the loop's queue of requests to the
  session in use.\<close>

definition listening :: "ptr \<Rightarrow> nat \<Rightarrow> 'a net_scheme \<Rightarrow> bool" where
  "listening q i w \<longleftrightarrow> q \<noteq> 0 \<and> q < next_ptr w \<and> m_handler w \<and>
     (case (handles w q, tcp_servers w q) of
        (Some h, Some t) \<Rightarrow> t_service t \<and> h_data h = q \<and> h_type h = UV_TCP \<and> \<not> f_closing h \<and>
          f_listening h \<and> connection_cb h \<and> \<not> f_sync_bypass h \<and> i < length (accept_sockets h) \<and>
          None \<notin> set (accept_sockets h)
      | _ \<Rightarrow> False)"

lemma established_other:
  assumes "established p w" and "q \<noteq> p"
  shows "established p (w\<lparr>handles := (handles w)(q \<mapsto> h)\<rparr>)"
proof -
  have "table_inv {} w" using assms(1) by (simp add: established_def)
  then have "table_inv {} (w\<lparr>handles := (handles w)(q \<mapsto> h)\<rparr>)" by (rule table_inv_more [rotated 2]) simp_all
  with assms show ?thesis by (simp add: established_def ready_def split: option.splits)
qed

context quiet_app
begin

lemma accept_client:
  assumes inv: "table_inv {} w" and sys: "cooperates (sys w)" and acc: "accepting q i w"
    and J: "J (net.more w)" and body: "buf_base (stale_body w (next_ptr w)) = 0"
    and new: "map_find (m_sessions w) (id_counter w + 1) = None"
  shows "\<exists>w'. on_accept H q 0 w = Inr ((), w') \<and> established (next_ptr w) w' \<and>
    net.more w' = on_open (next_ptr w) (net.more w) \<and> J (net.more w') \<and>
    {AcceptReq q i, ReadReq (next_ptr w)} \<subseteq> set (kernel w') \<and>
    (\<exists>hq. handles w' q = Some hq \<and> 0 < reqs_pending hq \<and> \<not> f_closing hq) \<and>
    pending_reqs w' = pending_reqs w \<and> endgame_handles w' = endgame_handles w \<and> sys w' = sys w \<and>
    m_sessions w' = map_insert (id_counter w + 1) (next_ptr w) (m_sessions w)"
proof -
  let ?p = "next_ptr w"
  from acc obtain hq t where q: "handles w q = Some hq" "tcp_servers w q = Some t" "q \<noteq> 0" "q < ?p"
      "h_data hq = q" "t_service t" "m_handler w"
    by (auto simp: accepting_def split: option.splits)
  define s where "s = fresh_session (t_ipv6 t) w"
  obtain w1 where w1: "new_session (t_ipv6 t) w = Inr (?p, w1)" "fresh_inv {} ?p w1"
    "w1 = w\<lparr>id_counter := id_counter w + 1,
     blocks := fresh_blocks w, next_ptr := ?p + 5, sessions := (sessions w)(?p \<mapsto> fresh_session (t_ipv6 t) w),
     handles := (handles w)(?p \<mapsto> zero_handle\<lparr>h_data := ?p\<rparr>)\<rparr>"
    using new_session_fresh [OF inv] by blast
  obtain w2 w3 socket family where w3: "uv_tcp_init ?p w1 = Inr (0, w2)" "uv_accept q ?p w2 = Inr (0, w3)"
      "same_objects w1 w3" "AcceptReq q i \<in> set (kernel w3)"
      "handles w3 ?p = Some (connected socket family (tcp_fresh (zero_handle\<lparr>h_data := ?p\<rparr>)))"
      "\<exists>h. handles w3 q = Some h \<and> 0 < reqs_pending h \<and> \<not> f_closing h"
    using accept_opens [OF inv sys acc w1(3)] by blast
  define h where "h = connected socket family (tcp_fresh (zero_handle\<lparr>h_data := ?p\<rparr>))"
  note o = same_objectsD [OF w3(3)]
  have s3: "sessions w3 ?p = Some s" "m_sessions w3 = m_sessions w" "m_handler w3" "net.more w3 = net.more w"
    "blocks w3 = fresh_blocks w" "cooperates (sys w3)"
    using o w1(3) q sys by (simp_all add: s_def)
  have sid: "s_id s = id_counter w + 1" by (simp add: s_def fresh_session_def Let_def)
  have "fresh_inv {} ?p w3" by (rule fresh_inv_more [OF _ _ w1(2)]) (simp_all add: o)
  then have t4: "table_inv {} (w3\<lparr>m_sessions := map_insert (s_id s) ?p (m_sessions w3)\<rparr>)"
    by (rule fresh_insert) (use s3 new sid in \<open>simp_all add: id_at_def\<close>)
  define w4 where "w4 = w3\<lparr>m_sessions := map_insert (s_id s) ?p (m_sessions w), net.more := on_open ?p (net.more w)\<rparr>"
  have new4: "service_on_newsession H ?p w3 = Inr ((), w4)"
    using s3 new sid J by (simp add: service_on_newsession_def run_simps open_law w4_def)
  have bufs: "buf_base (p_head s) = ?p + 2" "buf_base (s_readbuf s) = ?p + 3" "buf_base (s_writebuf s) = ?p + 4"
    "buf_len (p_head s) = PACKET_BUFFER_SIZE" "buf_base (p_body s) = 0"
    using body by (simp_all add: s_def fresh_session_def uv_buf_init_def Let_def)
  define w5 where "w5 = w4\<lparr>active_handles := active_handles w4 + 1,
      blocks := (blocks w4)(buf_base (p_head s) \<mapsto> replicate PACKET_BUFFER_SIZE 0),
      reqs := (reqs w4)(ReadReq ?p := (reqs w4 (ReadReq ?p))\<lparr>r_status := 0\<rparr>), calls := Suc (calls w4),
      handles := (handles w4)(?p \<mapsto> h\<lparr>f_reading := True, read_cb := Some On_receive_head,
        alloc_cb := Some On_alloc_head, activecnt := 1, f_active := True, f_zero_read := True,
        f_read_pending := True, reqs_pending := Suc (reqs_pending h)\<rparr>), kernel := kernel w4 @ [ReadReq ?p]\<rparr>"
  note hc = connected_fresh [of socket family ?p, folded h_def, unfolded Let_def]
  have rec: "session_receive ?p w4 = Inr (0, w5)"
    unfolding w5_def
    by (rule session_receive_run [where b = "map (junk w (?p + 2)) [0..<PACKET_BUFFER_SIZE]"])
      (use w3 s3 bufs fresh_blocks_at [of w] hc in \<open>simp_all add: w4_def h_def\<close>)
  have run: "on_accept H q 0 w = Inr ((), w5)"
    using q w1(1) w3(1,2) new4 rec
    by (simp add: on_accept_def run_simps get_tcp_def Let_def)
  have "table_inv {} w5"
    by (rule table_inv_cong [OF _ _ _ _ _ t4]) (simp_all add: w5_def w4_def s3 id_at_def fun_eq_iff)
  moreover have "ready ?p w5"
    using hc s3 bufs q by (simp add: ready_def w5_def w4_def)
  moreover have "map_find (m_sessions w5) (s_id s) = Some ?p"
    using table_invD(1) [OF inv] new sid by (simp add: w5_def w4_def map_find_insert)
  ultimately have "established ?p w5"
    using hc s3 bufs fresh_blocks_at [of w] by (simp add: established_def w5_def w4_def)
  with run show ?thesis
    using w3(4,6) q(4) open_law [of w, OF J] o(14-) w1(3) sid
    by (auto simp: w5_def w4_def o)
qed

lemma accept_request:
  assumes inv: "table_inv {} w" and sys: "cooperates (sys w)" and l: "listening q i w"
    and st: "r_status (reqs w (AcceptReq q i)) = 0"
    and J: "J (net.more w)" and body: "buf_base (stale_body w (next_ptr w)) = 0"
    and new: "map_find (m_sessions w) (id_counter w + 1) = None"
  shows "\<exists>w'. uv_process_req n (net_callbacks H) (AcceptReq q i) w = Inr ((), w') \<and> established (next_ptr w) w' \<and>
    net.more w' = on_open (next_ptr w) (net.more w) \<and> J (net.more w') \<and>
    {AcceptReq q i, ReadReq (next_ptr w)} \<subseteq> set (kernel w') \<and> (\<exists>hq. handles w' q = Some hq) \<and>
    pending_reqs w' = pending_reqs w \<and> endgame_handles w' = endgame_handles w \<and> sys w' = sys w \<and>
    m_sessions w' = map_insert (id_counter w + 1) (next_ptr w) (m_sessions w)"
proof -
  from l obtain h t where h: "handles w q = Some h" "tcp_servers w q = Some t" "i < length (accept_sockets h)"
    "None \<notin> set (accept_sockets h)" "connection_cb h"
    by (auto simp: listening_def split: option.splits)
  obtain socket where sock: "accept_sockets h ! i = Some socket"
    using h(3,4) by (metis not_None_eq nth_mem)
  define w1 where "w1 = w\<lparr>calls := Suc (calls w), handles := (handles w)(q \<mapsto> h\<lparr>pending_accepts := i # pending_accepts h\<rparr>)\<rparr>"
  have acc: "accepting q i w1" using l h sock by (simp add: listening_def accepting_def w1_def)
  have t1: "table_inv {} w1" by (rule table_inv_more [OF _ _ inv]) (simp_all add: w1_def)
  obtain w' hq where w': "on_accept H q 0 w1 = Inr ((), w')" "established (next_ptr w) w'"
    "net.more w' = on_open (next_ptr w) (net.more w)" "J (net.more w')" "{AcceptReq q i, ReadReq (next_ptr w)} \<subseteq> set (kernel w')"
    "handles w' q = Some hq" "0 < reqs_pending hq" "\<not> f_closing hq"
    "pending_reqs w' = pending_reqs w" "endgame_handles w' = endgame_handles w" "sys w' = sys w"
    "m_sessions w' = map_insert (id_counter w + 1) (next_ptr w) (m_sessions w)"
    using accept_client [OF t1 _ acc] sys body new J by (auto simp: w1_def)
  define w2 where "w2 = w'\<lparr>handles := (handles w')(q \<mapsto> hq\<lparr>reqs_pending := reqs_pending hq - 1\<rparr>)\<rparr>"
  have "q \<noteq> next_ptr w" using l by (simp add: listening_def)
  then have "established (next_ptr w) w2" unfolding w2_def by (rule established_other [OF w'(2)])
  moreover have "uv_process_req n (net_callbacks H) (AcceptReq q i) w = Inr ((), w2)"
    using h sock st sys w'(1,6-8)
    by (simp add: uv_process_req_def touch_req_def run_simps uv_process_tcp_accept_req_def cooperatesD
        net_callbacks_def w1_def [symmetric] DECREASE_PENDING_REQ_COUNT_def w2_def)
  ultimately show ?thesis using w'(3-5,9-) by (simp add: w2_def)
qed

end

section \<open>Starting to listen\<close>

text \<open>The accept requests of the slots from \<open>i\<close> on.\<close>

lemma queue_accepts:
  assumes "cooperates (sys w)" and "handles w p = Some h" and "f_listening h" and "\<not> f_sync_bypass h"
    and "length (accept_sockets h) = n" and "\<forall>j. i \<le> j \<and> j < n \<longrightarrow> accept_sockets h ! j = None"
    and "\<forall>j < i. accept_sockets h ! j \<noteq> None" and "i \<le> n"
  shows "\<exists>w' acc. io_all (map (uv_tcp_queue_accept p) [i..<n]) w = Inr ((), w') \<and> same_objects w w' \<and>
    handles w' = (handles w)(p \<mapsto> h\<lparr>accept_sockets := acc, reqs_pending := reqs_pending h + (n - i)\<rparr>) \<and>
    length acc = n \<and> None \<notin> set acc \<and> kernel w' = kernel w @ map (AcceptReq p) [i..<n] \<and>
    active_handles w' = active_handles w"
  using assms
proof (induction "n - i" arbitrary: i w h)
  case 0
  then have "i = n" by simp
  moreover have "None \<notin> set (accept_sockets h)" using 0 by (auto simp: in_set_conv_nth)
  moreover have "h\<lparr>accept_sockets := accept_sockets h, reqs_pending := reqs_pending h\<rparr> = h" by simp
  ultimately show ?case using 0 by (auto simp: same_objects_def intro!: exI [of _ "accept_sockets h"])
next
  case (Suc k)
  then have i: "i < n" "[i..<n] = i # [Suc i..<n]" by (simp_all add: upt_conv_Cons)
  define h1 where "h1 = h\<lparr>accept_sockets := (accept_sockets h)[i := Some (a_value (sys w (calls w)))],
      reqs_pending := Suc (reqs_pending h)\<rparr>"
  define w1 where "w1 = w\<lparr>calls := Suc (Suc (Suc (calls w))),
    reqs := (reqs w)(AcceptReq p i := (reqs w (AcceptReq p i))\<lparr>r_status := 0\<rparr>),
    handles := (handles w)(p \<mapsto> h1), kernel := kernel w @ [AcceptReq p i]\<rparr>"
  have q: "uv_tcp_queue_accept p i w = Inr ((), w1)"
    unfolding w1_def h1_def by (rule queue_accept_run) (use Suc.prems i in simp_all)
  have k: "k = n - Suc i" using Suc.hyps(2) by simp
  have pre: "cooperates (sys w1)" "handles w1 p = Some h1" "f_listening h1" "\<not> f_sync_bypass h1"
    "length (accept_sockets h1) = n" "\<forall>j. Suc i \<le> j \<and> j < n \<longrightarrow> accept_sockets h1 ! j = None"
    "\<forall>j < Suc i. accept_sockets h1 ! j \<noteq> None" "Suc i \<le> n"
    using Suc.prems i by (simp_all add: w1_def h1_def nth_list_update less_Suc_eq)
  obtain w' acc where w': "io_all (map (uv_tcp_queue_accept p) [Suc i..<n]) w1 = Inr ((), w')"
    "same_objects w1 w'"
    "handles w' = (handles w1)(p \<mapsto> h1\<lparr>accept_sockets := acc, reqs_pending := reqs_pending h1 + (n - Suc i)\<rparr>)"
    "length acc = n" "None \<notin> set acc" "kernel w' = kernel w1 @ map (AcceptReq p) [Suc i..<n]"
    "active_handles w' = active_handles w1"
    using Suc.hyps(1) [OF k pre] by blast
  show ?case
    by (rule exI [of _ w'], rule exI [of _ acc])
      (use q w' i in \<open>simp add: same_objects_def w1_def h1_def Suc_diff_Suc\<close>)
qed

lemma uv_listen_run:
  assumes sys: "cooperates (sys w)"
    and h: "handles w p = Some h" "h_type h = UV_TCP" "\<not> f_listening h" "\<not> f_reading h" "delayed_error h = 0"
      "f_bound h" "\<not> func_acceptex h" "activecnt h = 0" "\<not> f_closing h" "\<not> f_active h" "f_ref h"
      "accept_sockets h = []" "\<not> f_sync_bypass h"
    and backlog: "0 < backlog"
  shows "\<exists>w' h'. uv_listen p backlog w = Inr (0, w') \<and> same_objects w w' \<and> handles w' p = Some h' \<and> (\<forall>q. q \<noteq> p \<longrightarrow> handles w' q = handles w q) \<and>
    f_listening h' \<and> f_active h' \<and> \<not> f_closing h' \<and> \<not> f_sync_bypass h' \<and> h_type h' = UV_TCP \<and> connection_cb h' \<and>
    length (accept_sockets h') = uv_simultaneous_server_accepts \<and> None \<notin> set (accept_sockets h') \<and>
    pending_accepts h' = pending_accepts h \<and>
    kernel w' = kernel w @ map (AcceptReq p) [0..<uv_simultaneous_server_accepts] \<and>
    active_handles w' = active_handles w + 1"
proof -
  define h1 where "h1 = h\<lparr>func_acceptex := True, f_listening := True, connection_cb := True, activecnt := 1,
    f_active := True, accept_sockets := replicate uv_simultaneous_server_accepts None\<rparr>"
  define w1 where "w1 = w\<lparr>calls := Suc (Suc (calls w)), active_handles := active_handles w + 1, handles := (handles w)(p \<mapsto> h1)\<rparr>"
  have "uv_listen p backlog w = res_bind (io_all (map (uv_tcp_queue_accept p) [0..<uv_simultaneous_server_accepts]) w1)
      (\<lambda>x. Inr (0, snd x))"
    using assms
    by (simp add: uv_listen_def uv_tcp_listen_def run_simps cooperatesD sys_code_run INCREASE_ACTIVE_COUNT_def
        uv__handle_start_def uv__active_handle_add_def w1_def h1_def res_bind_assoc case_prod_beta translate_zero)
  moreover obtain w' acc where "io_all (map (uv_tcp_queue_accept p) [0..<uv_simultaneous_server_accepts]) w1 = Inr ((), w')"
    "same_objects w1 w'"
    "handles w' = (handles w1)(p \<mapsto> h1\<lparr>accept_sockets := acc,
      reqs_pending := reqs_pending h1 + (uv_simultaneous_server_accepts - 0)\<rparr>)"
    "length acc = uv_simultaneous_server_accepts" "None \<notin> set acc"
    "kernel w' = kernel w1 @ map (AcceptReq p) [0..<uv_simultaneous_server_accepts]" "active_handles w' = active_handles w1"
    using queue_accepts [of w1 p h1 uv_simultaneous_server_accepts 0] sys h
    by (auto simp: w1_def h1_def)
  ultimately show ?thesis
    using h by (simp add: w1_def h1_def same_objects_def)
qed

lemma addr_family: "sa_family (snd (uv_ip4_addr ip port)) = AF_INET" "sa_family (snd (uv_ip6_addr ip port)) = AF_INET6"
  by (simp_all add: uv_ip4_addr_def uv_ip6_addr_def sa_family_def subrange_def le_val_le_bytes Let_def
      split: prod.splits)

lemma uv_tcp_bind_run:
  assumes sys: "cooperates (sys w)" and h: "handles w p = Some h" "h_type h = UV_TCP" "h_socket h = None"
      "\<not> f_nodelay h" "\<not> f_keepalive h" "\<not> f_ipv6 h"
    and family: "sa_family addr = AF_INET \<or> sa_family addr = AF_INET6"
  shows "\<exists>k socket. uv_tcp_bind p addr w = Inr (0, w\<lparr>calls := k,
    handles := (handles w)(p \<mapsto> (with_socket socket (sa_family addr) h)\<lparr>f_bound := True\<rparr>)\<rparr>)"
proof -
  have s: "uv_tcp_set_socket p socket (sa_family addr) (w\<lparr>calls := k\<rparr>) = Inr (0, w\<lparr>calls := Suc (Suc (Suc (Suc k))),
    handles := (handles w)(p \<mapsto> with_socket socket (sa_family addr) h)\<rparr>)" for socket k
    using set_socket_run [of "w\<lparr>calls := k\<rparr>" p h] sys h by simp
  show ?thesis
  proof (cases "sa_family addr = AF_INET6")
    case True
    with sys h s show ?thesis
      by (simp add: uv_tcp_bind_def uv__tcp_bind_def uv_tcp_try_bind_def run_simps cooperatesD sys_ignore_def
          translate_zero) (intro exI, rule refl)
  next
    case False
    with sys h s family show ?thesis
      by (simp add: uv_tcp_bind_def uv__tcp_bind_def uv_tcp_try_bind_def run_simps cooperatesD sys_ignore_def
          translate_zero) (intro exI, rule refl)
  qed
qed

lemma upd_tcp_run [run_simps]:
  "tcp_servers w p = Some t \<Longrightarrow> upd_tcp p f w = Inr ((), w\<lparr>tcp_servers := (tcp_servers w)(p \<mapsto> f t)\<rparr>)"
  by (simp add: upd_tcp_def get_tcp_def)

lemma get_tcp_run [run_simps]: "tcp_servers w p = Some t \<Longrightarrow> get_tcp p w = Inr (t, w)"
  by (simp add: get_tcp_def)

text \<open>The TCP server starts: it listens, and an accept request for each of its slots is
  with the kernel.\<close>

lemma tcp_starts:
  assumes sys: "cooperates (sys w)" and t: "tcp_servers w p = Some t" "t_service t" "\<not> t_init t"
    and h: "handles w p = Some h"
    and addr: "fst (if v then uv_ip6_addr ip port else uv_ip4_addr ip port) = 0"
  shows "\<exists>w' h'. tcp_initialize p ip port v w = Inr (True, w') \<and> handles w' p = Some h' \<and>
    (\<forall>q. q \<noteq> p \<longrightarrow> handles w' q = handles w q) \<and> next_ptr w' = next_ptr w \<and>
    sys w' = sys w \<and> m_handler w' = m_handler w \<and> udp_servers w' = udp_servers w \<and>
    m_tcp w' = m_tcp w \<and> m_udp w' = m_udp w \<and> net.more w' = net.more w \<and>
    pending_reqs w' = pending_reqs w \<and> endgame_handles w' = endgame_handles w \<and> same_service w w' \<and>
    tcp_servers w' = (tcp_servers w)(p \<mapsto> t\<lparr>t_ipv6 := v\<rparr>) \<and> h_type h' = UV_TCP \<and> \<not> f_sync_bypass h' \<and> h_data h' = p \<and> f_listening h' \<and> f_active h' \<and> \<not> f_closing h' \<and> connection_cb h' \<and>
    length (accept_sockets h') = uv_simultaneous_server_accepts \<and> None \<notin> set (accept_sockets h') \<and>
    kernel w' = kernel w @ map (AcceptReq p) [0..<uv_simultaneous_server_accepts] \<and>
    active_handles w' = active_handles w + 1"
proof -
  define w1 where "w1 = w\<lparr>tcp_servers := (tcp_servers w)(p \<mapsto> t\<lparr>t_ipv6 := v\<rparr>),
    handle_queue := handle_queue w @ [p], handles := (handles w)(p \<mapsto> tcp_fresh h)\<rparr>"
  define a where "a = snd (if v then uv_ip6_addr ip port else uv_ip4_addr ip port)"
  have fam: "sa_family a = AF_INET \<or> sa_family a = AF_INET6" using addr_family by (simp add: a_def)
  have pre: "cooperates (sys w1)" "handles w1 p = Some (tcp_fresh h)" "h_type (tcp_fresh h) = UV_TCP"
    "h_socket (tcp_fresh h) = None" "\<not> f_nodelay (tcp_fresh h)" "\<not> f_keepalive (tcp_fresh h)"
    "\<not> f_ipv6 (tcp_fresh h)"
    using sys h by (simp_all add: w1_def tcp_fresh_def)
  obtain k socket where b: "uv_tcp_bind p a w1 = Inr (0, w1\<lparr>calls := k,
      handles := (handles w1)(p \<mapsto> (with_socket socket (sa_family a) (tcp_fresh h))\<lparr>f_bound := True\<rparr>)\<rparr>)"
    using uv_tcp_bind_run [OF pre fam] by blast
  define h2 where "h2 = (with_socket socket (sa_family a) (tcp_fresh h))\<lparr>f_bound := True\<rparr>"
  define w2 where "w2 = w1\<lparr>calls := k, handles := (handles w1)(p \<mapsto> h2)\<rparr>"
  have pre2: "cooperates (sys w2)" "handles w2 p = Some h2" "h_type h2 = UV_TCP" "\<not> f_listening h2" "\<not> f_reading h2"
    "delayed_error h2 = 0" "f_bound h2" "\<not> func_acceptex h2" "activecnt h2 = 0" "\<not> f_closing h2" "\<not> f_active h2"
    "f_ref h2" "accept_sockets h2 = []" "\<not> f_sync_bypass h2" "(0 :: int) < 1024"
    using sys by (simp_all add: w2_def w1_def h2_def with_socket_def tcp_fresh_def)
  obtain w3 h3 where l: "uv_listen p 1024 w2 = Inr (0, w3)" "same_objects w2 w3" "handles w3 p = Some h3"
    "\<forall>q. q \<noteq> p \<longrightarrow> handles w3 q = handles w2 q"
    "f_listening h3" "f_active h3" "\<not> f_closing h3" "connection_cb h3" "h_type h3 = UV_TCP" "\<not> f_sync_bypass h3"
    "length (accept_sockets h3) = uv_simultaneous_server_accepts" "None \<notin> set (accept_sockets h3)"
    "kernel w3 = kernel w2 @ map (AcceptReq p) [0..<uv_simultaneous_server_accepts]"
    "active_handles w3 = active_handles w2 + 1"
    using uv_listen_run [OF pre2] by blast
  have "(if v then tcp_bind_ipv6 p ip port else tcp_bind_ipv4 p ip port) w1 = Inr (0, w2)"
    using addr b
    by (cases v) (simp_all add: tcp_bind_ipv6_def tcp_bind_ipv4_def a_def w2_def h2_def case_prod_beta Let_def)
  then have "tcp_initialize p ip port v w = Inr (True, w3\<lparr>handles := (handles w3)(p \<mapsto> h3\<lparr>h_data := p\<rparr>)\<rparr>)"
    using t h l(1,3) by (simp add: tcp_initialize_def run_simps w1_def [symmetric] tcp_listen_def)
  with l show ?thesis
    using same_objectsD [OF l(2)] by (simp add: w2_def w1_def same_service_def)
qed

lemma udp_run [run_simps]:
  "udp_servers w p = Some u \<Longrightarrow> upd_udp p f w = Inr ((), w\<lparr>udp_servers := (udp_servers w)(p \<mapsto> f u)\<rparr>)"
  "udp_servers w p = Some u \<Longrightarrow> get_udp p w = Inr (u, w)"
  by (simp_all add: upd_udp_def get_udp_def)

text \<open>The handle after \<^verbatim>\<open>uv_udp_init\<close>.\<close>

definition udp_fresh :: "uv_handle \<Rightarrow> uv_handle" where
  "udp_fresh h = h\<lparr>h_type := UV_UDP, f_closing := False, f_closed := False, f_endgame_queued := False,
     f_active := False, f_ref := True, f_reading := False, f_bound := False, f_listening := False,
     f_connection := False, f_readable := False, f_writable := False, f_read_pending := False,
     f_sync_bypass := False, f_zero_read := False, f_ipv6 := False, f_nodelay := False,
     f_keepalive := False, f_socket_closed := False, h_socket := None, reqs_pending := 0, activecnt := 0,
     write_queue_size := 0, send_queue_count := 0\<rparr>"

lemma uv_udp_init_run:
  "handles w p = Some h \<Longrightarrow> uv_udp_init p w =
     Inr (0, w\<lparr>handle_queue := handle_queue w @ [p], handles := (handles w)(p \<mapsto> udp_fresh h),
       reqs := (reqs w)(RecvReq p := (reqs w (RecvReq p))\<lparr>r_status := 0, r_handle := p\<rparr>)\<rparr>)"
  by (simp add: uv_udp_init_def uv_udp_init_ex_def uv__handle_init_def run_simps upd_req_def touch_req_def
      udp_fresh_def)

lemma uv_udp_bind_run:
  assumes sys: "cooperates (sys w)" and h: "handles w p = Some h" "h_type h = UV_UDP" "h_socket h = None"
      "\<not> f_bound h" "\<not> f_ipv6 h"
    and family: "sa_family addr = AF_INET \<or> sa_family addr = AF_INET6"
  shows "\<exists>k socket. uv_udp_bind p addr w = Inr (0, w\<lparr>calls := k,
    handles := (handles w)(p \<mapsto> (with_socket socket (sa_family addr) h)\<lparr>f_bound := True\<rparr>)\<rparr>)"
  using family
proof
  assume "sa_family addr = AF_INET"
  then show ?thesis using sys h
    by (simp add: uv_udp_bind_def uv__udp_bind_def uv_udp_maybe_bind_def run_simps cooperatesD sys_code_run
        uv_udp_set_socket_def udp_set_bypass_def with_socket_def translate_zero) (intro exI, rule refl)
next
  assume "sa_family addr = AF_INET6"
  then show ?thesis using sys h
    by (simp add: uv_udp_bind_def uv__udp_bind_def uv_udp_maybe_bind_def run_simps cooperatesD sys_code_run
        uv_udp_set_socket_def udp_set_bypass_def with_socket_def translate_zero sys_ignore_def) (intro exI, rule refl)
qed

text \<open>The UDP server starts: its datagrams are received.\<close>

lemma udp_starts:
  assumes sys: "cooperates (sys w)" and u: "udp_servers w p = Some u" "u_service u" "\<not> u_init u"
    and h: "handles w p = Some h"
    and addr: "fst (if v then uv_ip6_addr ip port else uv_ip4_addr ip port) = 0"
  shows "\<exists>w' h'. udp_initialize p ip port v w = Inr (True, w') \<and> handles w' p = Some h' \<and>
    (\<forall>q. q \<noteq> p \<longrightarrow> handles w' q = handles w q) \<and> m_tcp w' = m_tcp w \<and> m_udp w' = m_udp w \<and>
    net.more w' = net.more w \<and> pending_reqs w' = pending_reqs w \<and> endgame_handles w' = endgame_handles w \<and>
    sys w' = sys w \<and> next_ptr w' = next_ptr w \<and> same_service w w' \<and> tcp_servers w' = tcp_servers w \<and> f_reading h' \<and> f_active h' \<and> \<not> f_closing h' \<and> alloc_cb h' = Some On_alloc_buffer \<and>
    kernel w' = kernel w @ [RecvReq p] \<and> active_handles w' = active_handles w + 1"
proof -
  define w1 where "w1 = w\<lparr>udp_servers := (udp_servers w)(p \<mapsto> u\<lparr>u_ipv6 := v\<rparr>),
    handle_queue := handle_queue w @ [p], handles := (handles w)(p \<mapsto> udp_fresh h),
    reqs := (reqs w)(RecvReq p := (reqs w (RecvReq p))\<lparr>r_status := 0, r_handle := p\<rparr>)\<rparr>"
  have init: "uv_udp_init p (w\<lparr>udp_servers := (udp_servers w)(p \<mapsto> u\<lparr>u_ipv6 := v\<rparr>)\<rparr>) = Inr (0, w1)"
    using h by (simp add: uv_udp_init_run w1_def)
  define a where "a = snd (if v then uv_ip6_addr ip port else uv_ip4_addr ip port)"
  have fam: "sa_family a = AF_INET \<or> sa_family a = AF_INET6" using addr_family by (simp add: a_def)
  have pre: "cooperates (sys w1)" "handles w1 p = Some (udp_fresh h)" "h_type (udp_fresh h) = UV_UDP"
    "h_socket (udp_fresh h) = None" "\<not> f_bound (udp_fresh h)" "\<not> f_ipv6 (udp_fresh h)"
    using sys h by (simp_all add: w1_def udp_fresh_def)
  obtain k socket where b: "uv_udp_bind p a w1 = Inr (0, w1\<lparr>calls := k,
      handles := (handles w1)(p \<mapsto> (with_socket socket (sa_family a) (udp_fresh h))\<lparr>f_bound := True\<rparr>)\<rparr>)"
    using uv_udp_bind_run [OF pre fam] by blast
  define h2 where "h2 = (with_socket socket (sa_family a) (udp_fresh h))\<lparr>f_bound := True\<rparr>"
  define w2 where "w2 = w1\<lparr>calls := k, handles := (handles w1)(p \<mapsto> h2)\<rparr>"
  have h2: "cooperates (sys w2)" "handles w2 p = Some h2" "h_type h2 = UV_UDP" "\<not> f_reading h2" "f_bound h2" "activecnt h2 = 0"
    "\<not> f_closing h2" "\<not> f_active h2" "f_ref h2" "\<not> f_read_pending h2" "\<not> f_sync_bypass h2"
    "udp_servers w2 p = Some (u\<lparr>u_ipv6 := v\<rparr>)"
    using sys by (simp_all add: w2_def w1_def h2_def with_socket_def udp_fresh_def)
  have "(if v then udp_bind_ipv6 p ip port else udp_bind_ipv4 p ip port) w1 = Inr (0, w2)"
    using addr b
    by (cases v) (simp_all add: udp_bind_ipv6_def udp_bind_ipv4_def a_def w2_def h2_def case_prod_beta Let_def io_zero_def)
  moreover define w3 where "w3 = w2\<lparr>active_handles := active_handles w2 + 1,
    active_udp_streams := active_udp_streams w2 + 1,
    reqs := (reqs w2)(RecvReq p := (reqs w2 (RecvReq p))\<lparr>r_status := 0\<rparr>), calls := Suc (calls w2),
    handles := (handles w2)(p \<mapsto> h2\<lparr>f_reading := True, activecnt := 1, f_active := True,
      alloc_cb := Some On_alloc_buffer, f_zero_read := True, f_read_pending := True,
      reqs_pending := Suc (reqs_pending h2)\<rparr>),
    kernel := kernel w2 @ [RecvReq p]\<rparr>"
  have "udp_listen p w2 = Inr (0, w3)"
    using h2
    by (simp add: udp_listen_def io_zero_def uv_udp_recv_start_def uv__udp_recv_start_def run_simps
        uv_udp_maybe_bind_def INCREASE_ACTIVE_COUNT_def uv__handle_start_def uv__active_handle_add_def
        uv_udp_queue_recv_def upd_req_def touch_req_def cooperatesD count_req_def kernel_queue_def w3_def)
  ultimately have "udp_initialize p ip port v w =
      Inr (True, w3\<lparr>udp_servers := (udp_servers w3)(p \<mapsto> u\<lparr>u_ipv6 := v, u_init := True\<rparr>)\<rparr>)"
    using u init h2(12) by (simp add: udp_initialize_def run_simps w3_def)
  then show ?thesis using h2 by (simp add: w3_def w2_def w1_def same_service_def)
qed

section \<open>Starting the service\<close>

text \<open>The process before the service is made: no objects, nothing in the loop.\<close>

definition start_state :: "(nat \<Rightarrow> answer) \<Rightarrow> (ptr \<Rightarrow> nat \<Rightarrow> byte) \<Rightarrow> (ptr \<Rightarrow> uv_buf) \<Rightarrow> 'a \<Rightarrow> 'a net_scheme" where
  "start_state answers old body x =
     \<lparr>handles = Map.empty, blocks = Map.empty, next_ptr = 1, junk = old, active_handles = 0,
      active_reqs = [], handle_queue = [], active_tcp_streams = 0, active_udp_streams = 0,
      pending_reqs = [], endgame_handles = [], reqs = (\<lambda>_. \<lparr>r_status = 0, r_bytes = 0, r_queued = 0, r_handle = 0\<rparr>),
      kernel = [],
      sent = [], sys = answers, calls = 0,
      sessions = Map.empty, tcp_servers = Map.empty, udp_servers = Map.empty,
      stale_body = body, stale_length = (\<lambda>_. 0), id_counter = 0,
      m_handler = False, m_tcp = 0, m_udp = 0, m_connections = [], m_connect_data = 0,
      m_sessions = [], m_error = None, m_shutdown = False, m_init = False, \<dots> = x\<rparr>"

lemma addr_port:
  "fst (uv_ip4_addr ip port) = fst (uv_ip4_addr ip port')" "fst (uv_ip6_addr ip port) = fst (uv_ip6_addr ip port')"
  by (simp_all add: uv_ip4_addr_def uv_ip6_addr_def case_prod_beta Let_def)

lemma service_starts:
  assumes m: "\<not> m_init w0" "m_handler w0" and init: "H_initialize H w0 = Inr (True, w)"
    and sys: "cooperates (sys w)"
    and addr: "fst (if v then uv_ip6_addr ip tport else uv_ip4_addr ip tport) = 0"
  shows "\<exists>w' ht hu. service_initialize H ip tport uport v w0 = Inr (True, w') \<and>
    m_init w' \<and> net.more w' = net.more w \<and> pending_reqs w' = pending_reqs w \<and>
    endgame_handles w' = endgame_handles w \<and> sys w' = sys w \<and> m_tcp w' = next_ptr w \<and> m_udp w' = Suc (next_ptr w) \<and>
    handles w' (m_tcp w') = Some ht \<and> f_listening ht \<and> f_active ht \<and> h_data ht = m_tcp w' \<and>
    length (accept_sockets ht) = uv_simultaneous_server_accepts \<and> None \<notin> set (accept_sockets ht) \<and>
    handles w' (m_udp w') = Some hu \<and> f_reading hu \<and> f_active hu \<and>
    kernel w' = kernel w @ map (AcceptReq (m_tcp w')) [0..<uv_simultaneous_server_accepts] @ [RecvReq (m_udp w')] \<and>
    active_handles w' = active_handles w + 2 \<and> same_service w w' \<and>
    (next_ptr w \<noteq> 0 \<longrightarrow> m_handler w \<longrightarrow> (\<forall>i < uv_simultaneous_server_accepts. listening (m_tcp w') i w'))"
proof -
  let ?t = "next_ptr w" and ?u = "Suc (next_ptr w)"
  obtain w1 where w1: "new_tcp_server w = Inr (?t, w1)" "sys w1 = sys w" "kernel w1 = kernel w"
      "active_handles w1 = active_handles w" "handles w1 ?t = Some zero_handle" "next_ptr w1 = ?u"
      "tcp_servers w1 ?t = Some \<lparr>t_service = True, t_init = False, t_ipv6 = False\<rparr>" "net.more w1 = net.more w"
      "pending_reqs w1 = pending_reqs w" "endgame_handles w1 = endgame_handles w" "same_service w w1"
    by (simp add: new_tcp_server_def Let_def same_service_def)
  obtain w2 us where w2: "new_udp_server (w1\<lparr>m_tcp := ?t\<rparr>) = Inr (?u, w2)" "sys w2 = sys w" "kernel w2 = kernel w"
      "active_handles w2 = active_handles w" "handles w2 ?t = Some zero_handle" "m_tcp w2 = ?t"
      "tcp_servers w2 ?t = Some \<lparr>t_service = True, t_init = False, t_ipv6 = False\<rparr>" "net.more w2 = net.more w"
      "pending_reqs w2 = pending_reqs w" "endgame_handles w2 = endgame_handles w" "same_service w w2" "?u < next_ptr w2"
      "udp_servers w2 ?u = Some us" "u_service us" "\<not> u_init us" "handles w2 ?u = Some (zero_handle\<lparr>h_data := ?u\<rparr>)"
    using w1(2-) by (simp add: new_udp_server_def malloc_def Let_def same_service_def)
  define w3 where "w3 = w2\<lparr>m_udp := ?u\<rparr>"
  have w3: "cooperates (sys w3)" "tcp_servers w3 ?t = Some \<lparr>t_service = True, t_init = False, t_ipv6 = False\<rparr>"
    "handles w3 ?t = Some zero_handle" "udp_servers w3 ?u = Some us" "handles w3 ?u = Some (zero_handle\<lparr>h_data := ?u\<rparr>)"
    "kernel w3 = kernel w" "active_handles w3 = active_handles w"
    "net.more w3 = net.more w" "pending_reqs w3 = pending_reqs w" "endgame_handles w3 = endgame_handles w"
    "same_service w w3" "?t < next_ptr w3"
    using w2 sys by (simp_all add: w3_def same_service_def)
  obtain w4 ht where w4: "tcp_initialize ?t ip tport v w3 = Inr (True, w4)" "handles w4 ?t = Some ht"
    "handles w4 ?u = handles w3 ?u" "sys w4 = sys w3" "udp_servers w4 = udp_servers w3"
    "h_data ht = ?t" "f_listening ht" "f_active ht"
    "length (accept_sockets ht) = uv_simultaneous_server_accepts" "None \<notin> set (accept_sockets ht)"
    "kernel w4 = kernel w @ map (AcceptReq ?t) [0..<uv_simultaneous_server_accepts]"
    "active_handles w4 = active_handles w + 1" "m_tcp w4 = m_tcp w3" "m_udp w4 = m_udp w3"
    "net.more w4 = net.more w" "pending_reqs w4 = pending_reqs w" "endgame_handles w4 = endgame_handles w"
    "same_service w3 w4" "next_ptr w4 = next_ptr w3" "\<not> f_closing ht" "connection_cb ht" "h_type ht = UV_TCP"
    "\<not> f_sync_bypass ht" "tcp_servers w4 ?t = Some \<lparr>t_service = True, t_init = False, t_ipv6 = v\<rparr>"
    using tcp_starts [OF w3(1,2) _ _ w3(3) addr] w3 by auto
  have addr': "fst (if v then uv_ip6_addr ip uport else uv_ip4_addr ip uport) = 0"
    using addr addr_port by (metis (full_types))
  obtain w5 hu where w5: "udp_initialize ?u ip uport v w4 = Inr (True, w5)" "handles w5 ?u = Some hu"
    "handles w5 ?t = handles w4 ?t" "f_reading hu" "f_active hu" "kernel w5 = kernel w4 @ [RecvReq ?u]"
    "active_handles w5 = active_handles w4 + 1" "sys w5 = sys w4" "m_tcp w5 = m_tcp w4" "m_udp w5 = m_udp w4"
    "net.more w5 = net.more w4" "pending_reqs w5 = pending_reqs w4" "endgame_handles w5 = endgame_handles w4"
    "same_service w4 w5" "next_ptr w5 = next_ptr w4" "tcp_servers w5 = tcp_servers w4"
    using udp_starts [of w4 ?u us "zero_handle\<lparr>h_data := ?u\<rparr>" v ip uport] w4 w3 w2(14,15) addr' by auto
  have "m_tcp w5 = ?t \<and> m_udp w5 = ?u" using w5(9,10) w4(13,14) w2(6) by (simp add: w3_def)
  moreover have "service_initialize H ip tport uport v w0 = Inr (True, w5\<lparr>m_init := True\<rparr>)"
    using m init w1(1) w2(1) w4(1) w5(1)
    by (simp add: service_initialize_def w3_def)
  moreover have ss: "same_service w w5" using w3(11) w4(18) w5(14) by (simp add: same_service_def)
  moreover have "\<forall>i < uv_simultaneous_server_accepts. listening ?t i (w5\<lparr>m_init := True\<rparr>)"
    if "next_ptr w \<noteq> 0" "m_handler w"
    using that ss w3(12) w4 w5 by (simp add: listening_def same_service_def)
  ultimately show ?thesis using w4 w5 w2(2) by (simp add: w3_def same_service_def)
qed

end
