(* ===== verification/Net_Running.thy ===== *)
theory Net_Running
  imports Net_Table
begin

text \<open>
  The run loop of the service ends only when \<^verbatim>\<open>shutdown\<close> has been called.  No
  function of libuv or of the network library calls it, so a handler that does
  not call it either keeps the loop running.
\<close>

abbreviation running :: "'a net_scheme \<Rightarrow> bool" where
  "running w \<equiv> \<not> m_shutdown w"

abbreviation run_ok :: "('a net_scheme, 'b) io \<Rightarrow> bool" where
  "run_ok m \<equiv> keeps_inv running m (\<lambda>_. True)"

lemma running_more:
  assumes "uv.more w = uv.more (w' :: 'a net_scheme)" and "running w"
  shows "running w'"
  using assms by (cases w; cases w') simp

interpretation on: uv_client "running :: 'a net_scheme \<Rightarrow> bool"
  by unfold_locales (rule running_more)

lemma on_modify: "(\<And>w. m_shutdown (f w) = m_shutdown w) \<Longrightarrow> run_ok (io_modify f)"
  by (rule keeps_inv_modify) simp

lemma on_alloc_object: "(\<And>w. m_shutdown (f w) = m_shutdown w) \<Longrightarrow> run_ok (\<lambda>w. Inr (g w, f w))"
  by (simp add: keeps_inv_def triple_def)

lemma on_get [io_rules]: "run_ok (get_session p)" "run_ok (get_tcp p)" "run_ok (get_udp p)"
  by (auto simp: keeps_inv_def triple_def get_session_def get_tcp_def get_udp_def split: option.splits)

lemma on_upd [io_rules]: "run_ok (upd_session p f)" "run_ok (upd_tcp p g)" "run_ok (upd_udp p h)"
  by (auto simp: upd_session_def upd_tcp_def upd_udp_def intro!: io_rules on_modify)

lemma on_session [io_rules]:
  "run_ok (safe_free b)" "run_ok (packet_clear p)" "run_ok (packet_bodylength p)" "run_ok (receive_head p)"
  "run_ok (receive_body p)" "run_ok (session_receive p)" "run_ok (on_alloc_head p)" "run_ok (on_alloc_body p)"
  "run_ok (on_alloc_buffer p)" "run_ok (session_close p)" "run_ok (free_handle p)" "run_ok (new_session v)"
  by (auto simp: safe_free_def packet_clear_def packet_bodylength_def receive_head_def receive_body_def
      session_receive_def packet_receive_def on_alloc_head_def on_alloc_body_def on_alloc_buffer_def
      session_close_def session_is_active_def free_handle_def new_session_def generateid_def Let_def
      intro!: io_rules on_modify on_alloc_object)

lemma on_delete [io_rules]: "run_ok (delete_session p)"
  by (auto simp: delete_session_def session_is_active_def intro!: io_rules on_modify)

lemma on_find [io_rules]: "run_ok (find_session i m)"
  by (induction m) (auto intro!: io_rules on_alloc_object)

lemma on_table [io_rules]: "run_ok (getsession i)" "run_ok (getconnection_id i)" "run_ok (tcp_send p data)"
  by (auto simp: getsession_def getconnection_id_def tcp_send_def intro!: io_rules)

locale endless_handler =
  fixes H :: "'a net_scheme handler"
  assumes H_initialize_on: "run_ok (H_initialize H)"
    and H_update_on: "run_ok (H_update H)"
    and H_newsession_on: "run_ok (H_newsession H p)"
    and H_closesession_on: "run_ok (H_closesession H p)"
    and H_tcpreceive_on: "run_ok (H_tcpreceive H p data)"
    and H_udpreceive_on: "run_ok (H_udpreceive H addr data)"
    and H_newconnection_on: "run_ok (H_newconnection H p)"
    and H_closeconnection_on: "run_ok (H_closeconnection H p)"
begin

lemma with_handler_on: "run_ok m \<Longrightarrow> run_ok (with_handler m)"
  by (auto simp: with_handler_def intro!: io_rules)

lemmas handler_on = with_handler_on H_initialize_on H_update_on H_newsession_on H_closesession_on H_tcpreceive_on
  H_udpreceive_on H_newconnection_on H_closeconnection_on

lemma close_on: "run_ok (closesession H i)" "run_ok (closeconnection H i)"
  by (auto simp: closesession_def closeconnection_def intro!: io_rules on_modify handler_on)

lemma open_on: "run_ok (service_on_newsession H p)" "run_ok (service_on_newconnection H p)"
  by (auto simp: service_on_newsession_def service_on_newconnection_def intro!: io_rules on_modify handler_on
      split: if_splits)

lemma receive_on: "run_ok (receive_failed H p n)" "run_ok (on_receive_head H p n b)" "run_ok (on_receive_body H p n b)"
  by (auto simp: receive_failed_def on_receive_head_def on_receive_body_def service_on_tcpreceive_def Let_def
      intro!: io_rules close_on handler_on)

lemma accept_on: "run_ok (on_accept H p status)" "run_ok (on_connect H status)"
  by (auto simp: on_accept_def on_connect_def Let_def intro!: io_rules close_on open_on)

lemma udp_on: "run_ok (udp_on_receive H p n b a)"
  by (auto simp: udp_on_receive_def service_on_udpreceive_def service_error_def udp_close_def udp_is_active_def
      Let_def intro!: io_rules handler_on on_modify)

lemma callbacks_on: "on.callbacks_ok (net_callbacks H)"
  unfolding on.callbacks_ok_def net_callbacks_def
  by (auto simp: tcp_on_send_def udp_on_send_def session_on_close_def tcp_on_close_def udp_on_close_def
      intro!: io_rules receive_on accept_on udp_on
      split: alloc_cb.splits read_cb.splits close_cb.splits)

lemma initialize_on: "run_ok (service_initialize H ip tp up v)"
  by (auto simp: service_initialize_def new_tcp_server_def new_udp_server_def tcp_initialize_def udp_initialize_def
      tcp_bind_ipv4_def tcp_bind_ipv6_def udp_bind_ipv4_def udp_bind_ipv6_def tcp_listen_def udp_listen_def
      io_zero_def Let_def intro!: io_rules on_modify on_alloc_object handler_on split: prod.splits)

lemma run_endless: "running w \<Longrightarrow> service_run n k H w \<noteq> Inr x"
proof (induction n arbitrary: w)
  case 0
  then show ?case by simp
next
  case (Suc n)
  have "triple running (uv_run_nowait k (net_callbacks H)) (\<lambda>_. running) (\<lambda>_. True)"
    using on.ok_run [OF callbacks_on] by (simp add: keeps_inv_def)
  moreover have "triple running (with_handler (H_update H)) (\<lambda>_. running) (\<lambda>_. True)"
    using with_handler_on [OF H_update_on] by (simp add: keeps_inv_def)
  ultimately show ?case
    using Suc by (auto simp: res_bind_Inr_iff dest: tripleD)
qed

end

end
