(* ===== verification/Server_App.thy ===== *)
theory Server_App
  imports Net_Lifecycle Net_Running Packet Dispatcher Pb_Server
begin

text \<open>
  The application class of the servers (\<^verbatim>\<open>libs/server\<close>: \<^verbatim>\<open>serverapp\<close>,
  \<^verbatim>\<open>serverappinfo.h\<close>, \<^verbatim>\<open>gmain.h\<close>) on top of the network library: the handler of
  \<^verbatim>\<open>uv_service\<close> that parses what a session receives as a packet and hands it to
  the listeners of \<^verbatim>\<open>networkinterface\<close>, that registers itself with a server it
  has connected to, and the main program.
\<close>

section \<open>State\<close>

text \<open>
  The application object with the static dispatcher of \<^verbatim>\<open>networkinterface\<close>; it
  extends the state of the network library.
  \<open>handled\<close> is the sequence of member functions the dispatcher has invoked, each
  with the packet it was given.
\<close>

record serverapp =
  app_this :: ptr
  app_id :: int
  app_type :: int
  net_dispatcher :: dispatcher
  handled :: "packet call list"

type_synonym server = "serverapp net_scheme"

abbreviation app :: "server \<Rightarrow> serverapp" where
  "app w \<equiv> net.more w"

text \<open>\<^verbatim>\<open>serverapptype\<close>\<close>

definition APP_NONE :: int where "APP_NONE = 0"
definition APP_LOGIN :: int where "APP_LOGIN = 1"
definition APP_GATEWAY :: int where "APP_GATEWAY = 2"
definition APP_LOGIC :: int where "APP_LOGIC = 3"
definition APP_GAME :: int where "APP_GAME = 4"
definition APP_DB :: int where "APP_DB = 5"
definition APP_MAX :: int where "APP_MAX = 6"

lemmas app_types = APP_NONE_def APP_LOGIN_def APP_GATEWAY_def APP_LOGIC_def APP_GAME_def APP_DB_def
  APP_MAX_def

text \<open>The rows of \<^verbatim>\<open>serverappname\<close> up to the terminating zeros.\<close>

definition serverappname :: "byte list list" where
  "serverappname =
     [[0x6E, 0x6F, 0x6E, 0x65, 9],
      [0x6C, 0x6F, 0x67, 0x69, 0x6E, 9],
      [0x67, 0x61, 0x74, 0x65, 0x77, 0x61, 0x79],
      [0x6C, 0x6F, 0x67, 0x69, 0x63, 9],
      [0x67, 0x61, 0x6D, 0x65, 9],
      [0x64, 0x62, 9, 9]]"

definition SS_REGISTER_REQUEST :: int where "SS_REGISTER_REQUEST = 1"
definition SS_REGISTER_RETURN :: int where "SS_REGISTER_RETURN = 2"

text \<open>The type and the member functions of \<^verbatim>\<open>serverapp\<close> as the dispatcher names them.\<close>

definition serverapp_class :: nat where "serverapp_class = 1"
definition f_registerserver_request :: nat where "f_registerserver_request = 1"
definition f_registerserver_return :: nat where "f_registerserver_return = 2"

section \<open>The application\<close>

definition io_res :: "'a res \<Rightarrow> ('w, 'a) io" where
  "io_res r = (\<lambda>w. res_bind r (\<lambda>x. Inr (x, w)))"

definition new_serverapp :: "int \<Rightarrow> int \<Rightarrow> (server, unit) io" where
  "new_serverapp i ty = io_modify (\<lambda>w. w\<lparr>next_ptr := Suc (next_ptr w),
     net.more := (app w)\<lparr>app_this := next_ptr w, app_id := i,
       app_type := (if ty < 0 \<or> APP_MAX < ty then APP_NONE else ty)\<rparr>\<rparr>)"

definition serverapp_name :: "(server, byte list) io" where
  "serverapp_name = io_then
     [io_bind (io_get (\<lambda>w. app_type (app w))) (\<lambda>ty.
        io_when (ty < 0 \<or> APP_MAX < ty) (io_modify (\<lambda>w. w\<lparr>net.more := (app w)\<lparr>app_type := APP_NONE\<rparr>\<rparr>)))]
     (io_bind (io_get (\<lambda>w. app_type (app w))) (\<lambda>ty.
        if nat ty < length serverappname then io_return (serverappname ! nat ty) else io_fail OutOfBounds))"

definition on_newsession :: "ptr \<Rightarrow> (server, unit) io" where
  "on_newsession session = io_return ()"

definition on_closesession :: "ptr \<Rightarrow> (server, unit) io" where
  "on_closesession session = io_return ()"

text \<open>The two listeners check their arguments and do nothing else.\<close>

definition on_registerserver_request :: "ptr \<Rightarrow> int \<Rightarrow> packet \<Rightarrow> (server, unit) io" where
  "on_registerserver_request session i data =
     (if session = 0 \<or> i \<noteq> SS_REGISTER_REQUEST then io_return () else io_return ())"

definition on_registerserver_return :: "ptr \<Rightarrow> int \<Rightarrow> packet \<Rightarrow> (server, unit) io" where
  "on_registerserver_return session i data =
     (if session = 0 \<or> i \<noteq> SS_REGISTER_RETURN then io_return () else io_return ())"

text \<open>The call the dispatcher makes through the stored member function.\<close>

definition call_member :: "packet call \<Rightarrow> (server, unit) io" where
  "call_member c = io_all
     [io_modify (\<lambda>w. w\<lparr>net.more := (app w)\<lparr>handled := handled (app w) @ [c]\<rparr>\<rparr>),
      if c_func c = f_registerserver_request then on_registerserver_request (c_object c) (c_id c) (c_data c)
      else if c_func c = f_registerserver_return then on_registerserver_return (c_object c) (c_id c) (c_data c)
      else io_return ()]"

definition on_tcpreceive :: "ptr \<Rightarrow> byte list \<Rightarrow> (server, unit) io" where
  "on_tcpreceive session data = io_bind (io_res (packet_of_bytes (Some data) (length data))) (\<lambda>pack.
     if \<not> is_valid pack then io_return ()
     else io_bind (io_res (packet_id pack)) (\<lambda>i.
       io_bind (io_get (\<lambda>w. net_dispatcher (app w))) (\<lambda>d.
         io_bind (io_res (interface_dispatch d session i pack)) (\<lambda>cs. io_all (map call_member cs)))))"

definition on_udpreceive :: "byte list \<Rightarrow> byte list \<Rightarrow> (server, unit) io" where
  "on_udpreceive addr data = io_return ()"

text \<open>The message of \<^verbatim>\<open>on_newconnection\<close>.\<close>

definition register_request :: "int \<Rightarrow> int \<Rightarrow> byte list \<Rightarrow> ss_register_request" where
  "register_request i ty nm =
     (let m = req_mutable_info req_SharedCtor;
          m = m\<lparr>rq_info := Some (info_set_id (of_int i) (req_get_info m))\<rparr>;
          m = (req_mutable_info m)\<lparr>rq_info := Some (info_set_type (of_int ty) (req_get_info m))\<rparr>
      in (req_mutable_info m)\<lparr>rq_info := Some (info_set_name nm (req_get_info m))\<rparr>)"

definition on_newconnection :: "ptr \<Rightarrow> (server, unit) io" where
  "on_newconnection connection = io_bind (io_get (\<lambda>w. app_id (app w))) (\<lambda>i. io_bind (io_get (\<lambda>w. app_type (app w))) (\<lambda>ty.
     io_bind serverapp_name (\<lambda>nm.
       io_bind (io_res (SerializeToString req_ByteSize req_SerializeWithCachedSizesToArray (register_request i ty nm)))
         (\<lambda>(proto, _). io_bind sys_call (\<lambda>a.
           io_bind (io_res (packet_make (int (a_value a)) SS_REGISTER_REQUEST (Some proto) (length proto) i))
             (\<lambda>buf. tcp_send connection (ms_bytes buf)))))))"

definition on_closeconnection :: "ptr \<Rightarrow> (server, unit) io" where
  "on_closeconnection connection = io_return ()"

definition networkinterface_listen :: "int \<Rightarrow> nat \<Rightarrow> (server, bool) io" where
  "networkinterface_listen i func = io_bind (io_get (\<lambda>w. net_dispatcher (app w))) (\<lambda>d. io_bind (io_get (\<lambda>w. app_this (app w))) (\<lambda>this.
     io_bind (io_res (interface_listen d serverapp_class i this func)) (\<lambda>(r, d').
       io_then [io_modify (\<lambda>w. w\<lparr>net.more := (app w)\<lparr>net_dispatcher := d'\<rparr>\<rparr>)] (io_return r))))"

definition networkinterface_unlisten :: "int \<Rightarrow> nat \<Rightarrow> (server, unit) io" where
  "networkinterface_unlisten i func = io_bind (io_get (\<lambda>w. net_dispatcher (app w))) (\<lambda>d. io_bind (io_get (\<lambda>w. app_this (app w))) (\<lambda>this.
     io_bind (io_res (interface_unlisten d serverapp_class i this func)) (\<lambda>d'.
       io_modify (\<lambda>w. w\<lparr>net.more := (app w)\<lparr>net_dispatcher := d'\<rparr>\<rparr>))))"

definition app_initialize :: "(server, bool) io" where
  "app_initialize = io_bind (networkinterface_listen SS_REGISTER_REQUEST f_registerserver_request) (\<lambda>_.
     io_bind (networkinterface_listen SS_REGISTER_RETURN f_registerserver_return) (\<lambda>_. io_return True))"

definition app_shutdown :: "(server, unit) io" where
  "app_shutdown = io_all
     [networkinterface_unlisten SS_REGISTER_REQUEST f_registerserver_request,
      networkinterface_unlisten SS_REGISTER_RETURN f_registerserver_return]"

definition app_update :: "(server, unit) io" where
  "app_update = io_return ()"

definition app_handler :: "server handler" where
  "app_handler =
     \<lparr>H_initialize = app_initialize, H_update = app_update, H_shutdown = app_shutdown,
      H_newsession = on_newsession, H_closesession = on_closesession, H_tcpreceive = on_tcpreceive,
      H_udpreceive = on_udpreceive, H_newconnection = on_newconnection,
      H_closeconnection = on_closeconnection\<rparr>"

definition connectserver :: "byte list \<Rightarrow> byte list \<Rightarrow> int \<Rightarrow> bool \<Rightarrow> (server, bool) io" where
  "connectserver stack ip port ipv6 = io_bind (getconnection ip port) (\<lambda>connection.
     if connection \<noteq> 0 then
       io_bind (session_is_active connection) (\<lambda>active.
         if active then io_return True
         else io_bind (get_session connection) (\<lambda>s. io_then
           [closeconnection app_handler (s_id s)] (service_connect stack ip port ipv6)))
     else service_connect stack ip port ipv6)"

text \<open>\<^verbatim>\<open>gmain\<close>: the application and the service, which its destructor ends.\<close>

definition any_address :: "byte list" where
  "any_address = [0x30, 0x2E, 0x30, 0x2E, 0x30, 0x2E, 0x30, 0]"

definition gmain :: "nat \<Rightarrow> nat \<Rightarrow> (server, int) io" where
  "gmain n k = io_then
     [new_serverapp 1 APP_NONE,
      new_service True,
      io_bind (service_initialize app_handler any_address 7000 8000 False) (\<lambda>ok.
        io_when ok (io_bind (service_run n k app_handler) (\<lambda>_. io_return ()))),
      service_shutdown app_handler,
      delete_service]
     (io_return 0)"

section \<open>The application as handler of the service\<close>

lemma tab_res [io_rules]: "tab_ok D (io_res r)"
  by (auto simp: keeps_inv_def triple_def io_res_def res_bind_def split: sum.splits)

lemma tab_app [io_rules]: "tab_ok D (io_modify (\<lambda>w :: server. w\<lparr>net.more := f w\<rparr>))"
  by (rule tab_modify) simp_all

lemma on_app [io_rules]: "run_ok (io_res r)" "run_ok (io_modify (\<lambda>w :: server. w\<lparr>net.more := f w\<rparr>))"
  by (auto simp: keeps_inv_def triple_def io_res_def res_bind_def split: sum.splits)

interpretation table: service_handler app_handler
proof
  fix D p and data addr :: "byte list"
  show "tab_ok D (H_initialize app_handler)"
    unfolding app_handler_def app_initialize_def networkinterface_listen_def by (auto intro!: io_rules)
  show "tab_ok D (H_update app_handler)" "tab_ok D (H_newsession app_handler p)"
    "tab_ok D (H_closesession app_handler p)" "tab_ok D (H_udpreceive app_handler addr data)"
    "tab_ok D (H_closeconnection app_handler p)"
    unfolding app_handler_def app_update_def on_newsession_def on_closesession_def on_udpreceive_def
      on_closeconnection_def by (auto intro!: io_rules)
  show "tab_ok D (H_shutdown app_handler)"
    unfolding app_handler_def app_shutdown_def networkinterface_unlisten_def by (auto intro!: io_rules)
  show "tab_ok D (H_tcpreceive app_handler p data)"
    unfolding app_handler_def on_tcpreceive_def call_member_def on_registerserver_request_def
      on_registerserver_return_def by (auto intro!: io_rules)
  show "tab_ok D (H_newconnection app_handler p)"
    unfolding app_handler_def on_newconnection_def serverapp_name_def by (auto intro!: io_rules)
qed

interpretation endless: endless_handler app_handler
proof
  fix p and data addr :: "byte list"
  show "run_ok (H_initialize app_handler)"
    unfolding app_handler_def app_initialize_def networkinterface_listen_def by (auto intro!: io_rules)
  show "run_ok (H_update app_handler)" "run_ok (H_newsession app_handler p)"
    "run_ok (H_closesession app_handler p)" "run_ok (H_udpreceive app_handler addr data)"
    "run_ok (H_closeconnection app_handler p)"
    unfolding app_handler_def app_update_def on_newsession_def on_closesession_def on_udpreceive_def
      on_closeconnection_def by (auto intro!: io_rules)
  show "run_ok (H_tcpreceive app_handler p data)"
    unfolding app_handler_def on_tcpreceive_def call_member_def on_registerserver_request_def
      on_registerserver_return_def by (auto intro!: io_rules)
  show "run_ok (H_newconnection app_handler p)"
    unfolding app_handler_def on_newconnection_def serverapp_name_def by (auto intro!: io_rules)
qed

section \<open>What the application makes of what it receives\<close>

definition received_packet :: "byte list \<Rightarrow> packet" where
  "received_packet data = projr (packet_of_bytes (Some data) (length data))"

text \<open>The calls to the listeners of the packet's id.\<close>

definition dispatched :: "ptr \<Rightarrow> byte list \<Rightarrow> serverapp \<Rightarrow> packet call list" where
  "dispatched p data x =
     table_dispatch (table_of (net_dispatcher x)) p (int_of_bytes (take 4 data)) (received_packet data)"

lemma call_members:
  "io_all (map call_member cs) w = Inr ((), w\<lparr>net.more := (app w)\<lparr>handled := handled (app w) @ cs\<rparr>\<rparr>)"
proof (induction cs arbitrary: w)
  case (Cons c cs)
  then show ?case
    by (simp add: call_member_def on_registerserver_request_def on_registerserver_return_def)
qed simp

lemma received:
  assumes "PACKET_HEAD_LENGTH \<le> length data" and "length data \<le> vector_max_size"
  shows "packet_of_bytes (Some data) (length data) = Inr (received_packet data)"
    "is_valid (received_packet data)" "packet_id (received_packet data) = Inr (int_of_bytes (take 4 data))"
proof -
  have len: "24 \<le> length data" using assms(1) by (simp add: packet_offsets)
  obtain p where p: "packet_of_bytes (Some data) (length data) = Inr p" "packet_holds p data"
    using packet_of_bytes_ok [of "length data" data] len assms(2) by (cases "data = []") auto
  have eq: "received_packet data = p" by (simp add: received_packet_def p(1))
  have h: "ms_inv p" "ms_bytes p = data" "m_length p = length data"
    using p(2) packet_holds_length [OF p(2)] by (simp_all add: packet_holds_def)
  show "packet_of_bytes (Some data) (length data) = Inr (received_packet data)" using p eq by simp
  show "is_valid (received_packet data)" using h len by (simp add: eq is_valid_def ms_length_def packet_offsets)
  show "packet_id (received_packet data) = Inr (int_of_bytes (take 4 data))"
    using h len ms_read_value_at [OF h(1), of 0 4]
    by (auto simp: eq packet_id_def ms_length_def packet_offsets subrange_def)
qed

lemma on_tcpreceive_run:
  assumes "owned (net_dispatcher (app w))" and "PACKET_HEAD_LENGTH \<le> length data" and "length data \<le> vector_max_size"
  shows "on_tcpreceive p data w =
    Inr ((), w\<lparr>net.more := (app w)\<lparr>handled := handled (app w) @ dispatched p data (app w)\<rparr>\<rparr>)"
  by (simp add: on_tcpreceive_def io_res_def received [OF assms(2,3)] interface_dispatch_owned [OF assms(1)]
      call_members dispatched_def)

lemma more_same: "w\<lparr>net.more := app w\<rparr> = w"
  by (cases w) simp

interpretation quiet: quiet_app app_handler "\<lambda>x. owned (net_dispatcher x)"
  "\<lambda>p data x. x\<lparr>handled := handled x @ dispatched p data x\<rparr>" "\<lambda>p x. x" "\<lambda>p x. x"
proof
  fix w :: server and p and data :: "byte list"
  assume own: "owned (net_dispatcher (app w))"
  show "H_newsession app_handler p w = Inr ((), w\<lparr>net.more := app w\<rparr>) \<and> owned (net_dispatcher (app w))"
    using own by (simp add: app_handler_def on_newsession_def more_same)
  show "H_closesession app_handler p w = Inr ((), w\<lparr>net.more := app w\<rparr>)"
    by (simp add: app_handler_def on_closesession_def more_same)
  assume "length data = PACKET_BUFFER_SIZE"
  then have "PACKET_HEAD_LENGTH \<le> length data" "length data \<le> vector_max_size"
    by (simp_all add: PACKET_BUFFER_SIZE_def packet_offsets vector_max_size_def)
  from on_tcpreceive_run [OF own this]
  show "H_tcpreceive app_handler p data w =
      Inr ((), w\<lparr>net.more := (app w)\<lparr>handled := handled (app w) @ dispatched p data (app w)\<rparr>\<rparr>) \<and>
    owned (net_dispatcher ((app w)\<lparr>handled := handled (app w) @ dispatched p data (app w)\<rparr>))"
    using own by (simp add: app_handler_def)
qed

section \<open>Starting the application\<close>

text \<open>The process before \<^verbatim>\<open>main\<close>.\<close>

definition app_start :: serverapp where
  "app_start = \<lparr>app_this = 0, app_id = 0, app_type = 0, net_dispatcher = dispatcher_init, handled = []\<rparr>"

text \<open>\<^verbatim>\<open>gmain\<close> up to the loop.\<close>

definition boot :: "(server, bool) io" where
  "boot = io_then [new_serverapp 1 APP_NONE, new_service True]
     (service_initialize app_handler any_address 7000 8000 False)"

definition listener :: "ptr \<Rightarrow> int \<Rightarrow> nat \<Rightarrow> receiver" where
  "listener this i func = \<lparr>r_type = serverapp_class, m_object = this, m_id = i, m_receiver = func\<rparr>"

lemma listen_run:
  assumes "owned (net_dispatcher (app w))" and "listener (app_this (app w)) i func \<notin> set (table_of (net_dispatcher (app w)) i)"
  shows "\<exists>d. networkinterface_listen i func w = Inr (True, w\<lparr>net.more := (app w)\<lparr>net_dispatcher := d\<rparr>\<rparr>) \<and> owned d \<and>
    table_of d = (table_of (net_dispatcher (app w)))(i := table_of (net_dispatcher (app w)) i @ [listener (app_this (app w)) i func])"
proof -
  let ?r = "listener (app_this (app w)) i func" and ?d = "net_dispatcher (app w)"
  have l: "r_type ?r = serverapp_class" "m_id ?r = i" "m_object ?r = app_this (app w)" "m_receiver ?r = func"
    by (simp_all add: listener_def)
  obtain d where "interface_listen ?d serverapp_class i (app_this (app w)) func = Inr (True, d)" "owned d"
    "table_of d = (table_of ?d)(i := table_of ?d i @ [?r])"
    using listen_step [OF assms(1), of ?r] assms(2) l by (auto simp: table_listen_def)
  then show ?thesis by (auto simp: networkinterface_listen_def io_res_def)
qed

text \<open>The two listeners are registered.\<close>

lemma app_initialize_run:
  assumes "owned (net_dispatcher (app w))" and "table_of (net_dispatcher (app w)) = table_empty"
  shows "\<exists>d. app_initialize w = Inr (True, w\<lparr>net.more := (app w)\<lparr>net_dispatcher := d\<rparr>\<rparr>) \<and> owned d \<and>
    table_of d = table_empty
      (SS_REGISTER_REQUEST := [listener (app_this (app w)) SS_REGISTER_REQUEST f_registerserver_request],
       SS_REGISTER_RETURN := [listener (app_this (app w)) SS_REGISTER_RETURN f_registerserver_return])"
proof -
  obtain d1 where d1: "networkinterface_listen SS_REGISTER_REQUEST f_registerserver_request w =
      Inr (True, w\<lparr>net.more := (app w)\<lparr>net_dispatcher := d1\<rparr>\<rparr>)" "owned d1"
    "table_of d1 = table_empty
      (SS_REGISTER_REQUEST := [listener (app_this (app w)) SS_REGISTER_REQUEST f_registerserver_request])"
    using listen_run [OF assms(1), of SS_REGISTER_REQUEST f_registerserver_request] assms(2)
    by (auto simp: table_empty_def)
  obtain d2 where "networkinterface_listen SS_REGISTER_RETURN f_registerserver_return (w\<lparr>net.more := (app w)\<lparr>net_dispatcher := d1\<rparr>\<rparr>) =
      Inr (True, w\<lparr>net.more := (app w)\<lparr>net_dispatcher := d2\<rparr>\<rparr>)" "owned d2"
    "table_of d2 = (table_of d1)
      (SS_REGISTER_RETURN := [listener (app_this (app w)) SS_REGISTER_RETURN f_registerserver_return])"
    using listen_run [of "w\<lparr>net.more := (app w)\<lparr>net_dispatcher := d1\<rparr>\<rparr>" SS_REGISTER_RETURN f_registerserver_return] d1
    by (auto simp: table_empty_def SS_REGISTER_REQUEST_def SS_REGISTER_RETURN_def)
  with d1 show ?thesis by (auto simp: app_initialize_def)
qed

lemma any_address_ok: "fst (uv_ip4_addr any_address port) = 0"
  by code_simp

lemma app_starts:
  assumes sys: "cooperates answers"
  shows "\<exists>w ht hu. boot (start_state answers old body app_start) = Inr (True, w) \<and> m_init w \<and>
    table_of (net_dispatcher (app w)) = table_empty
      (SS_REGISTER_REQUEST := [listener (app_this (app w)) SS_REGISTER_REQUEST f_registerserver_request],
       SS_REGISTER_RETURN := [listener (app_this (app w)) SS_REGISTER_RETURN f_registerserver_return]) \<and>
    owned (net_dispatcher (app w)) \<and> app_this (app w) \<noteq> 0 \<and>
    pending_reqs w = [] \<and> endgame_handles w = [] \<and> sys w = answers \<and>
    handles w (m_tcp w) = Some ht \<and> f_listening ht \<and> f_active ht \<and> h_data ht = m_tcp w \<and>
    length (accept_sockets ht) = uv_simultaneous_server_accepts \<and> None \<notin> set (accept_sockets ht) \<and>
    handles w (m_udp w) = Some hu \<and> f_reading hu \<and> f_active hu \<and>
    kernel w = map (AcceptReq (m_tcp w)) [0..<uv_simultaneous_server_accepts] @ [RecvReq (m_udp w)] \<and>
    active_handles w = 2 \<and> m_tcp w = 2 \<and> listening 2 0 w \<and> m_sessions w = [] \<and> id_counter w = 0 \<and>
    stale_body w = body"
proof -
  define w0 where "w0 = snd (projr (io_all [new_serverapp 1 APP_NONE, new_service True] (start_state answers old body app_start)))"
  have w0: "io_all [new_serverapp 1 APP_NONE, new_service True] (start_state answers old body app_start) = Inr ((), w0)"
    by (simp add: w0_def new_serverapp_def new_service_def)
  have f: "\<not> m_init w0" "m_handler w0" "cooperates (sys w0)" "sys w0 = answers" "net_dispatcher (app w0) = dispatcher_init"
    "app_this (app w0) = 1" "pending_reqs w0 = []" "endgame_handles w0 = []" "kernel w0 = []" "active_handles w0 = 0"
    "next_ptr w0 = 2" "m_sessions w0 = []" "id_counter w0 = 0" "stale_body w0 = body"
    using sys by (simp_all add: w0_def new_serverapp_def new_service_def start_state_def app_start_def)
  obtain d where d: "app_initialize w0 = Inr (True, w0\<lparr>net.more := (app w0)\<lparr>net_dispatcher := d\<rparr>\<rparr>)" "owned d"
    "table_of d = table_empty
      (SS_REGISTER_REQUEST := [listener (app_this (app w0)) SS_REGISTER_REQUEST f_registerserver_request],
       SS_REGISTER_RETURN := [listener (app_this (app w0)) SS_REGISTER_RETURN f_registerserver_return])"
    using app_initialize_run [of w0] f(5) owned_init by auto
  then have init: "H_initialize app_handler w0 = Inr (True, w0\<lparr>net.more := (app w0)\<lparr>net_dispatcher := d\<rparr>\<rparr>)"
    by (simp add: app_handler_def)
  show ?thesis
    using service_starts [OF f(1,2) init, of False any_address 7000 8000] f(2-) d any_address_ok w0
    by (auto simp: boot_def same_service_def uv_simultaneous_server_accepts_def)
qed

section \<open>Rounds of the loop\<close>

text \<open>The first \<open>n\<close> rounds of \<^verbatim>\<open>run\<close>.\<close>

fun rounds :: "nat \<Rightarrow> nat \<Rightarrow> (server, unit) io" where
  "rounds 0 k = io_return ()"
| "rounds (Suc n) k = io_all
     [io_bind (uv_run_nowait k (net_callbacks app_handler)) (\<lambda>_. io_return ()),
      with_handler (H_update app_handler), rounds n k]"

lemma rounds_ok: "tab_ok D (rounds n k)"
proof (induction n)
  case 0
  then show ?case by (simp add: keeps_inv_def triple_def)
next
  case (Suc n)
  then show ?case unfolding rounds.simps
    by (intro io_rules table.run_round_ok table.handler_ok)
      (auto intro!: io_rules table.run_round_ok table.handler_ok)
qed

lemma rounds_running: "run_ok (rounds n k)"
proof (induction n)
  case 0
  then show ?case by (simp add: keeps_inv_def triple_def)
next
  case (Suc n)
  then show ?case unfolding rounds.simps
    by (intro io_rules on.ok_run endless.callbacks_on endless.handler_on)
      (auto intro!: io_rules on.ok_run endless.callbacks_on endless.handler_on)
qed

lemma run_rounds:
  assumes "rounds n k w = Inr ((), w')" and "running w"
  shows "service_run (n + m) k app_handler w = service_run m k app_handler w'"
  using assms
proof (induction n arbitrary: w)
  case (Suc n)
  obtain b w1 w2 where w1: "uv_run_nowait k (net_callbacks app_handler) w = Inr (b, w1)"
      "with_handler (H_update app_handler) w1 = Inr ((), w2)" "rounds n k w2 = Inr ((), w')"
    using Suc.prems(1) by (auto simp: res_bind_Inr_iff)
  have "running w1"
    by (rule keeps_invD [OF on.ok_run [OF endless.callbacks_on] Suc.prems(2) w1(1)])
  then have "running w2"
    by (rule keeps_invD [OF endless.with_handler_on [OF endless.H_update_on] _ w1(2)])
  then show ?case using Suc.IH [OF w1(3)] w1 Suc.prems(2) by simp
qed simp

lemma boot_table:
  assumes "boot (start_state answers old body app_start) = Inr (b, w)"
  shows "table_inv {} w" "running w"
proof -
  define w0 where "w0 = snd (projr (io_all [new_serverapp 1 APP_NONE, new_service True] (start_state answers old body app_start)))"
  have w0: "io_all [new_serverapp 1 APP_NONE, new_service True] (start_state answers old body app_start) = Inr ((), w0)"
    by (simp add: w0_def new_serverapp_def new_service_def)
  have t: "table_inv {} w0"
    by (rule table_invI) (simp_all add: w0_def new_serverapp_def new_service_def start_state_def id_at_def)
  have r: "running w0" by (simp add: w0_def new_serverapp_def new_service_def)
  have i: "service_initialize app_handler any_address 7000 8000 False w0 = Inr (b, w)"
    using assms w0 by (simp add: boot_def)
  show "table_inv {} w" by (rule keeps_invD [OF table.initialize_ok t i])
  show "running w" by (rule keeps_invD [OF endless.initialize_on r i])
qed

lemma fold_dispatched:
  "fold (\<lambda>data x. x\<lparr>handled := handled x @ dispatched p data x\<rparr>) cs x =
     x\<lparr>handled := handled x @ concat (map (\<lambda>d. dispatched p d x) cs)\<rparr>"
  by (induction cs arbitrary: x) (simp_all add: dispatched_def)

text \<open>Two rounds of the loop in which the system completes nothing but the accept request
  of one slot: the first takes the completion, the second accepts the client.\<close>

definition completes_only :: "request \<Rightarrow> (nat \<Rightarrow> answer) \<Rightarrow> bool" where
  "completes_only r f \<longleftrightarrow> (\<forall>n. a_done (f n) = [] \<or> a_done (f n) = [(r, 0, 0)])"

lemma poll_accept:
  assumes sys: "cooperates (sys w)" "completes_only (AcceptReq q i) (sys w)" and h: "handles w q = Some h"
    and free: "AcceptReq q i \<notin> set (pending_reqs w)" and kern: "AcceptReq q i \<in> set (kernel w)"
  shows "\<exists>w'. uv_poll w = Inr ((), w') \<and> uv.more w' = uv.more w \<and> handles w' = handles w \<and>
    blocks w' = blocks w \<and> next_ptr w' = next_ptr w \<and> sys w' = sys w \<and> active_handles w' = active_handles w \<and>
    endgame_handles w' = endgame_handles w \<and>
    (a_done (sys w (calls w)) \<noteq> [] \<longrightarrow> pending_reqs w' = pending_reqs w @ [AcceptReq q i] \<and>
      r_status (reqs w' (AcceptReq q i)) = 0)"
proof (cases "a_done (sys w (calls w)) = []")
  case True
  then show ?thesis using sys by (simp add: uv_poll_def run_simps cooperatesD)
next
  case False
  then have "a_done (sys w (calls w)) = [(AcceptReq q i, 0, 0)]" using sys(2) by (auto simp: completes_only_def)
  then show ?thesis using sys h free kern
    by (simp add: uv_poll_def run_simps cooperatesD complete_req_def upd_req_def touch_req_def
        uv_insert_pending_req_def)
qed

lemma established_cong:
  assumes "established p w" and "uv.more w' = uv.more w" and "handles w' = handles w" and "blocks w' = blocks w"
    and "next_ptr w' = next_ptr w"
  shows "established p w'"
proof -
  have t: "table_inv {} w'"
    by (rule table_inv_more [of w]) (use assms in \<open>simp_all add: established_def\<close>)
  have "sessions w' = sessions w" "m_sessions w' = m_sessions w" "m_handler w' = m_handler w"
    using assms(2) by (cases w; cases w'; simp)+
  with t assms show ?thesis by (simp add: established_def ready_def cong: option.case_cong)
qed

lemma client_run:
  assumes inv: "table_inv {} w" and sys: "cooperates (sys w)" "completes_only (AcceptReq q i) (sys w)"
    and l: "listening q i w" and own: "owned (net_dispatcher (app w))"
    and idle: "pending_reqs w = []" "endgame_handles w = []" "0 < active_handles w"
    and kern: "AcceptReq q i \<in> set (kernel w)" "a_done (sys w (calls w)) \<noteq> []"
    and new: "buf_base (stale_body w (next_ptr w)) = 0" "map_find (m_sessions w) (id_counter w + 1) = None"
  shows "\<exists>w'. rounds 2 1 w = Inr ((), w') \<and> established (next_ptr w) w' \<and> app w' = app w \<and>
    m_sessions w' = map_insert (id_counter w + 1) (next_ptr w) (m_sessions w)"
proof -
  obtain h where h: "handles w q = Some h" using l by (auto simp: listening_def split: option.splits)
  obtain w1 where w1: "uv_poll (w\<lparr>pending_reqs := []\<rparr>) = Inr ((), w1)" "uv.more w1 = uv.more w" "handles w1 = handles w"
    "blocks w1 = blocks w" "next_ptr w1 = next_ptr w" "sys w1 = sys w" "active_handles w1 = active_handles w"
    "endgame_handles w1 = []" "pending_reqs w1 = [AcceptReq q i]" "r_status (reqs w1 (AcceptReq q i)) = 0"
    using poll_accept [of "w\<lparr>pending_reqs := []\<rparr>" q i h] sys h kern idle by auto
  have r1: "uv_run_nowait 1 (net_callbacks app_handler) w = Inr (True, w1)"
    using idle w1 by (simp add: uv_run_nowait_def uv__loop_alive_def uv_process_reqs_def)
  define w1' where "w1' = w1\<lparr>pending_reqs := []\<rparr>"
  have more: "uv.more w1' = uv.more w" by (simp add: w1'_def w1)
  have same: "same_service w w1'" "app w1' = app w" "tcp_servers w1' = tcp_servers w"
    using more by (cases w; cases w1'; simp add: same_service_def)+
  have t1: "table_inv {} w1'" by (rule table_inv_more [OF _ _ inv]) (simp_all add: more, simp add: w1'_def w1)
  have pre: "cooperates (sys w1')" "listening q i w1'" "r_status (reqs w1' (AcceptReq q i)) = 0"
    "owned (net_dispatcher (app w1'))" "buf_base (stale_body w1' (next_ptr w1')) = 0"
    "map_find (m_sessions w1') (id_counter w1' + 1) = None"
    using w1 sys l own new same by (simp_all add: w1'_def listening_def same_service_def cong: option.case_cong)
  obtain w2 h2 where w2: "uv_process_req 1 (net_callbacks app_handler) (AcceptReq q i) w1' = Inr ((), w2)"
      "established (next_ptr w) w2" "app w2 = app w"
      "AcceptReq q i \<in> set (kernel w2)" "handles w2 q = Some h2" "pending_reqs w2 = []"
      "endgame_handles w2 = []" "sys w2 = sys w"
      "m_sessions w2 = map_insert (id_counter w + 1) (next_ptr w) (m_sessions w)"
    using quiet.accept_request [OF t1 pre, of 1] same w1 by (auto simp: w1'_def same_service_def)
  obtain w3 where w3: "uv_poll w2 = Inr ((), w3)" "uv.more w3 = uv.more w2" "handles w3 = handles w2"
    "blocks w3 = blocks w2" "next_ptr w3 = next_ptr w2" "endgame_handles w3 = []"
    using poll_accept [of w2 q i h2] sys w2 by auto
  have alive: "uv__loop_alive w1" using w1(7) idle(3) by (simp add: uv__loop_alive_def)
  have "uv_run_nowait 1 (net_callbacks app_handler) w1 = Inr (uv__loop_alive w3, w3)"
    using w2(1) w3(1,6) w1(9) alive
    by (simp add: uv_run_nowait_def uv_process_reqs_def w1'_def)
  then have "rounds 2 1 w = Inr ((), w3)"
    using r1 by (simp add: eval_nat_numeral with_handler_def app_handler_def app_update_def)
  moreover have "established (next_ptr w) w3" by (rule established_cong [OF w2(2) w3(2-5)])
  moreover have "app w3 = app w" "m_sessions w3 = m_sessions w2"
    using w3(2) w2(3) by (cases w3; cases w2; simp)+
  ultimately show ?thesis using w2(9) by simp
qed

lemma initialize_true: "service_initialize H ip tp up v w = Inr (b, w') \<Longrightarrow> m_handler w \<Longrightarrow> b"
  by (auto simp: service_initialize_def res_bind_Inr_iff split: if_splits)

section \<open>Properties\<close>

text \<open>States for the concrete instances: every call of the system is answered by the
  given answers, and then by success.\<close>

definition ok_answer :: answer where
  "ok_answer = \<lparr>a_err = 0, a_value = 0, a_data = [], a_addr = [], a_flag = False, a_done = []\<rparr>"

definition demo_state :: "answer list \<Rightarrow> server" where
  "demo_state as = (start_state (\<lambda>n. if n < length as then as ! n else ok_answer) (\<lambda>_ _. 0)
     (\<lambda>_. uv_buf_init 0 0) (app_start\<lparr>net_dispatcher := demo_bus\<rparr>))\<lparr>m_handler := True\<rparr>"

text \<open>A session in use at address 1.\<close>

definition demo_session :: session where
  "demo_session = \<lparr>s_id = 1, s_ipv6 = False, p_head = uv_buf_init 2 PACKET_BUFFER_SIZE,
     p_body = uv_buf_init 0 0, p_length = 0, s_readbuf = uv_buf_init 3 PACKET_BUFFER_SIZE,
     s_writebuf = uv_buf_init 4 PACKET_BUFFER_SIZE\<rparr>"

definition demo_connected :: "answer list \<Rightarrow> server" where
  "demo_connected as = (demo_state as)\<lparr>next_ptr := 5, sessions := [1 \<mapsto> demo_session], m_sessions := [(1, 1)],
     blocks := [2 \<mapsto> replicate PACKET_BUFFER_SIZE 0, 3 \<mapsto> replicate PACKET_BUFFER_SIZE 0,
       4 \<mapsto> replicate PACKET_BUFFER_SIZE 0],
     handles := [1 \<mapsto> (connected 7 AF_INET (tcp_fresh (zero_handle\<lparr>h_data := 1\<rparr>)))\<lparr>f_reading := True,
       read_cb := Some On_receive_head, alloc_cb := Some On_alloc_head, activecnt := 1, f_active := True,
       f_read_pending := True, reqs_pending := 1\<rparr>]\<rparr>"

lemma demo_session_ok:
  "ready 1 (demo_connected as)" "established 1 (demo_connected as)" "table_inv {} (demo_connected as)"
  "owned (net_dispatcher (app (demo_connected as)))" "r_status (reqs (demo_connected as) (ReadReq 1)) = 0"
  using buffer_size(1)
  by (simp_all add: demo_connected_def demo_state_def start_state_def ready_def established_def connected_def
      with_socket_def tcp_fresh_def demo_session_def uv_buf_init_def table_inv_def
      id_at_def map_sorted_def app_start_def owned_demo Let_def)

definition demo_buffer :: "byte list" where
  "demo_buffer = 7 # replicate (PACKET_BUFFER_SIZE - 1) 0"

text \<open>The run of the concrete instances: the system reports the completion of an accept
  request at every call.\<close>

definition accept_answer :: answer where
  "accept_answer = ok_answer\<lparr>a_done := [(AcceptReq 2 0, 0, 0)]\<rparr>"

lemma accept_answer_ok: "cooperates (\<lambda>_. accept_answer)" "completes_only (AcceptReq 2 0) (\<lambda>_. accept_answer)"
  by (simp_all add: cooperates_def completes_only_def accept_answer_def ok_answer_def)

definition booted :: "server \<Rightarrow> bool" where
  "booted w \<longleftrightarrow> boot (start_state (\<lambda>_. accept_answer) (\<lambda>_ _. 0) (\<lambda>_. uv_buf_init 0 0) app_start) = Inr (True, w)"

lemma booted_ex: "\<exists>w. booted w"
  using app_starts [OF accept_answer_ok(1), of "\<lambda>_ _. 0" "\<lambda>_. uv_buf_init 0 0"] by (auto simp: booted_def)

lemma booted_ready:
  assumes "booted w"
  shows "table_inv {} w" "cooperates (sys w)" "completes_only (AcceptReq 2 0) (sys w)" "listening 2 0 w"
    "owned (net_dispatcher (app w))" "pending_reqs w = []" "endgame_handles w = []" "0 < active_handles w"
    "AcceptReq 2 0 \<in> set (kernel w)" "a_done (sys w (calls w)) \<noteq> []"
    "buf_base (stale_body w (next_ptr w)) = 0" "map_find (m_sessions w) (id_counter w + 1) = None"
    "m_sessions w = []" "id_counter w = 0"
proof -
  note b = assms [unfolded booted_def]
  show "table_inv {} w" by (rule boot_table(1) [OF b])
  show "cooperates (sys w)" "completes_only (AcceptReq 2 0) (sys w)" "listening 2 0 w"
    "owned (net_dispatcher (app w))" "pending_reqs w = []" "endgame_handles w = []" "0 < active_handles w"
    "AcceptReq 2 0 \<in> set (kernel w)" "a_done (sys w (calls w)) \<noteq> []"
    "buf_base (stale_body w (next_ptr w)) = 0" "map_find (m_sessions w) (id_counter w + 1) = None"
    "m_sessions w = []" "id_counter w = 0"
    using app_starts [OF accept_answer_ok(1), of "\<lambda>_ _. 0" "\<lambda>_. uv_buf_init 0 0"] b accept_answer_ok
    by (auto simp: uv_buf_init_def uv_simultaneous_server_accepts_def accept_answer_def)
qed





text \<open>
  C3: What of a stream reaches the application.  While the reads of a session return
  full buffers of 1024 bytes, each buffer whose integer at offset 24 is not
  positive is dispatched, in order and as one packet, to the listeners of the id
  in its first four bytes; the other full buffers and a final partial read reach
  nobody.  The session stays in use.
\<close>

theorem buffers_dispatched:
  assumes "ready p w" and "owned (net_dispatcher (app w))"
    and "\<And>i. i < length cs \<Longrightarrow> a_err (sys w (calls w + i)) = 0 \<and> a_data (sys w (calls w + i)) = cs ! i \<and>
      length (cs ! i) = PACKET_BUFFER_SIZE"
    and "a_err (sys w (calls w + length cs)) = WSAEWOULDBLOCK \<or>
      a_err (sys w (calls w + length cs)) = 0 \<and> a_data (sys w (calls w + length cs)) \<noteq> [] \<and>
      length (a_data (sys w (calls w + length cs))) < PACKET_BUFFER_SIZE"
  shows "\<exists>w'. tcp_read_loop (Suc (length cs)) (net_callbacks app_handler) p w = Inr ((), w') \<and> ready p w' \<and>
    handled (app w') = handled (app w) @ concat (map (\<lambda>d. dispatched p d (app w)) (filter delivered cs))"
  using quiet.stream_delivery [OF assms] by (fastforce simp: fold_dispatched)

theorem buffers_dispatched_witness:
  "\<exists>w'. tcp_read_loop (Suc 1) (net_callbacks app_handler) 1
      (demo_connected [ok_answer\<lparr>a_data := demo_buffer\<rparr>, ok_answer\<lparr>a_err := WSAEWOULDBLOCK\<rparr>]) = Inr ((), w') \<and>
    ready 1 w' \<and> handled (app w') =
      [\<lparr>c_this = 40, c_func = 5, c_object = 1, c_id = 7, c_data = received_packet demo_buffer\<rparr>]"
proof -
  let ?w = "demo_connected [ok_answer\<lparr>a_data := demo_buffer\<rparr>, ok_answer\<lparr>a_err := WSAEWOULDBLOCK\<rparr>]"
  have r: "a_err (sys ?w (calls ?w + i)) = 0 \<and> a_data (sys ?w (calls ?w + i)) = [demo_buffer] ! i \<and>
      length ([demo_buffer] ! i) = PACKET_BUFFER_SIZE" if "i < length [demo_buffer]" for i
    using that buffer_size(1)
    by (simp add: demo_connected_def demo_state_def start_state_def ok_answer_def demo_buffer_def)
  have e: "a_err (sys ?w (calls ?w + length [demo_buffer])) = WSAEWOULDBLOCK"
    by (simp add: demo_connected_def demo_state_def start_state_def)
  have d: "delivered demo_buffer" "take 4 demo_buffer = [7, 0, 0, 0]"
    by (simp_all add: delivered_def demo_buffer_def subrange_def UV_PACKET_HEAD_LENGTH_def PACKET_BUFFER_SIZE_def eval_nat_numeral)
  have a: "net_dispatcher (app ?w) = demo_bus" "handled (app ?w) = []"
    by (simp_all add: demo_connected_def demo_state_def start_state_def app_start_def)
  have "dispatched 1 demo_buffer (app ?w) =
      [\<lparr>c_this = 40, c_func = 5, c_object = 1, c_id = 7, c_data = received_packet demo_buffer\<rparr>]"
    by (simp add: dispatched_def a d(2) int_of_bytes_def word32_def table_dispatch_def owned_demo receiver_invoke_def demo_receiver_def)
  then show ?thesis
    using buffers_dispatched [OF demo_session_ok(1,4) r disjI1 [OF e]] d(1)
    by (simp add: a del: tcp_read_loop.simps)
qed

text \<open>
  C32: The end of a session ends the server.  When the read of a session in use reports
  that the peer has closed or reset the connection, the read callback deletes the
  session together with the handle libuv is working on, and libuv then uses the
  deleted handle; on any other error the callback ends the process by its
  assertion.
\<close>

theorem session_end_fatal:
  assumes "established p w" and "owned (net_dispatcher (app w))"
    and "r_status (reqs w (ReadReq p)) = 0"
    and "a_err (sys w (calls w)) = 0 \<and> a_data (sys w (calls w)) = [] \<or>
      a_err (sys w (calls w)) \<noteq> 0 \<and> a_err (sys w (calls w)) \<noteq> WSAEWOULDBLOCK"
    and "e = (if a_err (sys w (calls w)) = 0 then UV_EOF else read_error (a_err (sys w (calls w))))"
  shows "uv_process_tcp_read_req (Suc n) (net_callbacks app_handler) p w =
    Inl (if e = UV_EOF \<or> e = UV_ECONNRESET then UseAfterFree else AssertFail)"
  using assms by (rule quiet.read_req_end)

theorem session_end_fatal_witness:
  "uv_process_tcp_read_req 1 (net_callbacks app_handler) 1 (demo_connected [ok_answer]) = Inl UseAfterFree"
proof -
  have "a_err (sys (demo_connected [ok_answer]) (calls (demo_connected [ok_answer]))) = 0"
    "a_data (sys (demo_connected [ok_answer]) (calls (demo_connected [ok_answer]))) = []"
    by (simp_all add: demo_connected_def demo_state_def start_state_def ok_answer_def)
  then show ?thesis
    using session_end_fatal [OF demo_session_ok(2,4,5) _ refl, of "[ok_answer]" 0] by simp
qed

text \<open>
  C33: Data that fits into the write buffer of a session is handed to the system
  unchanged, but when the write completes successfully the send callback ends the
  process by its assertion \<^verbatim>\<open>status != 0\<close>.
\<close>

theorem send_fatal:
  assumes "writable p h s w" and "length data \<le> buf_len (s_writebuf s)"
    and "a_err (sys w (calls w)) = 0 \<or> a_err (sys w (calls w)) = ERROR_IO_PENDING"
  shows "\<exists>w'. tcp_send p data w = Inr ((), w') \<and> sent w' = sent w @ [(h_socket h, data)] \<and>
    uv_process_tcp_write_req (net_callbacks app_handler) p w' = Inl AssertFail"
  using assms by (rule send_completes)

theorem send_fatal_witness:
  "\<exists>w'. tcp_send 1 [1, 2, 3] (demo_connected []) = Inr ((), w') \<and> sent w' = [(Some 7, [1, 2, 3])] \<and>
    uv_process_tcp_write_req (net_callbacks app_handler) 1 w' = Inl AssertFail"
proof -
  let ?h = "the (handles (demo_connected []) 1)"
  have "writable 1 ?h demo_session (demo_connected [])"
    using buffer_size(1)
    by (simp add: writable_def demo_connected_def demo_state_def start_state_def connected_def with_socket_def
        tcp_fresh_def demo_session_def uv_buf_init_def)
  moreover have "length [1, 2, 3 :: byte] \<le> buf_len (s_writebuf demo_session)"
    by (simp add: demo_session_def uv_buf_init_def PACKET_BUFFER_SIZE_def)
  moreover have "a_err (sys (demo_connected []) (calls (demo_connected []))) = 0" "h_socket ?h = Some 7"
      "sent (demo_connected []) = []"
    by (simp_all add: demo_connected_def demo_state_def start_state_def ok_answer_def connected_def with_socket_def)
  ultimately show ?thesis using send_fatal [of 1 ?h demo_session "demo_connected []" "[1, 2, 3]"] by simp
qed



text \<open>
  C34: The server serves until it is killed: whatever the system answers and however
  many rounds the loop is given, \<^verbatim>\<open>main\<close> does not return, since nothing in the
  program calls \<^verbatim>\<open>uv_service::shutdown\<close> while the loop runs.
\<close>

theorem main_never_returns: "gmain n k (start_state answers old body app_start) \<noteq> Inr x"
proof
  assume "gmain n k (start_state answers old body app_start) = Inr x"
  then obtain b w where w: "boot (start_state answers old body app_start) = Inr (b, w)"
      "b \<longrightarrow> (\<exists>y. service_run n k app_handler w = Inr y)" 
    by (auto simp: gmain_def boot_def res_bind_Inr_iff split: if_splits)
  then have b by (auto simp: boot_def new_serverapp_def new_service_def dest: initialize_true)
  with w(2) endless.run_endless [OF boot_table(2) [OF w(1)]] show False by blast
qed

text \<open>
  C35: \<^verbatim>\<open>getconnection(ip, port)\<close> never finds a connection: it asks for a string that is
  both an IPv4 and an IPv6 address, and there is none.  So \<^verbatim>\<open>connectserver\<close> never
  reuses or closes a connection; it always makes a new one.
\<close>

theorem connectserver_always_connects:
  "getconnection ip port w = Inr (0, w) \<and>
   connectserver stack ip port v w = service_connect stack ip port v w"
  by (simp add: connectserver_def getconnection_null)



end
