(* ===== verification/Spec2Isabelle.thy ===== *)
theory Spec2Isabelle
  imports Packet Dispatcher Pb_Stream Server_App
begin

text \<open>
  Verification of the GEngine server code.
\<close>

section \<open>Messages\<close>



section \<open>Messages in packets\<close>

text \<open>
  C26: A registration request that is serialised, appended to a packet as a string
  and read back by \<^verbatim>\<open>read(std::string&, size)\<close>, as the server test does, arrives
  with one extra zero byte: every field, the embedded ones included, is parsed
  correctly, but \<^verbatim>\<open>ParseFromString\<close> returns false.
\<close>

theorem packet_message_transfer:
  assumes "packet_default = Inr p0" and "req_wf m0" and "req_plain m"
    and "SerializeToString req_ByteSize req_SerializeWithCachedSizesToArray m = Inr (data, m')"
    and "length data < 64 * 2 ^ 20 - 1"
  shows "\<exists>p str q m1. ms_append_string p0 data = Inr p \<and>
    packet_read_string p [] (length data) = Inr (0, str, q) \<and>
    ParseFromString req_Clear (MergePartialFromCodedStream req_class) str m0 = (False, m1) \<and>
    req_view m1 = req_view m"
proof -
  have len: "length (data @ [0]) \<le> vector_max_size" using assms(5) by (simp add: vector_max_size_def)
  obtain p q where "append_items p0 [Text data] = Inr p" "read_items p [Text data] = Inr ([(0, data @ [0])], q)"
    using packet_items_transfer [OF assms(1), of "[Text data]"] len by auto
  then have "ms_append_string p0 data = Inr p \<and> packet_read_string p [] (length data) = Inr (0, data @ [0], q)"
    by (auto simp: res_bind_Inr_iff)
  moreover have "ParseFromString req_Clear (MergePartialFromCodedStream req_class) (data @ [0]) m0 =
      (False, req_merge_fields m (req_Clear m0))"
    using req.parse_serialised_then [OF assms(3,4), of "[0]"] assms(5) by simp
  ultimately show ?thesis using req_merge_into_clear(1) [OF assms(2), of m] by auto
qed

lemma short_transfer: "(14 :: nat) < 64 * 2 ^ 20 - 1"
  by simp

theorem packet_message_transfer_witness:
  "\<exists>p0 p str q m1. packet_default = Inr p0 \<and>
    ms_append_string p0 [10, 12, 8, 172, 2, 16, 3, 34, 2, 0x31, 0x3A, 40, 168, 70] = Inr p \<and>
    packet_read_string p [] 14 = Inr (0, str, q) \<and>
    ParseFromString req_Clear (MergePartialFromCodedStream req_class) str req_SharedCtor = (False, m1) \<and>
    req_view m1 = req_view demo_request"
proof -
  obtain p0 where p0: "packet_default = Inr p0"
    by (simp add: packet_default_def memorystream_sized_def vector_defs packet_offsets vector_max_size_def)
  have "SerializeToString req_ByteSize req_SerializeWithCachedSizesToArray demo_request =
      Inr ([10, 12, 8, 172, 2, 16, 3, 34, 2, 0x31, 0x3A, 40, 168, 70], snd (req_ByteSize demo_request))"
    by code_simp
  note transfer = packet_message_transfer [OF p0 ctor_wf(1) demo_plain(1) this]
  have "length [10, 12, 8, 172, 2, 16, 3, 34, 2, 0x31, 0x3A, 40, 168, 70 :: byte] = 14" by simp
  then show ?thesis using p0 transfer by (metis (no_types, lifting) short_transfer)
qed

end
